theory Spec2Isabelle
  imports Complex_Main
begin

section \<open>Arrays\<close>

text \<open>
  The solver of \<^verbatim>\<open>cs_recon/recon.py\<close> works on numpy arrays of complex numbers. An
  image sequence of shape (frame, row, column) is a list of frames, a frame being the
  list of its pixels in row-major order; a k-space array of shape (frame, channel,
  sample) is a list of frames in the same way. Floating-point numbers are idealised:
  \<^verbatim>\<open>complex64\<close> is \<^typ>\<open>complex\<close>, \<^verbatim>\<open>float\<close> is \<^typ>\<open>real\<close>, and no rounding,
  overflow or NaN is modelled. All frames of a numpy array have one shape; operations on
  two arrays pair their elements position by position.
\<close>

type_synonym frame = "complex list"

type_synonym image = "frame list"

datatype error = IndexError | UnboundLocalError

text \<open>\<^verbatim>\<open>xp.finfo(float).eps\<close>, the machine epsilon of a double.\<close>

definition eps :: real where
  "eps = 1 / 2 ^ 52"

text \<open>\<^verbatim>\<open>img.size\<close>: the number of elements.\<close>

definition img_size :: "image \<Rightarrow> nat" where
  "img_size img = length (concat img)"

text \<open>\<^verbatim>\<open>a - b\<close> on frames and on arrays.\<close>

definition fsub :: "frame \<Rightarrow> frame \<Rightarrow> frame" where
  "fsub a b = map2 (-) a b"

definition asub :: "image \<Rightarrow> image \<Rightarrow> image" where
  "asub a b = map2 fsub a b"

text \<open>\<^verbatim>\<open>-a\<close> on a frame.\<close>

definition fneg :: "frame \<Rightarrow> frame" where
  "fneg a = map uminus a"

text \<open>\<^verbatim>\<open>xp.zeros(img.shape)\<close>.\<close>

definition zeros :: "image \<Rightarrow> image" where
  "zeros img = map (map (\<lambda>_. 0)) img"

text \<open>\<^verbatim>\<open>xp.diff(a, n=1, axis=0)\<close>, which is \<^verbatim>\<open>a[1:] - a[:-1]\<close> along the frame axis.\<close>

definition diff :: "image \<Rightarrow> image" where
  "diff a = map2 fsub (tl a) (butlast a)"

text \<open>\<^verbatim>\<open>xp.vdot(a, b)\<close>: both arrays flattened, the first one conjugated.\<close>

definition vdot :: "image \<Rightarrow> image \<Rightarrow> complex" where
  "vdot a b = sum_list (map2 (\<lambda>u v. cnj u * v) (concat a) (concat b))"

text \<open>
  \<^verbatim>\<open>sigpy.util.axpy(y, a, x)\<close> performs \<^verbatim>\<open>y += a * x\<close>; the model returns the new
  contents of \<^verbatim>\<open>y\<close>. The same function gives the expression \<^verbatim>\<open>y + a * x\<close>.
\<close>

definition axpy :: "image \<Rightarrow> complex \<Rightarrow> image \<Rightarrow> image" where
  "axpy y a x = map2 (map2 (\<lambda>u v. u + a * v)) y x"

text \<open>\<^verbatim>\<open>t / xp.sqrt(abs(t) ** 2 + xp.finfo(float).eps)\<close>, element by element.\<close>

definition smooth_sign :: "complex \<Rightarrow> complex" where
  "smooth_sign z = z / complex_of_real (sqrt ((cmod z)\<^sup>2 + eps))"

definition normalized :: "image \<Rightarrow> image" where
  "normalized t = map (map smooth_sign) t"

section \<open>Temporal total variation\<close>

text \<open>
  \<^verbatim>\<open>TotalVariationReconNLCG._update_temporal_fd\<close>. With fewer than two frames
  \<^verbatim>\<open>temp_a\<close> has no frame and \<^verbatim>\<open>temp_a[0, :, :]\<close> raises IndexError. The slice
  \<^verbatim>\<open>ttv_update[1:-1]\<close> has as many frames as \<^verbatim>\<open>temp_b\<close>.
\<close>

definition NLCG_update_temporal_fd :: "image \<Rightarrow> error + image" where
  "NLCG_update_temporal_fd img =
     (let temp_a = diff img;
          temp_a = normalized temp_a;
          temp_b = diff temp_a;
          ttv_update = zeros img
      in if temp_a = [] then Inl IndexError
         else
           let ttv_update = ttv_update[0 := temp_a ! 0];
               ttv_update = take 1 ttv_update @ temp_b @ drop (length ttv_update - 1) ttv_update;
               ttv_update = ttv_update[length ttv_update - 1 := fneg (last temp_a)]
           in Inr ttv_update)"

text \<open>The free function \<^verbatim>\<open>temporal_tv_update\<close>.\<close>

definition temporal_tv_update :: "image \<Rightarrow> error + image" where
  "temporal_tv_update img =
     (let temp_a = diff img;
          temp_b = normalized temp_a;
          temp_c = diff temp_b;
          ttv_update = zeros img
      in if temp_b = [] then Inl IndexError
         else
           let ttv_update = ttv_update[0 := temp_b ! 0];
               ttv_update = take 1 ttv_update @ temp_c @ drop (length ttv_update - 1) ttv_update;
               ttv_update = ttv_update[length ttv_update - 1 := fneg (last temp_b)]
           in Inr ttv_update)"

text \<open>
  \<^verbatim>\<open>TotalVariationReconNLCG._calculate_tnorm\<close> and the free function
  \<^verbatim>\<open>calculate_tnorm\<close>: the sum of the magnitudes of all elements of the temporal
  difference, times \<^verbatim>\<open>lambda_t\<close>, over \<^verbatim>\<open>img.size\<close>.
\<close>

definition calculate_tnorm :: "image \<Rightarrow> real \<Rightarrow> real" where
  "calculate_tnorm img lambda_t =
     (let dtimg = diff img;
          dtimg = map (map cmod) dtimg;
          dtimg = sum_list (concat dtimg);
          dtimg = lambda_t * dtimg
      in dtimg / real (img_size img))"

section \<open>The measurement operator\<close>

text \<open>
  The forward operator and its adjoint are built by sigpy (sensitivity maps, the
  non-uniform Fourier transform, density compensation); the solver only applies them.
  In the class they are the linear operator \<^verbatim>\<open>self.A\<close> and \<^verbatim>\<open>self.A.H\<close>, on whole
  arrays. The object is a record; \<^verbatim>\<open>self.G\<close> and \<^verbatim>\<open>self.device\<close> take no part in
  the computation and are left out.
\<close>

record nlcg =
  self_A :: "image \<Rightarrow> image"
  self_AH :: "image \<Rightarrow> image"
  self_y :: image
  self_x :: image
  self_init_step_size :: real
  self_max_iter :: nat
  self_lambda_t :: real

text \<open>\<^verbatim>\<open>ksp * (dcf ** 0.5)\<close>, with \<^verbatim>\<open>dcf\<close> broadcast to the shape of \<^verbatim>\<open>ksp\<close>.\<close>

definition weighted :: "image \<Rightarrow> real list list \<Rightarrow> image" where
  "weighted ksp dcf = map2 (map2 (\<lambda>k w. k * complex_of_real (sqrt w))) ksp dcf"

text \<open>\<^verbatim>\<open>TotalVariationReconNLCG.__init__\<close>, given the operator it builds.\<close>

definition NLCG_init ::
  "(image \<Rightarrow> image) \<Rightarrow> (image \<Rightarrow> image) \<Rightarrow> image \<Rightarrow> real list list \<Rightarrow> real \<Rightarrow> nat \<Rightarrow> real \<Rightarrow> nlcg" where
  "NLCG_init A AH ksp dcf lambda_t max_iter step_size =
     (let ksp = weighted ksp dcf
      in \<lparr>self_A = A, self_AH = AH, self_y = ksp, self_x = AH ksp,
          self_init_step_size = step_size, self_max_iter = max_iter,
          self_lambda_t = lambda_t\<rparr>)"

definition NLCG_update_fidelity :: "nlcg \<Rightarrow> image \<Rightarrow> image" where
  "NLCG_update_fidelity self img =
     (let r = asub (self_y self) (self_A self img)
      in self_AH self r)"

definition NLCG_calculate_fnorm :: "nlcg \<Rightarrow> image \<Rightarrow> real" where
  "NLCG_calculate_fnorm self img =
     (let r = asub (self_y self) (self_A self img)
      in Re (vdot r r) / real (img_size img))"

definition NLCG_calculate_tnorm :: "nlcg \<Rightarrow> image \<Rightarrow> real" where
  "NLCG_calculate_tnorm self img =
     (let dtimg = diff img
      in self_lambda_t self * sum_list (concat (map (map cmod) dtimg)) / real (img_size img))"

text \<open>
  For the free functions the operator is given frame by frame. For frame \<^verbatim>\<open>iframe\<close>,
  \<^verbatim>\<open>m_forward\<close> is \<^verbatim>\<open>sp.nufft(sens_map * img[iframe], kloc[iframe])\<close> and
  \<^verbatim>\<open>m_adjoint\<close> is \<^verbatim>\<open>sp.nufft_adjoint(k * kweight, kloc[iframe], ...)\<close> times
  \<^verbatim>\<open>xp.conj(sens_map)\<close>, summed over the channels. The arguments \<^verbatim>\<open>kdata\<close>,
  \<^verbatim>\<open>kweight\<close>, \<^verbatim>\<open>kloc\<close> and \<^verbatim>\<open>sens_map\<close> travel together as one record.
\<close>

record measurement =
  m_kdata :: image
  m_forward :: "nat \<Rightarrow> frame \<Rightarrow> frame"
  m_adjoint :: "nat \<Rightarrow> frame \<Rightarrow> frame"

text \<open>
  \<^verbatim>\<open>fidelity_update\<close>: one pass over the frames, which fills \<^verbatim>\<open>update_term\<close> and
  accumulates \<^verbatim>\<open>fidelity_norm\<close>; it returns the pair of the gradient and the cost.
\<close>

fun fidelity_frames :: "measurement \<Rightarrow> image \<Rightarrow> nat list \<Rightarrow> image \<times> complex \<Rightarrow> image \<times> complex" where
  "fidelity_frames m img [] acc = acc"
| "fidelity_frames m img (iframe # rest) (update_term, fidelity_norm) =
     (let update_kspace = m_forward m iframe (img ! iframe);
          update_kspace = fsub (m_kdata m ! iframe) update_kspace;
          fidelity_norm = fidelity_norm + vdot [update_kspace] [update_kspace];
          update_term = update_term[iframe := m_adjoint m iframe update_kspace]
      in fidelity_frames m img rest (update_term, fidelity_norm))"

definition fidelity_update :: "image \<Rightarrow> measurement \<Rightarrow> image \<times> real" where
  "fidelity_update img m =
     (let nframe = length img;
          (update_term, fidelity_norm) = fidelity_frames m img [0..<nframe] (zeros img, 0)
      in (update_term, cmod fidelity_norm / real (img_size img)))"

section \<open>Line search\<close>

text \<open>
  The three-way comparison of one sub-iteration, the same in
  \<^verbatim>\<open>TotalVariationReconNLCG._line_search\<close> and in \<^verbatim>\<open>line_search\<close>. It works on
  the variables \<^verbatim>\<open>(step_size, cost_old, flag)\<close> and also says whether the loop is
  left by \<^verbatim>\<open>break\<close>. When no branch fires the variables stay as they are.
\<close>

type_synonym ls_vars = "real \<times> real \<times> bool"

definition ls_compare :: "real \<Rightarrow> real \<Rightarrow> real \<Rightarrow> ls_vars \<Rightarrow> bool \<times> ls_vars" where
  "ls_compare a b cost_new v =
     (case v of (step_size, cost_old, flag) \<Rightarrow>
        if cost_new > cost_old \<and> \<not> flag then (False, step_size * b, cost_old, flag)
        else if cost_new < cost_old then (False, step_size * a, cost_new, True)
        else if cost_new > cost_old \<and> flag then (True, step_size / a, cost_old, flag)
        else (False, step_size, cost_old, flag))"

text \<open>
  The loop \<^verbatim>\<open>for i in range(max_iter)\<close>, by recursion on the number of sub-iterations
  left; \<^verbatim>\<open>total_cost\<close> is the cost evaluation of the variant.
\<close>

fun ls_loop :: "(image \<Rightarrow> real) \<Rightarrow> image \<Rightarrow> image \<Rightarrow> real \<Rightarrow> real \<Rightarrow> nat \<Rightarrow> ls_vars \<Rightarrow> real" where
  "ls_loop total_cost img f_new a b 0 v = fst v"
| "ls_loop total_cost img f_new a b (Suc n) v =
     (let img_new = axpy img (complex_of_real (fst v)) f_new;
          cost_new = total_cost img_new;
          (brk, v') = ls_compare a b cost_new v
      in if brk then fst v' else ls_loop total_cost img f_new a b n v')"

text \<open>
  The same loop, recording the value of \<^verbatim>\<open>step_size\<close> at the end of every
  sub-iteration it executes.
\<close>

fun ls_steps :: "(image \<Rightarrow> real) \<Rightarrow> image \<Rightarrow> image \<Rightarrow> real \<Rightarrow> real \<Rightarrow> nat \<Rightarrow> ls_vars \<Rightarrow> real list" where
  "ls_steps total_cost img f_new a b 0 v = []"
| "ls_steps total_cost img f_new a b (Suc n) v =
     (let img_new = axpy img (complex_of_real (fst v)) f_new;
          cost_new = total_cost img_new;
          (brk, v') = ls_compare a b cost_new v
      in fst v' # (if brk then [] else ls_steps total_cost img f_new a b n v'))"

text \<open>Whether the loop is left by \<^verbatim>\<open>break\<close>.\<close>

fun ls_breaks :: "(image \<Rightarrow> real) \<Rightarrow> image \<Rightarrow> image \<Rightarrow> real \<Rightarrow> real \<Rightarrow> nat \<Rightarrow> ls_vars \<Rightarrow> bool" where
  "ls_breaks total_cost img f_new a b 0 v = False"
| "ls_breaks total_cost img f_new a b (Suc n) v =
     (let img_new = axpy img (complex_of_real (fst v)) f_new;
          cost_new = total_cost img_new;
          (brk, v') = ls_compare a b cost_new v
      in if brk then True else ls_breaks total_cost img f_new a b n v')"

definition NLCG_total_cost :: "nlcg \<Rightarrow> image \<Rightarrow> real" where
  "NLCG_total_cost self img =
     (let fnorm = NLCG_calculate_fnorm self img;
          tnorm = NLCG_calculate_tnorm self img
      in fnorm + tnorm)"

definition NLCG_line_search ::
  "nlcg \<Rightarrow> image \<Rightarrow> image \<Rightarrow> real \<Rightarrow> real \<Rightarrow> nat \<Rightarrow> real \<Rightarrow> real \<Rightarrow> real" where
  "NLCG_line_search self img f_new cost_old step_size max_iter a b =
     ls_loop (NLCG_total_cost self) img f_new a b max_iter (step_size, cost_old, False)"

definition total_cost :: "measurement \<Rightarrow> real \<Rightarrow> image \<Rightarrow> real" where
  "total_cost m lambda_t img =
     (let fnorm = snd (fidelity_update img m);
          tnorm = calculate_tnorm img lambda_t
      in fnorm + tnorm)"

definition line_search :: "image \<Rightarrow> image \<Rightarrow> measurement \<Rightarrow> real \<Rightarrow> real \<Rightarrow> real \<Rightarrow> real" where
  "line_search img update_term m step_size cost_old lambda_t =
     (let max_iter = 15; a = 13 / 10; b = 8 / 10
      in ls_loop (total_cost m lambda_t) img update_term a b max_iter (step_size, cost_old, False))"

text \<open>
  The values \<^verbatim>\<open>step_size\<close> takes in the two line searches, one per sub-iteration
  executed, and whether the searches are left by \<^verbatim>\<open>break\<close>.
\<close>

definition NLCG_line_search_steps ::
  "nlcg \<Rightarrow> image \<Rightarrow> image \<Rightarrow> real \<Rightarrow> real \<Rightarrow> nat \<Rightarrow> real \<Rightarrow> real \<Rightarrow> real list" where
  "NLCG_line_search_steps self img f_new cost_old step_size max_iter a b =
     ls_steps (NLCG_total_cost self) img f_new a b max_iter (step_size, cost_old, False)"

definition line_search_steps :: "image \<Rightarrow> image \<Rightarrow> measurement \<Rightarrow> real \<Rightarrow> real \<Rightarrow> real \<Rightarrow> real list" where
  "line_search_steps img update_term m step_size cost_old lambda_t =
     (let max_iter = 15; a = 13 / 10; b = 8 / 10
      in ls_steps (total_cost m lambda_t) img update_term a b max_iter (step_size, cost_old, False))"

definition NLCG_line_search_breaks ::
  "nlcg \<Rightarrow> image \<Rightarrow> image \<Rightarrow> real \<Rightarrow> real \<Rightarrow> nat \<Rightarrow> real \<Rightarrow> real \<Rightarrow> bool" where
  "NLCG_line_search_breaks self img f_new cost_old step_size max_iter a b =
     ls_breaks (NLCG_total_cost self) img f_new a b max_iter (step_size, cost_old, False)"

definition line_search_breaks :: "image \<Rightarrow> image \<Rightarrow> measurement \<Rightarrow> real \<Rightarrow> real \<Rightarrow> real \<Rightarrow> bool" where
  "line_search_breaks img update_term m step_size cost_old lambda_t =
     (let max_iter = 15; a = 13 / 10; b = 8 / 10
      in ls_breaks (total_cost m lambda_t) img update_term a b max_iter (step_size, cost_old, False))"

section \<open>The solver, class variant\<close>

text \<open>
  The local variables of \<^verbatim>\<open>TotalVariationReconNLCG.run\<close>. The local \<^verbatim>\<open>img\<close> is the
  array \<^verbatim>\<open>self.x\<close> itself, which \<^verbatim>\<open>util.axpy(img, ...)\<close> updates in place, so the
  object is part of the state. \<^verbatim>\<open>f2_old\<close> and \<^verbatim>\<open>f_old\<close> are unbound until
  iteration 0 assigns them; the passes of the loop end in one of three ways.
\<close>

record run_vars =
  rv_self :: nlcg
  rv_step_size :: real
  rv_f2_old :: complex
  rv_f_old :: image
  rv_fnorm :: "real list"
  rv_tnorm :: "real list"
  rv_cost :: "real list"

datatype signal = Next | Break | Raise error

text \<open>
  One pass through the body of \<^verbatim>\<open>for iter in range(self.max_iter)\<close>. The call
  \<^verbatim>\<open>xp.squeeze\<close> removes the axes of length 1 from the temporal gradient; the gradient
  exists only for two frames or more, and frames are taken to have at least two rows and
  two columns, so that \<^verbatim>\<open>xp.squeeze\<close> returns its argument. At iteration 0
  \<^verbatim>\<open>f_old\<close> is the array \<^verbatim>\<open>f_new\<close> itself, and \<^verbatim>\<open>util.axpy(f_new, beta, f_old)\<close>
  adds \<^verbatim>\<open>beta * f_new\<close> to it.
\<close>

definition NLCG_run_body :: "nat \<Rightarrow> run_vars \<Rightarrow> signal \<times> run_vars" where
  "NLCG_run_body iter v =
     (let self = rv_self v;
          img = self_x self;
          f_new = NLCG_update_fidelity self img
      in case NLCG_update_temporal_fd img of
           Inl e \<Rightarrow> (Raise e, v)
         | Inr ttv \<Rightarrow>
            let f_new = axpy f_new (complex_of_real (self_lambda_t self)) ttv;
                f2_new = vdot f_new f_new;
                f2_old = (if iter = 0 then f2_new else rv_f2_old v);
                f_old = (if iter = 0 then f_new else rv_f_old v);
                beta = f2_new / (f2_old + complex_of_real eps);
                f_new = axpy f_new beta f_old;
                f2_old = f2_new;
                f_old = f_new;
                fnorm_t = NLCG_calculate_fnorm self img;
                tnorm_t = NLCG_calculate_tnorm self img;
                cost_t = fnorm_t + tnorm_t;
                step_size = NLCG_line_search self img f_new cost_t (rv_step_size v) 15 (13 / 10) (8 / 10);
                img = axpy img (complex_of_real step_size) f_old;
                v = v\<lparr>rv_self := self\<lparr>self_x := img\<rparr>, rv_step_size := step_size,
                      rv_f2_old := f2_old, rv_f_old := f_old\<rparr>
            in if step_size < 2 / 1000 then (Break, v)
               else (Next, v\<lparr>rv_fnorm := rv_fnorm v @ [fnorm_t],
                              rv_tnorm := rv_tnorm v @ [tnorm_t],
                              rv_cost := rv_cost v @ [cost_t]\<rparr>))"

fun NLCG_run_loop :: "nat list \<Rightarrow> run_vars \<Rightarrow> signal \<times> run_vars" where
  "NLCG_run_loop [] v = (Next, v)"
| "NLCG_run_loop (iter # rest) v =
     (case NLCG_run_body iter v of
        (Next, v') \<Rightarrow> NLCG_run_loop rest v'
      | (sig, v') \<Rightarrow> (sig, v'))"

definition NLCG_run_start :: "nlcg \<Rightarrow> run_vars" where
  "NLCG_run_start self =
     \<lparr>rv_self = self, rv_step_size = self_init_step_size self, rv_f2_old = 0, rv_f_old = [],
      rv_fnorm = [], rv_tnorm = [], rv_cost = []\<rparr>"

text \<open>
  \<^verbatim>\<open>run\<close> returns \<^verbatim>\<open>(img, fnorm, tnorm, cost)\<close>, or raises; the object it leaves
  behind is the second component.
\<close>

definition NLCG_run :: "nlcg \<Rightarrow> (error + image \<times> real list \<times> real list \<times> real list) \<times> nlcg" where
  "NLCG_run self =
     (case NLCG_run_loop [0..<self_max_iter self] (NLCG_run_start self) of
        (Raise e, v) \<Rightarrow> (Inl e, rv_self v)
      | (_, v) \<Rightarrow> (Inr (self_x (rv_self v), rv_fnorm v, rv_tnorm v, rv_cost v), rv_self v))"

section \<open>The solver, function variant\<close>

text \<open>
  The local variables of \<^verbatim>\<open>TotalVariationRecon_NLCG\<close>. The three traces are arrays of
  \<^verbatim>\<open>max_iter\<close> zeros, written at index \<^verbatim>\<open>iter\<close>; what each pass reads back from them
  is the entry it has just written. \<^verbatim>\<open>update_old\<close> is unbound until iteration 0.
\<close>

record tv_vars =
  tv_img :: image
  tv_step_size :: real
  tv_update_old :: image
  tv_cost :: "real list"
  tv_fnorm :: "real list"
  tv_tnorm :: "real list"
  tv_iter :: "nat option"

definition TotalVariationRecon_NLCG_body :: "measurement \<Rightarrow> real \<Rightarrow> nat \<Rightarrow> tv_vars \<Rightarrow> signal \<times> tv_vars" where
  "TotalVariationRecon_NLCG_body m lambda_t iter v =
     (let v = v\<lparr>tv_iter := Some iter\<rparr>;
          img = tv_img v;
          (update_term, fnorm_t) = fidelity_update img m;
          v = v\<lparr>tv_fnorm := (tv_fnorm v)[iter := fnorm_t]\<rparr>
      in case temporal_tv_update img of
           Inl e \<Rightarrow> (Raise e, v)
         | Inr ttv \<Rightarrow>
            let update_term = axpy update_term (complex_of_real lambda_t) ttv;
                update_old = (if iter = 0 then update_term else tv_update_old v);
                beta = vdot update_term update_term / (vdot update_old update_old + complex_of_real eps);
                update_term = axpy update_term beta update_old;
                update_old = update_term;
                tnorm_t = calculate_tnorm img lambda_t;
                cost_t = fnorm_t + tnorm_t;
                step_size = line_search img update_term m (tv_step_size v) cost_t lambda_t;
                img = axpy img (complex_of_real step_size) update_old;
                v = v\<lparr>tv_img := img, tv_step_size := step_size, tv_update_old := update_old,
                      tv_tnorm := (tv_tnorm v)[iter := tnorm_t],
                      tv_cost := (tv_cost v)[iter := cost_t]\<rparr>
            in if step_size < 1 / 10000 then (Break, v) else (Next, v))"

fun TotalVariationRecon_NLCG_loop :: "measurement \<Rightarrow> real \<Rightarrow> nat list \<Rightarrow> tv_vars \<Rightarrow> signal \<times> tv_vars" where
  "TotalVariationRecon_NLCG_loop m lambda_t [] v = (Next, v)"
| "TotalVariationRecon_NLCG_loop m lambda_t (iter # rest) v =
     (case TotalVariationRecon_NLCG_body m lambda_t iter v of
        (Next, v') \<Rightarrow> TotalVariationRecon_NLCG_loop m lambda_t rest v'
      | (sig, v') \<Rightarrow> (sig, v'))"

text \<open>The initial image: the adjoint of the measurements, frame by frame; the step 2.\<close>

definition TotalVariationRecon_NLCG_start :: "measurement \<Rightarrow> nat \<Rightarrow> tv_vars" where
  "TotalVariationRecon_NLCG_start m max_iter =
     (let nframe = length (m_kdata m);
          img = map (\<lambda>iframe. m_adjoint m iframe (m_kdata m ! iframe)) [0..<nframe]
      in \<lparr>tv_img = img, tv_step_size = 2, tv_update_old = [],
          tv_cost = replicate max_iter 0, tv_fnorm = replicate max_iter 0,
          tv_tnorm = replicate max_iter 0, tv_iter = None\<rparr>)"

text \<open>
  The result is \<^verbatim>\<open>img, fnorm[0, 0:iter + 1], tnorm[0, 0:iter + 1], cost[0, 0:iter + 1]\<close>.
  With \<^verbatim>\<open>max_iter = 0\<close> the loop variable \<^verbatim>\<open>iter\<close> is never bound and the return
  statement raises.
\<close>

definition TotalVariationRecon_NLCG ::
  "measurement \<Rightarrow> real \<Rightarrow> nat \<Rightarrow> error + image \<times> real list \<times> real list \<times> real list" where
  "TotalVariationRecon_NLCG m lambda_t max_iter =
     (case TotalVariationRecon_NLCG_loop m lambda_t [0..<max_iter] (TotalVariationRecon_NLCG_start m max_iter) of
        (Raise e, v) \<Rightarrow> Inl e
      | (_, v) \<Rightarrow>
          (case tv_iter v of
             None \<Rightarrow> Inl UnboundLocalError
           | Some iter \<Rightarrow>
               Inr (tv_img v, take (iter + 1) (tv_fnorm v), take (iter + 1) (tv_tnorm v),
                    take (iter + 1) (tv_cost v))))"

section \<open>What the specification says\<close>

text \<open>
  The temporal gradient as the specification writes it, pixel by pixel and without the
  operations of the code: with \<open>d[k] = image[k+1] - image[k]\<close> and
  \<open>normalized_d[k] = d[k] / sqrt(|d[k]|\<^sup>2 + eps)\<close>, the first frame is
  \<open>normalized_d[0]\<close>, the last one is \<open>- normalized_d[F-2]\<close>, and frame \<open>k\<close> in between
  is \<open>normalized_d[k] - normalized_d[k-1]\<close>. \<open>spec_normalized b a\<close> is the normalised
  difference of the frames \<open>b\<close> and \<open>a\<close>; eps is the machine epsilon of a double,
  \<open>1 / 2 ^ 52\<close>.
\<close>

definition spec_normalized :: "frame \<Rightarrow> frame \<Rightarrow> frame" where
  "spec_normalized b a =
     map2 (\<lambda>u v. (u - v) / complex_of_real (sqrt ((cmod (u - v))\<^sup>2 + 1 / 2 ^ 52))) b a"

definition spec_normalized_d :: "image \<Rightarrow> nat \<Rightarrow> frame" where
  "spec_normalized_d img k = spec_normalized (img ! (k + 1)) (img ! k)"

definition spec_temporal_gradient :: "image \<Rightarrow> nat \<Rightarrow> frame" where
  "spec_temporal_gradient img k =
     (if k = 0 then spec_normalized_d img 0
      else if k = length img - 1 then map (\<lambda>z. - z) (spec_normalized_d img (length img - 2))
      else map2 (\<lambda>u v. u - v) (spec_normalized_d img k) (spec_normalized_d img (k - 1)))"


text \<open>
  The combined gradient: the fidelity gradient plus \<open>\<lambda>\<close> times the temporal gradient, as
  the first two statements of each loop body compute it.
\<close>

definition NLCG_gradient :: "nlcg \<Rightarrow> image \<Rightarrow> error + image" where
  "NLCG_gradient self img =
     (case NLCG_update_temporal_fd img of
        Inl e \<Rightarrow> Inl e
      | Inr ttv \<Rightarrow> Inr (axpy (NLCG_update_fidelity self img) (complex_of_real (self_lambda_t self)) ttv))"

definition combined_gradient :: "measurement \<Rightarrow> real \<Rightarrow> image \<Rightarrow> error + image" where
  "combined_gradient m lambda_t img =
     (case temporal_tv_update img of
        Inl e \<Rightarrow> Inl e
      | Inr ttv \<Rightarrow> Inr (axpy (fst (fidelity_update img m)) (complex_of_real lambda_t) ttv))"

text \<open>
  The conjugation formula applied to a gradient that is its own predecessor:
  \<open>g + \<beta> g\<close> with \<open>\<beta> = \<langle>g, g\<rangle> / (\<langle>g, g\<rangle> + eps)\<close>.
\<close>

definition first_direction :: "image \<Rightarrow> image" where
  "first_direction g = axpy g (vdot g g / (vdot g g + complex_of_real eps)) g"

text \<open>The cost trace of a result, empty for a run that raised.\<close>

definition returned_cost :: "error + image \<times> real list \<times> real list \<times> real list \<Rightarrow> real list" where
  "returned_cost r = (case r of Inl e \<Rightarrow> [] | Inr (img, fnorm, tnorm, cost) \<Rightarrow> cost)"

section \<open>Example inputs\<close>

text \<open>
  Frames of 2 \<times> 2 pixels, in row-major order: three frames, two equal frames, and the
  two equal frames all of whose pixels are \<open>u\<close>.
\<close>

definition ex_frames :: image where
  "ex_frames = [[0, 1, 2, 3], [3, 1, 2, 3], [3, 5, 2, 3]]"

definition ex_still :: image where
  "ex_still = [[1, 2, 3, 4], [1, 2, 3, 4]]"

definition still :: "complex \<Rightarrow> image" where
  "still u = [[u, u, u, u], [u, u, u, u]]"

text \<open>
  A solver whose operator multiplies every pixel by the real factor \<open>c\<close>, as does its
  adjoint, on two frames of 2 \<times> 2 pixels with all measurements 1, unit density weights
  and \<open>\<lambda> = 1\<close>; the same data for the function variant. The factor 4 with two
  iterations and the initial step 2 gives the first example.
\<close>

definition scale :: "complex \<Rightarrow> image \<Rightarrow> image" where
  "scale c a = map (map (\<lambda>z. c * z)) a"

definition scalar_solver :: "real \<Rightarrow> nat \<Rightarrow> real \<Rightarrow> nlcg" where
  "scalar_solver c max_iter step_size =
     NLCG_init (scale (complex_of_real c)) (scale (complex_of_real c)) (still 1)
       [[1, 1, 1, 1], [1, 1, 1, 1]] 1 max_iter step_size"

definition scalar_measurement :: "real \<Rightarrow> measurement" where
  "scalar_measurement c =
     \<lparr>m_kdata = still 1, m_forward = (\<lambda>iframe. map (\<lambda>z. complex_of_real c * z)),
      m_adjoint = (\<lambda>iframe. map (\<lambda>z. complex_of_real c * z))\<rparr>"

definition ex_solver :: nlcg where
  "ex_solver = scalar_solver 4 2 2"

definition ex_measurement :: measurement where
  "ex_measurement = scalar_measurement 4"

text \<open>
  The quantities of the first two iterations of that solver: the coefficient and the
  direction of iteration 0, the step its line search returns after 15 shrinkings, the
  pixel value and the residual after the update, and the same for iteration 1.
\<close>

definition ex_beta0 :: real where
  "ex_beta0 = 28800 / (28800 + eps)"

definition ex_dir0 :: real where
  "ex_dir0 = - 60 + ex_beta0 * (- 60)"

definition ex_step0 :: real where
  "ex_step0 = 2 * (8 / 10) ^ 15"

definition ex_x1 :: real where
  "ex_x1 = 4 + ex_step0 * ex_dir0"

definition ex_vars1 :: run_vars where
  "ex_vars1 =
     \<lparr>rv_self = ex_solver\<lparr>self_x := still (complex_of_real ex_x1)\<rparr>,
      rv_step_size = ex_step0, rv_f2_old = 28800,
      rv_f_old = still (complex_of_real ex_dir0),
      rv_fnorm = [225], rv_tnorm = [0], rv_cost = [225]\<rparr>"

definition ex_r1 :: real where
  "ex_r1 = 1 - 4 * ex_x1"

definition ex_beta1 :: real where
  "ex_beta1 = 8 * (4 * ex_r1)\<^sup>2 / (28800 + eps)"

definition ex_dir1 :: real where
  "ex_dir1 = 4 * ex_r1 + ex_beta1 * ex_dir0"

definition ex_step1 :: real where
  "ex_step1 = ex_step0 * (8 / 10) ^ 15"

definition ex_x2 :: real where
  "ex_x2 = ex_x1 + ex_step1 * ex_dir1"

definition ex_vars2 :: run_vars where
  "ex_vars2 =
     \<lparr>rv_self = ex_solver\<lparr>self_x := still (complex_of_real ex_x2)\<rparr>,
      rv_step_size = ex_step1, rv_f2_old = complex_of_real (8 * (4 * ex_r1)\<^sup>2),
      rv_f_old = still (complex_of_real ex_dir1),
      rv_fnorm = [225, ex_r1\<^sup>2], rv_tnorm = [0, 0], rv_cost = [225, ex_r1\<^sup>2]\<rparr>"

text \<open>
  Two more solvers of this kind: a gentle one (\<open>c = 1/2\<close>) whose first line search
  brackets a minimum, with the loop states after its first and second pass, and one
  that starts at the solution (\<open>c = 1\<close>) with the initial step 0.001.
\<close>

definition ex_gentle :: nlcg where
  "ex_gentle = scalar_solver (1 / 2) 2 2"

definition ex_gentle_vars1 :: run_vars where
  "ex_gentle_vars1 = snd (NLCG_run_body 0 (NLCG_run_start ex_gentle))"

definition ex_gentle_vars2 :: run_vars where
  "ex_gentle_vars2 = snd (NLCG_run_body 1 ex_gentle_vars1)"

definition ex_gentle_start :: tv_vars where
  "ex_gentle_start = TotalVariationRecon_NLCG_start (scalar_measurement (1 / 2)) 2"

definition ex_gentle_tv1 :: tv_vars where
  "ex_gentle_tv1 = snd (TotalVariationRecon_NLCG_body (scalar_measurement (1 / 2)) 1 0 ex_gentle_start)"

definition ex_gentle_tv2 :: tv_vars where
  "ex_gentle_tv2 = snd (TotalVariationRecon_NLCG_body (scalar_measurement (1 / 2)) 1 1 ex_gentle_tv1)"

definition ex_converged :: nlcg where
  "ex_converged = scalar_solver 1 3 (1 / 1000)"

definition ex_converged_vars :: run_vars where
  "ex_converged_vars = snd (NLCG_run_body 0 (NLCG_run_start ex_converged))"

text \<open>
  Two data sets for the function variant, each with its loop states from the initial
  one on: with the factor 5 and three iterations all candidates of every line search
  are worse and the third accepted step is below 0.0001; with the factor 4.5325 and
  five iterations the fourth accepted step is about 0.0012.
\<close>

definition ex_fast :: measurement where
  "ex_fast = scalar_measurement 5"

definition ex_fast_start :: tv_vars where
  "ex_fast_start = TotalVariationRecon_NLCG_start ex_fast 3"

definition ex_fast_tv1 :: tv_vars where
  "ex_fast_tv1 = snd (TotalVariationRecon_NLCG_body ex_fast 1 0 ex_fast_start)"

definition ex_fast_tv2 :: tv_vars where
  "ex_fast_tv2 = snd (TotalVariationRecon_NLCG_body ex_fast 1 1 ex_fast_tv1)"

definition ex_fast_tv3 :: tv_vars where
  "ex_fast_tv3 = snd (TotalVariationRecon_NLCG_body ex_fast 1 2 ex_fast_tv2)"

definition ex_slow :: measurement where
  "ex_slow = scalar_measurement (45325 / 10000)"

definition ex_slow_start :: tv_vars where
  "ex_slow_start = TotalVariationRecon_NLCG_start ex_slow 5"

definition ex_slow_tv1 :: tv_vars where
  "ex_slow_tv1 = snd (TotalVariationRecon_NLCG_body ex_slow 1 0 ex_slow_start)"

definition ex_slow_tv2 :: tv_vars where
  "ex_slow_tv2 = snd (TotalVariationRecon_NLCG_body ex_slow 1 1 ex_slow_tv1)"

definition ex_slow_tv3 :: tv_vars where
  "ex_slow_tv3 = snd (TotalVariationRecon_NLCG_body ex_slow 1 2 ex_slow_tv2)"

definition ex_slow_tv4 :: tv_vars where
  "ex_slow_tv4 = snd (TotalVariationRecon_NLCG_body ex_slow 1 3 ex_slow_tv3)"

section \<open>Properties of the temporal regulariser\<close>

lemma length_diff: "length (diff a) = length a - 1"
  by (simp add: diff_def)

lemma nth_diff: "Suc k < length a \<Longrightarrow> diff a ! k = fsub (a ! Suc k) (a ! k)"
  by (simp add: diff_def nth_tl nth_butlast)

lemma diff_as_map: "diff a = map (\<lambda>k. fsub (a ! (k + 1)) (a ! k)) [0..<length a - 1]"
  by (rule nth_equalityI) (simp_all add: length_diff nth_diff)

lemma length_normalized: "length (normalized t) = length t"
  by (simp add: normalized_def)

lemma spec_normalized_eq: "map smooth_sign (fsub b a) = spec_normalized b a"
  by (simp add: fsub_def spec_normalized_def smooth_sign_def eps_def case_prod_unfold)

lemma spec_frames:
  "fneg f = map (\<lambda>z. - z) f" "fsub f h = map2 (\<lambda>u v. u - v) f h"
  by (simp_all add: fneg_def fsub_def)

lemma nth_normalized_diff:
  "Suc k < length img \<Longrightarrow> normalized (diff img) ! k = spec_normalized_d img k"
  by (simp add: normalized_def spec_normalized_d_def length_diff nth_diff spec_normalized_eq)

lemma at_least_two_frames:
  assumes "2 \<le> length (img :: 'a list)"
  obtains n where "length img = Suc (Suc n)"
  using assms by (cases img; cases "tl img") auto

text \<open>The three assignments into \<^verbatim>\<open>ttv_update\<close> put together.\<close>

lemma ttv_assemble:
  assumes "length z = Suc (Suc n)" and "length ta = Suc n" and "length tb = n"
  shows "(take 1 (z[0 := ta ! 0]) @ tb @ drop (length (z[0 := ta ! 0]) - 1) (z[0 := ta ! 0]))
           [length (take 1 (z[0 := ta ! 0]) @ tb @ drop (length (z[0 := ta ! 0]) - 1) (z[0 := ta ! 0])) - 1 := w]
         = ta ! 0 # tb @ [w]"
proof -
  obtain z0 z1 where z: "z = z0 # z1"
    using assms(1) by (cases z) auto
  have l1: "length z1 = Suc n"
    using assms(1) z by simp
  then obtain zs zl where z1: "z1 = zs @ [zl]" and "length zs = n"
    by (metis append_butlast_last_id length_butlast diff_Suc_1 length_0_conv nat.distinct(1))
  then show ?thesis
    using assms z by (simp add: list_update_append)
qed

lemma temporal_fd_frames:
  assumes "2 \<le> length img"
  shows "NLCG_update_temporal_fd img = Inr (map (spec_temporal_gradient img) [0..<length img])"
proof -
  obtain n where n: "length img = Suc (Suc n)"
    using assms by (rule at_least_two_frames)
  let ?ta = "normalized (diff img)"
  let ?g = "?ta ! 0 # diff ?ta @ [fneg (last ?ta)]"
  have lta: "length ?ta = Suc n"
    by (simp add: length_normalized length_diff n)
  have ne: "?ta \<noteq> []"
    using lta by auto
  have ltb: "length (diff ?ta) = n"
    by (simp add: length_diff lta)
  have lz: "length (zeros img) = Suc (Suc n)"
    by (simp add: zeros_def n)
  have run: "NLCG_update_temporal_fd img = Inr ?g"
    using ne ttv_assemble [OF lz lta ltb] by (simp add: NLCG_update_temporal_fd_def Let_def)
  have "?g = map (spec_temporal_gradient img) [0..<length img]"
  proof (rule nth_equalityI)
    show "length ?g = length (map (spec_temporal_gradient img) [0..<length img])"
      by (simp add: ltb n)
  next
    fix i
    assume "i < length ?g"
    then have i: "i < Suc (Suc n)"
      by (simp add: ltb)
    then have rhs: "map (spec_temporal_gradient img) [0..<length img] ! i = spec_temporal_gradient img i"
      using n by (simp del: upt_Suc)
    consider "i = 0" | "i = Suc n" | j where "i = Suc j" and "j < n"
      using i by (cases i) (auto simp: less_Suc_eq)
    then have "?g ! i = spec_temporal_gradient img i"
    proof cases
      case 1
      then show ?thesis
        by (simp add: n spec_temporal_gradient_def nth_normalized_diff)
    next
      case 2
      have "last ?ta = ?ta ! n"
        using lta ne by (simp add: last_conv_nth)
      then show ?thesis
        using 2
        by (simp add: n spec_temporal_gradient_def nth_normalized_diff nth_append ltb spec_frames)
    next
      case 3
      then show ?thesis
        by (simp add: n spec_temporal_gradient_def nth_normalized_diff nth_append ltb nth_diff lta
            spec_frames)
    qed
    then show "?g ! i = map (spec_temporal_gradient img) [0..<length img] ! i"
      using rhs by simp
  qed
  then show ?thesis
    using run by simp
qed

lemma temporal_tv_update_eq: "temporal_tv_update img = NLCG_update_temporal_fd img"
  by (simp add: temporal_tv_update_def NLCG_update_temporal_fd_def Let_def)

lemma sum_list_concat_map: "sum_list (concat (map g xs)) = (\<Sum>x\<leftarrow>xs. sum_list (g x))"
  by (induction xs) simp_all

lemma sum_cmod_diff:
  "sum_list (concat (map (map cmod) (diff img)))
     = (\<Sum>k\<leftarrow>[0..<length img - 1]. \<Sum>z\<leftarrow>fsub (img ! (k + 1)) (img ! k). cmod z)"
proof -
  have "map (map cmod) (diff img)
          = map (\<lambda>k. map cmod (fsub (img ! (k + 1)) (img ! k))) [0..<length img - 1]"
    by (subst diff_as_map) (simp add: comp_def)
  then show ?thesis
    by (simp only: sum_list_concat_map)
qed

lemma smooth_sign_0: "smooth_sign 0 = 0"
  by (simp add: smooth_sign_def)

lemma fsub_self: "fsub f f = map (\<lambda>_. 0) f"
  by (induction f) (simp_all add: fsub_def)

text \<open>
  Claim C2. For an image of at least two frames, both implementations of the temporal
  gradient return the frames the specification lists: \<open>normalized_d[0]\<close> first,
  \<open>normalized_d[k] - normalized_d[k-1]\<close> in between and \<open>- normalized_d[F-2]\<close> last.
  For three frames \<open>[A, B, C]\<close> the first frame is computed from \<open>B - A\<close> alone, the
  last from \<open>C - B\<close> alone, the middle from both.
\<close>

theorem temporal_gradient_frames:
  assumes "2 \<le> length img"
  shows "NLCG_update_temporal_fd img = Inr (map (spec_temporal_gradient img) [0..<length img])
       \<and> temporal_tv_update img = Inr (map (spec_temporal_gradient img) [0..<length img])
       \<and> NLCG_update_temporal_fd [A, B, C]
           = Inr [spec_normalized B A,
                  map2 (\<lambda>u v. u - v) (spec_normalized C B) (spec_normalized B A),
                  map (\<lambda>z. - z) (spec_normalized C B)]
       \<and> temporal_tv_update [A, B, C]
           = Inr [spec_normalized B A,
                  map2 (\<lambda>u v. u - v) (spec_normalized C B) (spec_normalized B A),
                  map (\<lambda>z. - z) (spec_normalized C B)]"
proof -
  have three: "NLCG_update_temporal_fd [A, B, C]
           = Inr [spec_normalized B A,
                  map2 (\<lambda>u v. u - v) (spec_normalized C B) (spec_normalized B A),
                  map (\<lambda>z. - z) (spec_normalized C B)]"
    using temporal_fd_frames [of "[A, B, C]"]
    by (simp add: spec_temporal_gradient_def spec_normalized_d_def upt_rec)
  show ?thesis
    using assms three by (simp add: temporal_fd_frames temporal_tv_update_eq)
qed

theorem temporal_gradient_frames_witness:
  "2 \<le> length ex_frames
   \<and> NLCG_update_temporal_fd ex_frames
       = Inr [[3 / complex_of_real (sqrt (9 + 1 / 2 ^ 52)), 0, 0, 0],
              [- (3 / complex_of_real (sqrt (9 + 1 / 2 ^ 52))),
               4 / complex_of_real (sqrt (16 + 1 / 2 ^ 52)), 0, 0],
              [0, - (4 / complex_of_real (sqrt (16 + 1 / 2 ^ 52))), 0, 0]]
   \<and> temporal_tv_update ex_frames
       = Inr [[3 / complex_of_real (sqrt (9 + 1 / 2 ^ 52)), 0, 0, 0],
              [- (3 / complex_of_real (sqrt (9 + 1 / 2 ^ 52))),
               4 / complex_of_real (sqrt (16 + 1 / 2 ^ 52)), 0, 0],
              [0, - (4 / complex_of_real (sqrt (16 + 1 / 2 ^ 52))), 0, 0]]"
proof -
  have l: "2 \<le> length ex_frames"
    by (simp add: ex_frames_def)
  define n3 where "n3 = 3 / complex_of_real (sqrt (9 + 1 / 2 ^ 52))"
  define n4 where "n4 = 4 / complex_of_real (sqrt (16 + 1 / 2 ^ 52))"
  have n: "spec_normalized [3, 1, 2, 3] [0, 1, 2, 3] = [n3, 0, 0, 0]"
    "spec_normalized [3, 5, 2, 3] [3, 1, 2, 3] = [0, n4, 0, 0]"
    by (simp_all add: spec_normalized_def n3_def n4_def)
  have "NLCG_update_temporal_fd [[0, 1, 2, 3], [3, 1, 2, 3], [3, 5, 2, 3]]
          = Inr [[n3, 0, 0, 0], [- n3, n4, 0, 0], [0, - n4, 0, 0]]
      \<and> temporal_tv_update [[0, 1, 2, 3], [3, 1, 2, 3], [3, 5, 2, 3]]
          = Inr [[n3, 0, 0, 0], [- n3, n4, 0, 0], [0, - n4, 0, 0]]"
    using temporal_gradient_frames [OF l, of "[0, 1, 2, 3]" "[3, 1, 2, 3]" "[3, 5, 2, 3]"]
    by (simp add: n)
  then show ?thesis
    using l by (simp add: ex_frames_def n3_def n4_def)
qed


text \<open>
  Claim C7. When all frames of an image of at least two frames are equal, the temporal
  gradient is the array of zeros and the temporal cost is 0.
\<close>

theorem constant_in_time:
  assumes "2 \<le> length img" and "\<forall>k<length img. img ! k = img ! 0"
  shows "NLCG_update_temporal_fd img = Inr (zeros img) \<and> NLCG_calculate_tnorm self img = 0"
proof -
  let ?z = "map (\<lambda>_. 0::complex) (img ! 0)"
  have d: "fsub (img ! Suc k) (img ! k) = ?z" if "Suc k < length img" for k
    using that assms(2) by (simp add: fsub_self)
  have nd: "spec_normalized_d img k = ?z" if "Suc k < length img" for k
    using that spec_normalized_eq [of "img ! Suc k" "img ! k"]
    by (simp add: spec_normalized_d_def d smooth_sign_0 comp_def)
  have zz: "fsub ?z ?z = ?z" "fneg ?z = ?z"
    by (simp_all add: fsub_def fneg_def comp_def map2_map_map)
  obtain n where n: "length img = Suc (Suc n)"
    using assms(1) by (rule at_least_two_frames)
  have g: "spec_temporal_gradient img k = ?z" if "k < length img" for k
    using that n by (auto simp: spec_temporal_gradient_def nd zz spec_frames [symmetric])
  have "map (spec_temporal_gradient img) [0..<length img] = zeros img"
    using assms(2) by (intro nth_equalityI) (simp_all add: zeros_def g del: upt_Suc)
  then have grad: "NLCG_update_temporal_fd img = Inr (zeros img)"
    using temporal_fd_frames [OF assms(1)] by simp
  have "(\<Sum>k\<leftarrow>[0..<length img - 1]. \<Sum>z\<leftarrow>fsub (img ! (k + 1)) (img ! k). cmod z)
          = (\<Sum>k\<leftarrow>[0..<length img - 1]. 0)"
    by (rule arg_cong [where f = sum_list], rule map_cong) (simp_all add: d comp_def del: upt_Suc)
  then have "NLCG_calculate_tnorm self img = 0"
    by (simp add: NLCG_calculate_tnorm_def Let_def sum_cmod_diff)
  then show ?thesis
    using grad by simp
qed

theorem constant_in_time_witness:
  "2 \<le> length ex_still \<and> ex_still ! 1 = ex_still ! 0
   \<and> NLCG_update_temporal_fd ex_still = Inr [[0, 0, 0, 0], [0, 0, 0, 0]]
   \<and> NLCG_calculate_tnorm ex_solver ex_still = 0"
proof -
  have h: "\<forall>k<length ex_still. ex_still ! k = ex_still ! 0"
    by (simp add: ex_still_def less_Suc_eq)
  have l: "2 \<le> length ex_still"
    by (simp add: ex_still_def)
  show ?thesis
    using constant_in_time [OF l h, of ex_solver] l by (simp add: ex_still_def zeros_def)
qed

section \<open>The scalar examples\<close>

lemma vdot_self: "vdot a a = complex_of_real (\<Sum>z\<leftarrow>concat a. (cmod z)\<^sup>2)"
proof -
  have "sum_list (map2 (\<lambda>u v. cnj u * v) xs xs) = complex_of_real (\<Sum>z\<leftarrow>xs. (cmod z)\<^sup>2)" for xs
  proof (induction xs)
    case Nil
    then show ?case by simp
  next
    case (Cons z xs)
    have "cnj z * z = complex_of_real ((cmod z)\<^sup>2)"
      by (simp only: complex_norm_square mult.commute [of "cnj z" z])
    then show ?case
      using Cons by (simp del: of_real_power)
  qed
  then show ?thesis
    by (simp add: vdot_def)
qed

lemma still_length: "length (still u) = 2"
  by (simp add: still_def)

lemma still_inject: "still u = still v \<longleftrightarrow> u = v"
  by (simp add: still_def)

lemma still_axpy: "axpy (still t) a (still e) = still (t + a * e)"
  by (simp add: still_def axpy_def)

lemma still_vdot: "vdot (still u) (still u) = complex_of_real (8 * (cmod u)\<^sup>2)"
  by (simp add: vdot_self still_def)

lemma still_vdot_real:
  "vdot (still (complex_of_real g)) (still (complex_of_real g)) = complex_of_real (8 * g\<^sup>2)"
  by (simp only: still_vdot norm_of_real power2_abs)

lemma temporal_still:
  "NLCG_update_temporal_fd (still u) = Inr (still 0)"
  "temporal_tv_update (still u) = Inr (still 0)"
  by (simp_all add: still_def temporal_tv_update_eq NLCG_update_temporal_fd_def diff_def fsub_def
      normalized_def smooth_sign_0 zeros_def fneg_def)

lemma still_tnorm:
  "NLCG_calculate_tnorm self (still u) = 0"
  "calculate_tnorm (still u) lambda_t = 0"
  by (simp_all add: still_def NLCG_calculate_tnorm_def calculate_tnorm_def diff_def fsub_def)

lemma scalar_solver_fields:
  "self_A (scalar_solver c n s) = scale (complex_of_real c)"
  "self_AH (scalar_solver c n s) = scale (complex_of_real c)"
  "self_y (scalar_solver c n s) = still 1"
  "self_x (scalar_solver c n s) = still (complex_of_real c)"
  "self_lambda_t (scalar_solver c n s) = 1" "self_max_iter (scalar_solver c n s) = n"
  "self_init_step_size (scalar_solver c n s) = s"
  by (simp_all add: scalar_solver_def NLCG_init_def weighted_def scale_def still_def)

lemma scale_still: "scale c (still u) = still (c * u)"
  by (simp add: scale_def still_def)

lemma asub_still: "asub (still u) (still v) = still (u - v)"
  by (simp add: asub_def fsub_def still_def)

lemma still_size: "img_size (still u) = 8"
  by (simp add: img_size_def still_def)

lemma scalar_fidelity:
  "NLCG_update_fidelity (scalar_solver c n s) (still u)
     = still (complex_of_real c * (1 - complex_of_real c * u))"
  by (simp add: NLCG_update_fidelity_def scalar_solver_fields scale_still asub_still)

lemma scalar_fnorm:
  "NLCG_calculate_fnorm (scalar_solver c n s) (still u) = (cmod (1 - complex_of_real c * u))\<^sup>2"
  by (simp add: NLCG_calculate_fnorm_def scalar_solver_fields scale_still asub_still still_vdot
      still_size)

lemma scalar_total_cost:
  "NLCG_total_cost (scalar_solver c n s) (still u) = (cmod (1 - complex_of_real c * u))\<^sup>2"
  by (simp add: NLCG_total_cost_def scalar_fnorm still_tnorm)

lemma scalar_fidelity_update:
  "fidelity_update (still u) (scalar_measurement c)
     = (still (complex_of_real c * (1 - complex_of_real c * u)),
        (cmod (1 - complex_of_real c * u))\<^sup>2)"
proof -
  let ?r = "1 - complex_of_real c * u"
  have v: "vdot [[?r, ?r, ?r, ?r]] [[?r, ?r, ?r, ?r]] = 4 * complex_of_real ((cmod ?r)\<^sup>2)"
    by (simp add: vdot_self del: of_real_power)
  have "4 * complex_of_real ((cmod ?r)\<^sup>2) + 4 * complex_of_real ((cmod ?r)\<^sup>2)
          = complex_of_real (8 * (cmod ?r)\<^sup>2)"
    by simp
  then have ff: "fidelity_frames (scalar_measurement c) (still u) [0, 1] (zeros (still u), 0)
          = (still (complex_of_real c * ?r), complex_of_real (8 * (cmod ?r)\<^sup>2))"
    by (simp add: scalar_measurement_def still_def fsub_def zeros_def v
        del: of_real_power of_real_mult)
  have idx: "[0..<length (still u)] = [0, 1]"
    by (simp add: still_length upt_rec)
  have "cmod (complex_of_real (8 * (cmod ?r)\<^sup>2)) = 8 * (cmod ?r)\<^sup>2"
    by (simp only: norm_of_real) simp
  then show ?thesis
    unfolding fidelity_update_def Let_def idx ff
    by (simp add: still_size del: of_real_power of_real_mult)
qed

lemma scalar_total_cost_fn:
  "total_cost (scalar_measurement c) lambda_t (still u) = (cmod (1 - complex_of_real c * u))\<^sup>2"
  by (simp add: total_cost_def scalar_fidelity_update still_tnorm)

lemma cmod_affine: "cmod (1 - complex_of_real c * complex_of_real t) = \<bar>1 - c * t\<bar>"
proof -
  have "1 - complex_of_real c * complex_of_real t = complex_of_real (1 - c * t)"
    by simp
  then show ?thesis
    by (simp only: norm_of_real)
qed

lemma scalar_cost_real:
  "NLCG_total_cost (scalar_solver c n s) (still (complex_of_real t)) = (1 - c * t)\<^sup>2"
  "NLCG_calculate_fnorm (scalar_solver c n s) (still (complex_of_real t)) = (1 - c * t)\<^sup>2"
  "total_cost (scalar_measurement c) lambda_t (still (complex_of_real t)) = (1 - c * t)\<^sup>2"
  by (simp_all only: scalar_total_cost scalar_fnorm scalar_total_cost_fn cmod_affine power2_abs)

lemma scalar_fidelity_real:
  "NLCG_update_fidelity (scalar_solver c n s) (still (complex_of_real t))
     = still (complex_of_real (c * (1 - c * t)))"
  "fst (fidelity_update (still (complex_of_real t)) (scalar_measurement c))
     = still (complex_of_real (c * (1 - c * t)))"
  by (simp_all add: scalar_fidelity scalar_fidelity_update)

lemma scalar_start:
  "tv_img (TotalVariationRecon_NLCG_start (scalar_measurement c) n) = still (complex_of_real c)"
  "tv_step_size (TotalVariationRecon_NLCG_start (scalar_measurement c) n) = 2"
  "length (tv_cost (TotalVariationRecon_NLCG_start (scalar_measurement c) n)) = n"
proof -
  have "[0..<length (m_kdata (scalar_measurement c))] = [0, 1]"
    by (simp add: scalar_measurement_def still_length upt_rec)
  then show "tv_img (TotalVariationRecon_NLCG_start (scalar_measurement c) n)
               = still (complex_of_real c)"
    unfolding TotalVariationRecon_NLCG_start_def Let_def
    by (simp add: scalar_measurement_def still_def)
  show "tv_step_size (TotalVariationRecon_NLCG_start (scalar_measurement c) n) = 2"
    "length (tv_cost (TotalVariationRecon_NLCG_start (scalar_measurement c) n)) = n"
    by (simp_all add: TotalVariationRecon_NLCG_start_def Let_def)
qed

text \<open>The solver with the factor 4.\<close>

lemma ex_solver_fields:
  "self_A ex_solver = scale 4" "self_AH ex_solver = scale 4" "self_y ex_solver = still 1"
  "self_x ex_solver = still 4" "self_lambda_t ex_solver = 1" "self_max_iter ex_solver = 2"
  "self_init_step_size ex_solver = 2"
  using scalar_solver_fields [of 4 2 2] by (simp_all add: ex_solver_def)

lemma ex_NLCG_total_cost: "NLCG_total_cost ex_solver (still u) = (cmod (1 - 4 * u))\<^sup>2"
  using scalar_total_cost [of 4 2 2 u] by (simp add: ex_solver_def)

lemma ex_total_cost: "total_cost ex_measurement 1 (still u) = (cmod (1 - 4 * u))\<^sup>2"
  using scalar_total_cost_fn [of 4 1 u] by (simp add: ex_measurement_def)

lemma ex_axpy:
  "axpy (still (complex_of_real t)) (complex_of_real s) (still (complex_of_real e))
     = still (complex_of_real (t + s * e))"
  by (simp add: still_axpy)

lemma ex_cost_real: "NLCG_total_cost ex_solver (still (complex_of_real t)) = (1 - 4 * t)\<^sup>2"
  using scalar_cost_real(1) [of 4 2 2 t] by (simp add: ex_solver_def)

lemma ex_fidelity: "NLCG_update_fidelity ex_solver (still u) = still (4 * (1 - 4 * u))"
  using scalar_fidelity [of 4 2 2 u] by (simp add: ex_solver_def)

lemma ex_fidelity_update:
  "fidelity_update (still u) ex_measurement = (still (4 * (1 - 4 * u)), (cmod (1 - 4 * u))\<^sup>2)"
  using scalar_fidelity_update [of u 4] by (simp add: ex_measurement_def)

lemma ex_tnorm: "NLCG_calculate_tnorm ex_solver (still u) = 0"
  by (rule still_tnorm)

lemma ex_fnorm: "NLCG_calculate_fnorm ex_solver (still (complex_of_real t)) = (1 - 4 * t)\<^sup>2"
  using scalar_cost_real(2) [of 4 2 2 t] by (simp add: ex_solver_def)

section \<open>Properties of the line search\<close>

lemma ls_compare_cases:
  "ls_compare a b cost_new (step_size, cost_old, flag) = (brk, v') \<Longrightarrow>
     fst v' = step_size * b \<or> fst v' = step_size * a \<or> fst v' = step_size / a \<or> fst v' = step_size"
  by (auto simp: ls_compare_def split: if_splits)

lemma ls_compare_equal: "ls_compare a b cost_old (step_size, cost_old, flag) = (False, step_size, cost_old, flag)"
  by (simp add: ls_compare_def)

lemma ls_loop_last: "ls_loop c img d a b n v = last (fst v # ls_steps c img d a b n v)"
  by (induction n arbitrary: v) (simp_all add: Let_def split: prod.splits)

lemma length_ls_steps: "length (ls_steps c img d a b n v) \<le> n"
  by (induction n arbitrary: v) (simp_all add: Let_def split: prod.splits)

lemma ls_loop_positive:
  assumes "0 < a" and "0 < b"
  shows "0 < fst v \<Longrightarrow> 0 < ls_loop c img d a b n v"
proof (induction n arbitrary: v)
  case 0
  then show ?case by simp
next
  case (Suc n)
  obtain step_size cost_old flag where v: "v = (step_size, cost_old, flag)"
    by (cases v) auto
  obtain brk v' where cmp: "ls_compare a b (c (axpy img (complex_of_real step_size) d)) v = (brk, v')"
    by (cases "ls_compare a b (c (axpy img (complex_of_real step_size) d)) v") auto
  have "0 < fst v'"
    using ls_compare_cases [OF cmp [unfolded v]] Suc.prems assms v by auto
  then show ?case
    using Suc.IH [of v'] cmp v by (simp add: Let_def)
qed

lemma ls_steps_equal:
  assumes "c (axpy img (complex_of_real step_size) d) = cost_old"
  shows "ls_steps c img d a b n (step_size, cost_old, flag) = replicate n step_size"
  using assms by (induction n) (simp_all add: ls_compare_equal)

text \<open>
  Claim C5. Whatever the image, the direction, the reference cost and the step, the
  line search executes at most 15 sub-iterations and returns the value \<^verbatim>\<open>step_size\<close>
  had after the last one it executed (the step it was given, if it executed none).
\<close>

theorem line_search_bounded:
  "length (NLCG_line_search_steps self img f_new cost_old step_size 15 (13 / 10) (8 / 10)) \<le> 15
   \<and> NLCG_line_search self img f_new cost_old step_size 15 (13 / 10) (8 / 10)
       = last (step_size # NLCG_line_search_steps self img f_new cost_old step_size 15 (13 / 10) (8 / 10))
   \<and> length (line_search_steps img f_new m step_size cost_old lambda_t) \<le> 15
   \<and> line_search img f_new m step_size cost_old lambda_t
       = last (step_size # line_search_steps img f_new m step_size cost_old lambda_t)"
  using ls_loop_last [of _ img f_new _ _ 15 "(step_size, cost_old, False)"]
  by (simp add: NLCG_line_search_steps_def NLCG_line_search_def line_search_steps_def
      line_search_def length_ls_steps)

text \<open>
  Claim C9. Given a positive step, both line searches return a positive step.
\<close>

theorem line_search_positive:
  assumes "0 < step_size"
  shows "0 < NLCG_line_search self img f_new cost_old step_size 15 (13 / 10) (8 / 10)
       \<and> 0 < line_search img f_new m step_size cost_old lambda_t"
  using assms by (simp add: NLCG_line_search_def line_search_def ls_loop_positive)

theorem line_search_positive_witness:
  "(0::real) < 2
   \<and> 0 < NLCG_line_search ex_solver ex_still ex_still 3 2 15 (13 / 10) (8 / 10)
   \<and> 0 < line_search ex_still ex_still ex_measurement 2 3 1"
  using line_search_positive [of 2 ex_solver ex_still ex_still 3 ex_measurement 1]
  by simp

text \<open>
  Claim C10. When the candidate cost equals the reference cost, no branch of the
  comparison fires: the step, the reference cost and the flag stay as they are and the
  loop goes on. So when the cost at the first candidate equals the reference cost,
  every candidate is that one, the search runs all 15 sub-iterations and returns the
  step it was given.
\<close>

theorem line_search_equal_cost:
  "ls_compare a b cost_old (step_size, cost_old, flag) = (False, step_size, cost_old, flag)
   \<and> (NLCG_total_cost self (axpy img (complex_of_real step_size) f_new) = cost_old \<longrightarrow>
        NLCG_line_search_steps self img f_new cost_old step_size 15 (13 / 10) (8 / 10)
          = replicate 15 step_size
        \<and> NLCG_line_search self img f_new cost_old step_size 15 (13 / 10) (8 / 10) = step_size)
   \<and> (total_cost m lambda_t (axpy img (complex_of_real step_size) f_new) = cost_old \<longrightarrow>
        line_search_steps img f_new m step_size cost_old lambda_t = replicate 15 step_size
        \<and> line_search img f_new m step_size cost_old lambda_t = step_size)"
  by (simp add: ls_compare_equal NLCG_line_search_steps_def NLCG_line_search_def
      line_search_steps_def line_search_def ls_loop_last ls_steps_equal)

theorem line_search_equal_cost_witness:
  "NLCG_total_cost ex_solver (axpy (still 4) (complex_of_real 2) (still 0)) = 225
   \<and> NLCG_line_search_steps ex_solver (still 4) (still 0) 225 2 15 (13 / 10) (8 / 10)
       = replicate 15 2
   \<and> NLCG_line_search ex_solver (still 4) (still 0) 225 2 15 (13 / 10) (8 / 10) = 2
   \<and> total_cost ex_measurement 1 (axpy (still 4) (complex_of_real 2) (still 0)) = 225
   \<and> line_search_steps (still 4) (still 0) ex_measurement 2 225 1 = replicate 15 2
   \<and> line_search (still 4) (still 0) ex_measurement 2 225 1 = 2"
proof -
  have c1: "NLCG_total_cost ex_solver (axpy (still 4) (complex_of_real 2) (still 0)) = 225"
    by (simp add: still_axpy ex_NLCG_total_cost)
  have c2: "total_cost ex_measurement 1 (axpy (still 4) (complex_of_real 2) (still 0)) = 225"
    by (simp add: still_axpy ex_total_cost)
  show ?thesis
    using line_search_equal_cost [of _ _ 225 2 _ ex_solver "still 4" "still 0" ex_measurement 1]
      c1 c2
    by blast
qed

lemma ls_loop_all_worse:
  assumes "\<And>i. i < n \<Longrightarrow> cost_old < c (axpy img (complex_of_real (s * b ^ i)) d)"
  shows "ls_loop c img d a b n (s, cost_old, False) = s * b ^ n"
  using assms
proof (induction n arbitrary: s)
  case 0
  then show ?case by simp
next
  case (Suc n)
  have "cost_old < c (axpy img (complex_of_real s) d)"
    using Suc.prems [of 0] by simp
  then have cmp: "ls_compare a b (c (axpy img (complex_of_real s) d)) (s, cost_old, False)
                   = (False, s * b, cost_old, False)"
    by (simp add: ls_compare_def)
  have "ls_loop c img d a b n (s * b, cost_old, False) = s * b * b ^ n"
  proof (rule Suc.IH)
    fix i
    assume "i < n"
    then show "cost_old < c (axpy img (complex_of_real (s * b * b ^ i)) d)"
      using Suc.prems [of "Suc i"] by (simp add: mult.assoc)
  qed
  then show ?case
    using cmp by (simp add: mult.assoc)
qed

lemma ls_loop_equal:
  assumes "c (axpy img (complex_of_real step_size) d) = cost_old"
  shows "ls_loop c img d a b n (step_size, cost_old, flag) = step_size"
  using assms by (simp add: ls_loop_last ls_steps_equal)

lemma ls_loop_bracket:
  assumes "c (axpy img (complex_of_real s) d) < c0"
    and "c (axpy img (complex_of_real s) d) < c (axpy img (complex_of_real (s * a)) d)"
  shows "ls_loop c img d a b (Suc (Suc n)) (s, c0, False) = s * a / a"
    and "ls_breaks c img d a b (Suc (Suc n)) (s, c0, False)"
  using assms by (simp_all add: ls_compare_def)

lemma ls_breaks_improves:
  assumes "a \<noteq> 0"
  shows "cost_ref \<le> c0 \<Longrightarrow>
         (flag \<longrightarrow> c (axpy img (complex_of_real (step / a)) d) = cost_ref \<and> cost_ref < c0) \<Longrightarrow>
         ls_breaks c img d a b n (step, cost_ref, flag) \<Longrightarrow>
         c (axpy img (complex_of_real (ls_loop c img d a b n (step, cost_ref, flag))) d) < c0"
proof (induction n arbitrary: step cost_ref flag)
  case 0
  then show ?case by simp
next
  case (Suc n)
  let ?cn = "c (axpy img (complex_of_real step) d)"
  consider (shrink) "cost_ref < ?cn" "\<not> flag"
    | (grow) "?cn < cost_ref"
    | (bracket) "cost_ref < ?cn" "flag"
    | (same) "?cn = cost_ref"
    by fastforce
  then show ?case
  proof cases
    case shrink
    then have cmp: "ls_compare a b ?cn (step, cost_ref, flag) = (False, step * b, cost_ref, False)"
      by (simp add: ls_compare_def)
    show ?thesis
      using Suc.IH [of cost_ref False "step * b"] Suc.prems cmp by simp
  next
    case grow
    then have cmp: "ls_compare a b ?cn (step, cost_ref, flag) = (False, step * a, ?cn, True)"
      by (simp add: ls_compare_def)
    have "step * a / a = step"
      using assms by simp
    then show ?thesis
      using Suc.IH [of ?cn True "step * a"] Suc.prems grow cmp by simp
  next
    case bracket
    then have cmp: "ls_compare a b ?cn (step, cost_ref, flag) = (True, step / a, cost_ref, flag)"
      by (simp add: ls_compare_def)
    show ?thesis
      using Suc.prems bracket cmp by simp
  next
    case same
    then have cmp: "ls_compare a b ?cn (step, cost_ref, flag) = (False, step, cost_ref, flag)"
      by (simp add: ls_compare_def)
    show ?thesis
      using Suc.IH [of cost_ref flag step] Suc.prems cmp by simp
  qed
qed

lemma ls_loop_lower_bound:
  assumes "1 \<le> a" and "0 < b" and "b \<le> 1"
  shows "0 < step \<Longrightarrow>
         (if flag then step / a else step * b ^ n) \<le> ls_loop c img d a b n (step, cost_ref, flag)"
proof (induction n arbitrary: step cost_ref flag)
  case 0
  then show ?case
    using assms by (simp add: field_simps)
next
  case (Suc n)
  let ?cn = "c (axpy img (complex_of_real step) d)"
  have bn: "0 < b ^ n" "b ^ n \<le> 1" "b * b ^ n \<le> b ^ n"
    using assms by (simp_all add: power_le_one mult_left_le_one_le)
  have sa: "step / a \<le> step"
    using assms Suc.prems by (simp add: field_simps)
  have sb: "step * (b * b ^ n) \<le> step"
    using assms Suc.prems bn by (simp add: mult_le_one mult_left_le)
  consider (shrink) "cost_ref < ?cn" "\<not> flag"
    | (grow) "?cn < cost_ref"
    | (bracket) "cost_ref < ?cn" "flag"
    | (same) "?cn = cost_ref"
    by fastforce
  then show ?case
  proof cases
    case shrink
    then have cmp: "ls_compare a b ?cn (step, cost_ref, flag) = (False, step * b, cost_ref, False)"
      by (simp add: ls_compare_def)
    have "0 < step * b"
      using assms Suc.prems by simp
    then show ?thesis
      using Suc.IH [of "step * b" False cost_ref] shrink cmp by (simp add: mult.assoc)
  next
    case grow
    then have cmp: "ls_compare a b ?cn (step, cost_ref, flag) = (False, step * a, ?cn, True)"
      by (simp add: ls_compare_def)
    have "0 < step * a" "step * a / a = step"
      using assms Suc.prems by simp_all
    then have "step \<le> ls_loop c img d a b n (step * a, ?cn, True)"
      using Suc.IH [of "step * a" True ?cn] by simp
    then show ?thesis
      using cmp sa sb by (simp split: if_splits)
  next
    case bracket
    then have cmp: "ls_compare a b ?cn (step, cost_ref, flag) = (True, step / a, cost_ref, flag)"
      by (simp add: ls_compare_def)
    show ?thesis
      using bracket cmp by simp
  next
    case same
    then have cmp: "ls_compare a b ?cn (step, cost_ref, flag) = (False, step, cost_ref, flag)"
      by (simp add: ls_compare_def)
    have le: "step * (b * b ^ n) \<le> step * b ^ n"
      using Suc.prems bn by (intro mult_left_mono) simp_all
    show ?thesis
    proof (cases flag)
      case True
      then show ?thesis
        using Suc.IH [of step flag cost_ref] Suc.prems cmp by simp
    next
      case False
      then have "step * b ^ n \<le> ls_loop c img d a b n (step, cost_ref, flag)"
        using Suc.IH [of step flag cost_ref] Suc.prems by simp
      then have "step * (b * b ^ n) \<le> ls_loop c img d a b n (step, cost_ref, flag)"
        using le by linarith
      then show ?thesis
        using False cmp by simp
    qed
  qed
qed

lemma line_search_lower_bound:
  assumes "0 < s"
  shows "s * (8 / 10) ^ 15 \<le> NLCG_line_search self img d c s 15 (13 / 10) (8 / 10)"
    and "s * (8 / 10) ^ 15 \<le> line_search img d m s c lambda_t"
  using ls_loop_lower_bound [of "13 / 10" "8 / 10" s False 15 _ img d c] assms
  by (simp_all add: NLCG_line_search_def line_search_def)

lemma worse_when_overshooting:
  fixes r w :: real
  assumes "2 * r < w" and "0 < w"
  shows "r\<^sup>2 < (r - w)\<^sup>2"
proof -
  have "(r - w)\<^sup>2 - r\<^sup>2 = w * (w - 2 * r)"
    by (simp add: power2_eq_square algebra_simps)
  moreover have "0 < w * (w - 2 * r)"
    using assms by simp
  ultimately show ?thesis by linarith
qed

lemma fifteen: "(15::nat) = Suc (Suc 13)"
  by simp

lemma ls_loop_improving:
  assumes "c (axpy img (complex_of_real s) d) < c0"
    and "\<And>k. k < j \<Longrightarrow> c (axpy img (complex_of_real (s * a ^ Suc k)) d)
                         < c (axpy img (complex_of_real (s * a ^ k)) d)"
    and "c (axpy img (complex_of_real (s * a ^ j)) d) < c (axpy img (complex_of_real (s * a ^ Suc j)) d)"
    and "Suc j < n"
  shows "ls_loop c img d a b n (s, c0, flag) = s * a ^ Suc j / a"
  using assms
proof (induction j arbitrary: s c0 flag n)
  case 0
  obtain m where "n = Suc (Suc 0 + m)"
    using "0.prems"(4) by (auto dest: less_imp_Suc_add)
  then have n: "n = Suc (Suc m)"
    by simp
  show ?case
    using "0.prems"(1,3) by (simp add: n ls_compare_def)
next
  case (Suc j)
  obtain m where n: "n = Suc m" and m: "Suc j < m"
    using Suc.prems(4) by (cases n) simp_all
  let ?c1 = "c (axpy img (complex_of_real s) d)"
  have cmp: "ls_compare a b ?c1 (s, c0, flag) = (False, s * a, ?c1, True)"
    using Suc.prems(1) by (simp add: ls_compare_def)
  have "ls_loop c img d a b m (s * a, ?c1, True) = s * a * a ^ Suc j / a"
  proof (rule Suc.IH)
    show "c (axpy img (complex_of_real (s * a)) d) < ?c1"
      using Suc.prems(2) [of 0] by simp
    show "c (axpy img (complex_of_real (s * a * a ^ Suc k)) d)
            < c (axpy img (complex_of_real (s * a * a ^ k)) d)" if "k < j" for k
      using Suc.prems(2) [of "Suc k"] that by (simp add: mult.assoc)
    show "c (axpy img (complex_of_real (s * a * a ^ j)) d)
            < c (axpy img (complex_of_real (s * a * a ^ Suc j)) d)"
      using Suc.prems(3) by (simp add: mult.assoc)
    show "Suc j < m"
      by (rule m)
  qed
  then show ?case
    using cmp by (simp add: n mult.assoc)
qed

section \<open>One pass of each loop\<close>

text \<open>The loop bodies, with the let-bound values named.\<close>

lemma NLCG_run_body_eq:
  assumes "NLCG_update_temporal_fd (self_x (rv_self v)) = Inr ttv"
    and "g = axpy (NLCG_update_fidelity (rv_self v) (self_x (rv_self v)))
               (complex_of_real (self_lambda_t (rv_self v))) ttv"
    and "beta = vdot g g / ((if iter = 0 then vdot g g else rv_f2_old v) + complex_of_real eps)"
    and "d = axpy g beta (if iter = 0 then g else rv_f_old v)"
    and "fn = NLCG_calculate_fnorm (rv_self v) (self_x (rv_self v))"
    and "tn = NLCG_calculate_tnorm (rv_self v) (self_x (rv_self v))"
    and "s = NLCG_line_search (rv_self v) (self_x (rv_self v)) d (fn + tn) (rv_step_size v)
               15 (13 / 10) (8 / 10)"
    and "v' = v\<lparr>rv_self := (rv_self v)\<lparr>self_x := axpy (self_x (rv_self v)) (complex_of_real s) d\<rparr>,
                 rv_step_size := s, rv_f2_old := vdot g g, rv_f_old := d\<rparr>"
  shows "NLCG_run_body iter v =
           (if s < 2 / 1000 then (Break, v')
            else (Next, v'\<lparr>rv_fnorm := rv_fnorm v @ [fn], rv_tnorm := rv_tnorm v @ [tn],
                           rv_cost := rv_cost v @ [fn + tn]\<rparr>))"
  unfolding assms(2-8) NLCG_run_body_def
  by (simp add: assms(1) Let_def)

lemma TotalVariationRecon_NLCG_body_eq:
  assumes "temporal_tv_update (tv_img v) = Inr ttv"
    and "g = axpy (fst (fidelity_update (tv_img v) m)) (complex_of_real lambda_t) ttv"
    and "beta = vdot g g / (vdot (if iter = 0 then g else tv_update_old v)
                                 (if iter = 0 then g else tv_update_old v) + complex_of_real eps)"
    and "d = axpy g beta (if iter = 0 then g else tv_update_old v)"
    and "fn = snd (fidelity_update (tv_img v) m)"
    and "tn = calculate_tnorm (tv_img v) lambda_t"
    and "s = line_search (tv_img v) d m (tv_step_size v) (fn + tn) lambda_t"
    and "v' = v\<lparr>tv_iter := Some iter, tv_fnorm := (tv_fnorm v)[iter := fn],
                 tv_img := axpy (tv_img v) (complex_of_real s) d, tv_step_size := s,
                 tv_update_old := d, tv_tnorm := (tv_tnorm v)[iter := tn],
                 tv_cost := (tv_cost v)[iter := fn + tn]\<rparr>"
  shows "TotalVariationRecon_NLCG_body m lambda_t iter v =
           (if s < 1 / 10000 then (Break, v') else (Next, v'))"
  unfolding assms(2-8) TotalVariationRecon_NLCG_body_def
  by (simp add: assms(1) Let_def split: prod.splits)

lemma NLCG_run_body_cases:
  assumes "NLCG_run_body iter v = (sig, v')" and "sig = Next \<or> sig = Break"
  obtains g where "NLCG_gradient (rv_self v) (self_x (rv_self v)) = Inr g"
    and "rv_f_old v' = axpy g (vdot g g / ((if iter = 0 then vdot g g else rv_f2_old v) + complex_of_real eps))
                         (if iter = 0 then g else rv_f_old v)"
    and "rv_f2_old v' = vdot g g"
    and "rv_step_size v' = NLCG_line_search (rv_self v) (self_x (rv_self v)) (rv_f_old v')
                             (NLCG_total_cost (rv_self v) (self_x (rv_self v))) (rv_step_size v)
                             15 (13 / 10) (8 / 10)"
    and "rv_self v' = (rv_self v)\<lparr>self_x := axpy (self_x (rv_self v))
                                     (complex_of_real (rv_step_size v')) (rv_f_old v')\<rparr>"
    and "sig = Break \<longleftrightarrow> rv_step_size v' < 2 / 1000"
    and "sig = Break \<Longrightarrow> rv_fnorm v' = rv_fnorm v \<and> rv_tnorm v' = rv_tnorm v \<and> rv_cost v' = rv_cost v"
    and "sig = Next \<Longrightarrow>
           rv_fnorm v' = rv_fnorm v @ [NLCG_calculate_fnorm (rv_self v) (self_x (rv_self v))]
           \<and> rv_tnorm v' = rv_tnorm v @ [NLCG_calculate_tnorm (rv_self v) (self_x (rv_self v))]
           \<and> rv_cost v' = rv_cost v @ [NLCG_total_cost (rv_self v) (self_x (rv_self v))]"
proof -
  obtain ttv where ttv: "NLCG_update_temporal_fd (self_x (rv_self v)) = Inr ttv"
    using assms by (cases "NLCG_update_temporal_fd (self_x (rv_self v))")
      (auto simp: NLCG_run_body_def Let_def)
  define g where "g = axpy (NLCG_update_fidelity (rv_self v) (self_x (rv_self v)))
                        (complex_of_real (self_lambda_t (rv_self v))) ttv"
  have grad: "NLCG_gradient (rv_self v) (self_x (rv_self v)) = Inr g"
    by (simp add: NLCG_gradient_def ttv g_def)
  note eq = NLCG_run_body_eq [OF ttv g_def refl refl refl refl refl refl, of iter]
  show ?thesis
    using assms(1) by (intro that [OF grad]) (auto simp: eq NLCG_total_cost_def split: if_splits)
qed

lemma TotalVariationRecon_NLCG_body_cases:
  assumes "TotalVariationRecon_NLCG_body m lambda_t iter v = (sig, v')" and "sig = Next \<or> sig = Break"
  obtains g where "combined_gradient m lambda_t (tv_img v) = Inr g"
    and "tv_update_old v' = axpy g (vdot g g / (vdot (if iter = 0 then g else tv_update_old v)
                                                     (if iter = 0 then g else tv_update_old v)
                                                + complex_of_real eps))
                               (if iter = 0 then g else tv_update_old v)"
    and "tv_step_size v' = line_search (tv_img v) (tv_update_old v') m (tv_step_size v)
                             (total_cost m lambda_t (tv_img v)) lambda_t"
    and "tv_img v' = axpy (tv_img v) (complex_of_real (tv_step_size v')) (tv_update_old v')"
    and "sig = Break \<longleftrightarrow> tv_step_size v' < 1 / 10000"
    and "tv_iter v' = Some iter"
    and "tv_fnorm v' = (tv_fnorm v)[iter := snd (fidelity_update (tv_img v) m)]"
    and "tv_tnorm v' = (tv_tnorm v)[iter := calculate_tnorm (tv_img v) lambda_t]"
    and "tv_cost v' = (tv_cost v)[iter := total_cost m lambda_t (tv_img v)]"
proof -
  obtain ttv where ttv: "temporal_tv_update (tv_img v) = Inr ttv"
    using assms by (cases "temporal_tv_update (tv_img v)")
      (auto simp: TotalVariationRecon_NLCG_body_def Let_def split: prod.splits)
  define g where "g = axpy (fst (fidelity_update (tv_img v) m)) (complex_of_real lambda_t) ttv"
  have grad: "combined_gradient m lambda_t (tv_img v) = Inr g"
    by (simp add: combined_gradient_def ttv g_def)
  note eq = TotalVariationRecon_NLCG_body_eq [OF ttv g_def refl refl refl refl refl refl, of iter]
  show ?thesis
    using assms(1) by (intro that [OF grad]) (auto simp: eq total_cost_def split: if_splits)
qed

lemma self_x_irrelevant:
  "NLCG_update_fidelity (self\<lparr>self_x := z\<rparr>) = NLCG_update_fidelity self"
  "NLCG_calculate_fnorm (self\<lparr>self_x := z\<rparr>) = NLCG_calculate_fnorm self"
  "NLCG_calculate_tnorm (self\<lparr>self_x := z\<rparr>) = NLCG_calculate_tnorm self"
  "NLCG_total_cost (self\<lparr>self_x := z\<rparr>) = NLCG_total_cost self"
  by (auto simp: fun_eq_iff NLCG_update_fidelity_def NLCG_calculate_fnorm_def
      NLCG_calculate_tnorm_def NLCG_total_cost_def)

lemma self_x_irrelevant_search:
  "NLCG_line_search (self\<lparr>self_x := z\<rparr>) = NLCG_line_search self"
  by (simp add: fun_eq_iff NLCG_line_search_def self_x_irrelevant)

lemma temporal_fd_defined:
  assumes "2 \<le> length img"
  obtains ttv where "NLCG_update_temporal_fd img = Inr ttv" and "temporal_tv_update img = Inr ttv"
  using assms by (simp add: temporal_fd_frames temporal_tv_update_eq)

lemma length_axpy: "length (axpy y a x) = min (length y) (length x)"
  by (simp add: axpy_def)

lemma length_first_direction: "length (first_direction g) = length g"
  by (simp add: first_direction_def length_axpy)

lemma NLCG_first_direction:
  assumes "NLCG_gradient (rv_self v) (self_x (rv_self v)) = Inr g"
  shows "rv_f_old (snd (NLCG_run_body 0 v)) = first_direction g"
    and "self_x (rv_self (snd (NLCG_run_body 0 v)))
           = axpy (self_x (rv_self v)) (complex_of_real (rv_step_size (snd (NLCG_run_body 0 v))))
               (first_direction g)"
proof -
  obtain ttv where ttv: "NLCG_update_temporal_fd (self_x (rv_self v)) = Inr ttv"
    and g: "g = axpy (NLCG_update_fidelity (rv_self v) (self_x (rv_self v)))
                  (complex_of_real (self_lambda_t (rv_self v))) ttv"
    using assms by (auto simp: NLCG_gradient_def split: sum.splits)
  note eq = NLCG_run_body_eq [OF ttv g refl refl refl refl refl refl, of 0]
  show "rv_f_old (snd (NLCG_run_body 0 v)) = first_direction g"
    by (simp add: eq first_direction_def)
  show "self_x (rv_self (snd (NLCG_run_body 0 v)))
           = axpy (self_x (rv_self v)) (complex_of_real (rv_step_size (snd (NLCG_run_body 0 v))))
               (first_direction g)"
    by (simp add: eq first_direction_def)
qed

lemma TotalVariationRecon_NLCG_first_direction:
  assumes "combined_gradient m lambda_t (tv_img w) = Inr h"
  shows "tv_update_old (snd (TotalVariationRecon_NLCG_body m lambda_t 0 w)) = first_direction h"
    and "tv_img (snd (TotalVariationRecon_NLCG_body m lambda_t 0 w))
           = axpy (tv_img w)
               (complex_of_real (tv_step_size (snd (TotalVariationRecon_NLCG_body m lambda_t 0 w))))
               (first_direction h)"
proof -
  obtain ttv where ttv: "temporal_tv_update (tv_img w) = Inr ttv"
    and h: "h = axpy (fst (fidelity_update (tv_img w) m)) (complex_of_real lambda_t) ttv"
    using assms by (auto simp: combined_gradient_def split: sum.splits)
  note eq = TotalVariationRecon_NLCG_body_eq [OF ttv h refl refl refl refl refl refl, of 0]
  show "tv_update_old (snd (TotalVariationRecon_NLCG_body m lambda_t 0 w)) = first_direction h"
    by (simp add: eq first_direction_def)
  show "tv_img (snd (TotalVariationRecon_NLCG_body m lambda_t 0 w))
           = axpy (tv_img w)
               (complex_of_real (tv_step_size (snd (TotalVariationRecon_NLCG_body m lambda_t 0 w))))
               (first_direction h)"
    by (simp add: eq first_direction_def)
qed

lemma NLCG_run_body_continues:
  assumes "2 \<le> length (self_x (rv_self v))" and "2 / 1000 \<le> rv_step_size v * (8 / 10) ^ 15"
  shows "fst (NLCG_run_body n v) = Next"
proof -
  obtain ttv where ttv: "NLCG_update_temporal_fd (self_x (rv_self v)) = Inr ttv"
    using assms(1) by (rule temporal_fd_defined)
  note eq = NLCG_run_body_eq [OF ttv refl refl refl refl refl refl refl, of n]
  have "0 < rv_step_size v * (8 / 10) ^ 15"
    using assms(2) by linarith
  then have pos: "0 < rv_step_size v"
    by (simp add: zero_less_mult_iff)
  have "rv_step_size v * (8 / 10) ^ 15 \<le> ls_loop c img d (13 / 10) (8 / 10) 15 (rv_step_size v, c0, False)"
    for c img d c0
    using ls_loop_lower_bound [of "13 / 10" "8 / 10" "rv_step_size v" False 15 c img d c0] pos
    by simp
  then show ?thesis
    unfolding eq NLCG_line_search_def using assms(2) by (simp add: not_less order_trans)
qed

lemma TotalVariationRecon_NLCG_body_continues:
  assumes "2 \<le> length (tv_img w)" and "1 / 10000 \<le> tv_step_size w * (8 / 10) ^ 15"
  shows "fst (TotalVariationRecon_NLCG_body m lambda_t n w) = Next"
proof -
  obtain ttv where ttv: "temporal_tv_update (tv_img w) = Inr ttv"
    using assms(1) by (rule temporal_fd_defined)
  note eq = TotalVariationRecon_NLCG_body_eq [OF ttv refl refl refl refl refl refl refl,
      where iter = n and m = m and lambda_t = lambda_t]
  have "0 < tv_step_size w * (8 / 10) ^ 15"
    using assms(2) by linarith
  then have pos: "0 < tv_step_size w"
    by (simp add: zero_less_mult_iff)
  have "tv_step_size w * (8 / 10) ^ 15 \<le> ls_loop c img d (13 / 10) (8 / 10) 15 (tv_step_size w, c0, False)"
    for c img d c0
    using ls_loop_lower_bound [of "13 / 10" "8 / 10" "tv_step_size w" False 15 c img d c0] pos
    by simp
  then show ?thesis
    unfolding eq line_search_def Let_def using assms(2) by (simp add: not_less order_trans)
qed

text \<open>Whole runs: the loops over a split range, the lengths of the traces, and a run that
  leaves its loop in iteration \<open>k\<close>.\<close>

lemma NLCG_run_loop_append:
  "NLCG_run_loop (xs @ ys) v =
     (case NLCG_run_loop xs v of (Next, v') \<Rightarrow> NLCG_run_loop ys v' | (sig, v') \<Rightarrow> (sig, v'))"
proof (induction xs arbitrary: v)
  case Nil
  then show ?case by simp
next
  case (Cons x xs)
  obtain sig v' where b: "NLCG_run_body x v = (sig, v')"
    by (cases "NLCG_run_body x v") auto
  show ?case
    using Cons.IH [of v'] by (cases sig) (simp_all add: b)
qed

lemma TotalVariationRecon_NLCG_loop_append:
  "TotalVariationRecon_NLCG_loop m lambda_t (xs @ ys) v =
     (case TotalVariationRecon_NLCG_loop m lambda_t xs v of
        (Next, v') \<Rightarrow> TotalVariationRecon_NLCG_loop m lambda_t ys v'
      | (sig, v') \<Rightarrow> (sig, v'))"
proof (induction xs arbitrary: v)
  case Nil
  then show ?case by simp
next
  case (Cons x xs)
  obtain sig v' where b: "TotalVariationRecon_NLCG_body m lambda_t x v = (sig, v')"
    by (cases "TotalVariationRecon_NLCG_body m lambda_t x v") auto
  show ?case
    using Cons.IH [of v'] by (cases sig) (simp_all add: b)
qed

lemma iterations_split:
  assumes "k < n"
  shows "[0..<n] = [0..<k] @ k # [Suc k..<n]"
  using assms by (metis upt_conv_Cons upt_add_eq_append le0 le_add_diff_inverse less_imp_le add_0)

lemma NLCG_run_loop_traces:
  assumes "NLCG_run_loop xs v = (Next, v')"
  shows "length (rv_fnorm v') = length (rv_fnorm v) + length xs
       \<and> length (rv_tnorm v') = length (rv_tnorm v) + length xs
       \<and> length (rv_cost v') = length (rv_cost v) + length xs"
  using assms
proof (induction xs arbitrary: v)
  case Nil
  then show ?case by simp
next
  case (Cons x xs)
  obtain sig u where b: "NLCG_run_body x v = (sig, u)"
    by (cases "NLCG_run_body x v") auto
  have sig: "sig = Next"
    using Cons.prems b by (cases sig) simp_all
  then have rest: "NLCG_run_loop xs u = (Next, v')"
    using Cons.prems b by simp
  obtain g where "rv_fnorm u = rv_fnorm v @ [NLCG_calculate_fnorm (rv_self v) (self_x (rv_self v))]
           \<and> rv_tnorm u = rv_tnorm v @ [NLCG_calculate_tnorm (rv_self v) (self_x (rv_self v))]
           \<and> rv_cost u = rv_cost v @ [NLCG_total_cost (rv_self v) (self_x (rv_self v))]"
    using b sig by (auto elim: NLCG_run_body_cases)
  then show ?case
    using Cons.IH [OF rest] by simp
qed

lemma TotalVariationRecon_NLCG_body_trace_lengths:
  "length (tv_fnorm (snd (TotalVariationRecon_NLCG_body m lambda_t n w))) = length (tv_fnorm w)"
  "length (tv_tnorm (snd (TotalVariationRecon_NLCG_body m lambda_t n w))) = length (tv_tnorm w)"
  "length (tv_cost (snd (TotalVariationRecon_NLCG_body m lambda_t n w))) = length (tv_cost w)"
  by (simp_all add: TotalVariationRecon_NLCG_body_def Let_def split: sum.splits prod.splits)

lemma TotalVariationRecon_NLCG_loop_trace_lengths:
  "length (tv_fnorm (snd (TotalVariationRecon_NLCG_loop m lambda_t xs w))) = length (tv_fnorm w)
   \<and> length (tv_tnorm (snd (TotalVariationRecon_NLCG_loop m lambda_t xs w))) = length (tv_tnorm w)
   \<and> length (tv_cost (snd (TotalVariationRecon_NLCG_loop m lambda_t xs w))) = length (tv_cost w)"
proof (induction xs arbitrary: w)
  case Nil
  then show ?case by simp
next
  case (Cons x xs)
  obtain sig u where b: "TotalVariationRecon_NLCG_body m lambda_t x w = (sig, u)"
    by (cases "TotalVariationRecon_NLCG_body m lambda_t x w") auto
  have u: "length (tv_fnorm u) = length (tv_fnorm w)" "length (tv_tnorm u) = length (tv_tnorm w)"
    "length (tv_cost u) = length (tv_cost w)"
    using TotalVariationRecon_NLCG_body_trace_lengths [of m lambda_t x w] by (simp_all add: b)
  show ?case
    using Cons.IH [of u] u by (cases sig) (simp_all add: b)
qed

lemma NLCG_run_break:
  assumes k: "k < self_max_iter self"
    and pre: "NLCG_run_loop [0..<k] (NLCG_run_start self) = (Next, v)"
    and b: "NLCG_run_body k v = (Break, v')"
  shows "NLCG_run self = (Inr (self_x (rv_self v'), rv_fnorm v, rv_tnorm v, rv_cost v), rv_self v')"
    and "length (rv_fnorm v) = k" and "length (rv_tnorm v) = k" and "length (rv_cost v) = k"
    and "rv_step_size v' < 2 / 1000"
proof -
  obtain g where small: "rv_step_size v' < 2 / 1000"
    and same: "rv_fnorm v' = rv_fnorm v \<and> rv_tnorm v' = rv_tnorm v \<and> rv_cost v' = rv_cost v"
    using b by (rule NLCG_run_body_cases) simp_all
  have "NLCG_run_loop [0..<self_max_iter self] (NLCG_run_start self) = (Break, v')"
    by (simp add: iterations_split [OF k] NLCG_run_loop_append pre b)
  then show "NLCG_run self
               = (Inr (self_x (rv_self v'), rv_fnorm v, rv_tnorm v, rv_cost v), rv_self v')"
    by (simp add: NLCG_run_def same)
  show "length (rv_fnorm v) = k" "length (rv_tnorm v) = k" "length (rv_cost v) = k"
    using NLCG_run_loop_traces [OF pre] by (simp_all add: NLCG_run_start_def)
  show "rv_step_size v' < 2 / 1000"
    by (rule small)
qed

lemma TotalVariationRecon_NLCG_break:
  assumes j: "j < max_iter"
    and pre: "TotalVariationRecon_NLCG_loop m lambda_t [0..<j] (TotalVariationRecon_NLCG_start m max_iter)
                = (Next, w)"
    and b: "TotalVariationRecon_NLCG_body m lambda_t j w = (Break, w')"
  shows "TotalVariationRecon_NLCG m lambda_t max_iter
           = Inr (tv_img w', take (j + 1) (tv_fnorm w'), take (j + 1) (tv_tnorm w'),
                  take (j + 1) (tv_cost w'))"
    and "length (take (j + 1) (tv_fnorm w')) = j + 1"
    and "length (take (j + 1) (tv_tnorm w')) = j + 1"
    and "length (take (j + 1) (tv_cost w')) = j + 1"
    and "take (j + 1) (tv_fnorm w') ! j = snd (fidelity_update (tv_img w) m)"
    and "take (j + 1) (tv_tnorm w') ! j = calculate_tnorm (tv_img w) lambda_t"
    and "take (j + 1) (tv_cost w') ! j = total_cost m lambda_t (tv_img w)"
    and "tv_step_size w' < 1 / 10000"
proof -
  obtain g where small: "tv_step_size w' < 1 / 10000"
    and it: "tv_iter w' = Some j"
    and f: "tv_fnorm w' = (tv_fnorm w)[j := snd (fidelity_update (tv_img w) m)]"
    and t: "tv_tnorm w' = (tv_tnorm w)[j := calculate_tnorm (tv_img w) lambda_t]"
    and c: "tv_cost w' = (tv_cost w)[j := total_cost m lambda_t (tv_img w)]"
    using b by (rule TotalVariationRecon_NLCG_body_cases) simp_all
  have "TotalVariationRecon_NLCG_loop m lambda_t [0..<max_iter] (TotalVariationRecon_NLCG_start m max_iter)
          = (Break, w')"
    by (simp add: iterations_split [OF j] TotalVariationRecon_NLCG_loop_append pre b)
  then show "TotalVariationRecon_NLCG m lambda_t max_iter
           = Inr (tv_img w', take (j + 1) (tv_fnorm w'), take (j + 1) (tv_tnorm w'),
                  take (j + 1) (tv_cost w'))"
    by (simp add: TotalVariationRecon_NLCG_def it)
  have start: "length (tv_fnorm (TotalVariationRecon_NLCG_start m max_iter)) = max_iter"
    "length (tv_tnorm (TotalVariationRecon_NLCG_start m max_iter)) = max_iter"
    "length (tv_cost (TotalVariationRecon_NLCG_start m max_iter)) = max_iter"
    by (simp_all add: TotalVariationRecon_NLCG_start_def Let_def)
  have len: "length (tv_fnorm w) = max_iter" "length (tv_tnorm w) = max_iter"
    "length (tv_cost w) = max_iter"
    using TotalVariationRecon_NLCG_loop_trace_lengths
      [of m lambda_t "[0..<j]" "TotalVariationRecon_NLCG_start m max_iter"]
    by (simp_all only: pre snd_conv start)
  show "length (take (j + 1) (tv_fnorm w')) = j + 1" "length (take (j + 1) (tv_tnorm w')) = j + 1"
    "length (take (j + 1) (tv_cost w')) = j + 1"
    using j by (simp_all add: f t c len)
  show "take (j + 1) (tv_fnorm w') ! j = snd (fidelity_update (tv_img w) m)"
    "take (j + 1) (tv_tnorm w') ! j = calculate_tnorm (tv_img w) lambda_t"
    "take (j + 1) (tv_cost w') ! j = total_cost m lambda_t (tv_img w)"
    using j by (simp_all add: f t c len)
  show "tv_step_size w' < 1 / 10000"
    by (rule small)
qed

lemma TotalVariationRecon_NLCG_body_defined:
  assumes "2 \<le> length (tv_img w)"
  obtains sig w' where "TotalVariationRecon_NLCG_body m lambda_t n w = (sig, w')"
    and "sig = Next \<or> sig = Break" and "tv_iter w' = Some n"
proof -
  obtain ttv where ttv: "temporal_tv_update (tv_img w) = Inr ttv"
    using assms by (rule temporal_fd_defined)
  note eq = TotalVariationRecon_NLCG_body_eq [OF ttv refl refl refl refl refl refl refl,
      where iter = n and m = m and lambda_t = lambda_t]
  show ?thesis
    by (rule that [of "fst (TotalVariationRecon_NLCG_body m lambda_t n w)"
          "snd (TotalVariationRecon_NLCG_body m lambda_t n w)"]) (simp_all add: eq)
qed

section \<open>The measurements are read only\<close>

lemma NLCG_run_body_y: "self_y (rv_self (snd (NLCG_run_body iter v))) = self_y (rv_self v)"
  by (simp add: NLCG_run_body_def Let_def split: sum.splits)

lemma NLCG_run_loop_y: "self_y (rv_self (snd (NLCG_run_loop iters v))) = self_y (rv_self v)"
proof (induction iters arbitrary: v)
  case Nil
  then show ?case by simp
next
  case (Cons iter rest)
  obtain sig v' where b: "NLCG_run_body iter v = (sig, v')"
    by (cases "NLCG_run_body iter v") auto
  have "self_y (rv_self v') = self_y (rv_self v)"
    using NLCG_run_body_y [of iter v] b by simp
  then show ?case
    using Cons.IH [of v'] b by (cases sig) simp_all
qed

text \<open>
  Claim C8. The constructor stores the measurements weighted by the square root of the
  density compensation, and \<^verbatim>\<open>run\<close> leaves them as they are: the object it leaves
  behind holds the array it was given, also when the run raises. The gradient and cost
  evaluations return no object, so they change none.
\<close>

theorem measurements_unchanged:
  "self_y (snd (NLCG_run self)) = self_y self
   \<and> self_y (NLCG_init A AH ksp dcf lambda_t max_iter step_size) = weighted ksp dcf
   \<and> self_y (snd (NLCG_run (NLCG_init A AH ksp dcf lambda_t max_iter step_size))) = weighted ksp dcf"
proof -
  have run: "self_y (snd (NLCG_run s)) = self_y s" for s
  proof -
    obtain sig v where l: "NLCG_run_loop [0..<self_max_iter s] (NLCG_run_start s) = (sig, v)"
      by (cases "NLCG_run_loop [0..<self_max_iter s] (NLCG_run_start s)") auto
    have "self_y (rv_self v) = self_y s"
      using NLCG_run_loop_y [of "[0..<self_max_iter s]" "NLCG_run_start s"] l
      by (simp add: NLCG_run_start_def)
    then show ?thesis
      using l by (cases sig) (simp_all add: NLCG_run_def)
  qed
  have init: "self_y (NLCG_init A AH ksp dcf lambda_t max_iter step_size) = weighted ksp dcf"
    by (simp add: NLCG_init_def Let_def)
  show ?thesis
    using run init by simp
qed

section \<open>The examples, pass by pass\<close>

lemma converged_body:
  "NLCG_run_body 0 (NLCG_run_start ex_converged) = (Break, ex_converged_vars)"
  "rv_step_size ex_converged_vars = 1 / 1000"
  "self_x (rv_self ex_converged_vars) = still 1"
proof -
  let ?S = "NLCG_run_start ex_converged"
  have self: "rv_self ?S = ex_converged" "rv_step_size ?S = 1 / 1000"
    by (simp_all add: NLCG_run_start_def ex_converged_def scalar_solver_fields)
  have x: "self_x ex_converged = still 1"
    by (simp add: ex_converged_def scalar_solver_fields)
  have ttv: "NLCG_update_temporal_fd (self_x (rv_self ?S)) = Inr (still 0)"
    by (simp add: self x temporal_still)
  have fid: "NLCG_update_fidelity ex_converged (still 1) = still 0"
    using scalar_fidelity [of 1 3 "1 / 1000" 1] by (simp add: ex_converged_def)
  have g: "still 0 = axpy (NLCG_update_fidelity (rv_self ?S) (self_x (rv_self ?S)))
                           (complex_of_real (self_lambda_t (rv_self ?S))) (still 0)"
    by (simp add: self x fid still_axpy)
  have beta: "0 = vdot (still 0) (still 0)
                    / ((if (0::nat) = 0 then vdot (still 0) (still 0) else rv_f2_old ?S) + complex_of_real eps)"
    by (simp add: vdot_def still_def)
  have d: "still 0 = axpy (still 0) 0 (if (0::nat) = 0 then still 0 else rv_f_old ?S)"
    by (simp add: still_axpy)
  have c: "NLCG_total_cost ex_converged (still 1) = 0"
    using scalar_total_cost [of 1 3 "1 / 1000" 1] by (simp add: ex_converged_def)
  have "NLCG_calculate_fnorm ex_converged (still 1) = 0"
    using scalar_fnorm [of 1 3 "1 / 1000" 1] by (simp add: ex_converged_def)
  then have fn: "0 = NLCG_calculate_fnorm (rv_self ?S) (self_x (rv_self ?S))"
    by (simp add: self x)
  have tn: "0 = NLCG_calculate_tnorm (rv_self ?S) (self_x (rv_self ?S))"
    by (simp add: self x still_tnorm)
  have "NLCG_total_cost ex_converged (axpy (still 1) (complex_of_real (1 / 1000)) (still 0)) = 0"
    using c by (simp add: still_axpy)
  then have ls: "1 / 1000 = NLCG_line_search (rv_self ?S) (self_x (rv_self ?S)) (still 0) (0 + 0)
                              (rv_step_size ?S) 15 (13 / 10) (8 / 10)"
    by (simp add: self x NLCG_line_search_def ls_loop_equal)
  note eq = NLCG_run_body_eq [OF ttv g beta d fn tn ls refl]
  show "NLCG_run_body 0 ?S = (Break, ex_converged_vars)"
    unfolding ex_converged_vars_def eq by simp
  show "rv_step_size ex_converged_vars = 1 / 1000"
    unfolding ex_converged_vars_def eq by simp
  show "self_x (rv_self ex_converged_vars) = still 1"
    unfolding ex_converged_vars_def eq by (simp add: self x still_axpy)
qed

text \<open>The solver with the factor 4 on real-valued constant images.\<close>

lemma ex_beta0_bounds: "999 / 1000 < ex_beta0" "ex_beta0 < 1"
  by (simp_all add: ex_beta0_def eps_def field_simps)

lemma ex_line_search0:
  "NLCG_line_search ex_solver (still 4) (still (complex_of_real ex_dir0))
     225 2 15 (13 / 10) (8 / 10) = ex_step0"
proof -
  have "225 < NLCG_total_cost ex_solver
                (axpy (still 4) (complex_of_real (2 * (8 / 10) ^ i))
                   (still (complex_of_real ex_dir0)))" if "i < 15" for i
  proof -
    let ?s = "2 * (8 / 10) ^ i :: real"
    have "(8 / 10 :: real) ^ 14 \<le> (8 / 10) ^ i"
      using that by (intro power_decreasing) simp_all
    moreover have "4 / 100 < (8 / 10 :: real) ^ 14"
      by (simp add: power_divide)
    ultimately have s: "8 / 100 < ?s"
      by linarith
    define w where "w = - 4 * (?s * ex_dir0)"
    have "?s * (999 / 1000) \<le> ?s * ex_beta0"
      using s ex_beta0_bounds(1) by (intro mult_left_mono) simp_all
    moreover have "w = 240 * ?s + 240 * (?s * ex_beta0)"
      by (simp add: w_def ex_dir0_def algebra_simps)
    ultimately have "30 < w"
      using s by linarith
    then have worse: "15\<^sup>2 < (15 - w)\<^sup>2"
      by (intro worse_when_overshooting) linarith+
    have e: "(1 - 4 * (4 + ?s * ex_dir0))\<^sup>2 = (15 - w)\<^sup>2"
    proof -
      have "1 - 4 * (4 + ?s * ex_dir0) = - (15 - w)"
        unfolding w_def by simp
      then show ?thesis
        by (simp only: power2_minus)
    qed
    let ?d = "still (complex_of_real ex_dir0)"
    have "axpy (still (complex_of_real 4)) (complex_of_real ?s) ?d
            = (still (complex_of_real (4 + ?s * ex_dir0)))"
      by (rule ex_axpy)
    then have "NLCG_total_cost ex_solver
                 (axpy (still (complex_of_real 4)) (complex_of_real ?s) ?d)
               = (15 - w)\<^sup>2"
      by (simp only: ex_cost_real e)
    then have "15\<^sup>2 < NLCG_total_cost ex_solver
                 (axpy (still (complex_of_real 4)) (complex_of_real ?s) ?d)"
      using worse by (simp only:)
    then show ?thesis
      by simp
  qed
  then show ?thesis
    unfolding NLCG_line_search_def ex_step0_def by (rule ls_loop_all_worse)
qed

lemma ex_iteration0: "NLCG_run_body 0 (NLCG_run_start ex_solver) = (Next, ex_vars1)"
proof -
  have dir: "axpy (still (- 60)) (28800 / (28800 + complex_of_real eps)) (still (- 60))
               = still (complex_of_real ex_dir0)"
    by (simp add: still_axpy ex_dir0_def ex_beta0_def)
  have upd: "axpy (still 4) (complex_of_real ex_step0) (still (complex_of_real ex_dir0))
               = still (complex_of_real ex_x1)"
    using ex_axpy [of 4 ex_step0 ex_dir0] by (simp add: ex_x1_def)
  have nb: "\<not> ex_step0 < 2 / 1000"
    by (simp add: ex_step0_def power_divide)
  have fn: "NLCG_calculate_fnorm ex_solver (still 4) = 225"
    using ex_fnorm [of 4] by simp
  have grad: "axpy (still (- 60)) 1 (still 0) = still (- 60)"
    by (simp add: still_axpy)
  show ?thesis
    unfolding NLCG_run_body_def
    using ex_line_search0 upd nb
    by (simp add: NLCG_run_start_def ex_solver_fields ex_fidelity temporal_still grad
        still_vdot dir fn ex_tnorm ex_vars1_def Let_def)
qed

lemma ex_dir0_bounds: "- 120 < ex_dir0" "ex_dir0 < - 11994 / 100"
  using ex_beta0_bounds by (simp_all add: ex_dir0_def)

lemma ex_step0_bounds: "7036 / 100000 < ex_step0" "ex_step0 < 7037 / 100000"
  by (simp_all add: ex_step0_def power_divide)

lemma ex_r1_bounds: "1875 / 100 < ex_r1" "ex_r1 < 19"
proof -
  have "ex_r1 = - 15 + 4 * (ex_step0 * (- ex_dir0))"
    by (simp add: ex_r1_def ex_x1_def)
  moreover have "7036 / 100000 * (11994 / 100) < ex_step0 * (- ex_dir0)"
    using ex_step0_bounds ex_dir0_bounds by (intro mult_strict_mono) simp_all
  moreover have "ex_step0 * (- ex_dir0) < 7037 / 100000 * 120"
    using ex_step0_bounds ex_dir0_bounds by (intro mult_strict_mono) simp_all
  ultimately show "1875 / 100 < ex_r1" "ex_r1 < 19"
    by simp_all
qed

lemma ex_cost1_bound: "350 < ex_r1\<^sup>2"
proof -
  have "(1875 / 100)\<^sup>2 < ex_r1\<^sup>2"
    using ex_r1_bounds(1) by (intro power_strict_mono) simp_all
  then show ?thesis
    by (simp add: power2_eq_square)
qed

lemma ex_dir1_negative: "ex_dir1 < 0"
proof -
  have "128 * 350 / (28800 + eps) < ex_beta1"
    using ex_cost1_bound by (simp add: ex_beta1_def power2_eq_square eps_def field_simps)
  moreover have "(3 / 2 :: real) < 128 * 350 / (28800 + eps)"
    by (simp add: eps_def field_simps)
  ultimately have b: "3 / 2 < ex_beta1"
    by linarith
  have "3 / 2 * (11994 / 100) < ex_beta1 * (- ex_dir0)"
    using b ex_dir0_bounds by (intro mult_strict_mono) simp_all
  then show ?thesis
    using ex_r1_bounds(2) by (simp add: ex_dir1_def)
qed

lemma ex_line_search1:
  "NLCG_line_search ex_solver (still (complex_of_real ex_x1))
     (still (complex_of_real ex_dir1)) (ex_r1\<^sup>2) ex_step0 15 (13 / 10) (8 / 10)
   = ex_step1"
proof -
  let ?d = "still (complex_of_real ex_dir1)"
  let ?x = "still (complex_of_real ex_x1)"
  have "ex_r1\<^sup>2 < NLCG_total_cost ex_solver (axpy ?x (complex_of_real (ex_step0 * (8 / 10) ^ i)) ?d)"
    for i
  proof -
    let ?s = "ex_step0 * (8 / 10) ^ i"
    define w where "w = - 4 * (?s * ex_dir1)"
    have "0 < ex_step0"
      using ex_step0_bounds(1) by simp
    then have pos: "0 < ?s"
      by (intro mult_pos_pos zero_less_power) simp_all
    have "0 < - ex_dir1"
      using ex_dir1_negative by simp
    then have "0 < ?s * (- ex_dir1)"
      by (rule mult_pos_pos [OF pos])
    then have w: "0 < w"
      by (simp add: w_def mult.commute)
    have worse: "(- ex_r1)\<^sup>2 < (- ex_r1 - w)\<^sup>2"
      using w ex_r1_bounds(1) by (intro worse_when_overshooting) linarith+
    have e: "(1 - 4 * (ex_x1 + ?s * ex_dir1))\<^sup>2 = (- ex_r1 - w)\<^sup>2"
    proof -
      have "1 - 4 * (ex_x1 + ?s * ex_dir1) = - (- ex_r1 - w)"
        unfolding w_def ex_r1_def by simp
      then show ?thesis
        by (simp only: power2_minus)
    qed
    have "axpy ?x (complex_of_real ?s) ?d
            = (still (complex_of_real (ex_x1 + ?s * ex_dir1)))"
      by (rule ex_axpy)
    then have "NLCG_total_cost ex_solver (axpy ?x (complex_of_real ?s) ?d) = (- ex_r1 - w)\<^sup>2"
      by (simp only: ex_cost_real e)
    then have "(- ex_r1)\<^sup>2 < NLCG_total_cost ex_solver (axpy ?x (complex_of_real ?s) ?d)"
      using worse by (simp only:)
    then show ?thesis
      by (simp only: power2_minus)
  qed
  then show ?thesis
    unfolding NLCG_line_search_def ex_step1_def by (intro ls_loop_all_worse)
qed

lemma ex_iteration1: "NLCG_run_body 1 ex_vars1 = (Next, ex_vars2)"
proof -
  let ?x = "still (complex_of_real ex_x1)"
  let ?g = "(still (complex_of_real (4 * ex_r1)))"
  let ?dprev = "still (complex_of_real ex_dir0)"
  let ?dnew = "still (complex_of_real ex_dir1)"
  let ?self = "ex_solver\<lparr>self_x := ?x\<rparr>"
  have sx: "self_x (rv_self ex_vars1) = ?x"
    by (simp add: ex_vars1_def)
  have ss: "rv_self ex_vars1 = ?self"
    by (simp add: ex_vars1_def)
  have sv: "rv_f2_old ex_vars1 = 28800" "rv_f_old ex_vars1 = ?dprev" "rv_step_size ex_vars1 = ex_step0"
    by (simp_all add: ex_vars1_def)
  have ttv: "NLCG_update_temporal_fd (self_x (rv_self ex_vars1)) = Inr (still 0)"
    unfolding sx by (rule temporal_still)
  have fid: "NLCG_update_fidelity ?self ?x = ?g"
    by (simp add: self_x_irrelevant ex_fidelity ex_r1_def)
  have g: "?g = axpy (NLCG_update_fidelity (rv_self ex_vars1) (self_x (rv_self ex_vars1)))
                  (complex_of_real (self_lambda_t (rv_self ex_vars1))) (still 0)"
    by (simp add: sx ss self_x_irrelevant ex_fidelity ex_r1_def still_axpy ex_solver_fields)
  have f2: "vdot ?g ?g = complex_of_real (8 * (4 * ex_r1)\<^sup>2)"
    by (rule still_vdot_real)
  have beta: "complex_of_real ex_beta1
                = vdot ?g ?g / ((if (1::nat) = 0 then vdot ?g ?g else rv_f2_old ex_vars1) + complex_of_real eps)"
    unfolding f2 sv by (simp add: ex_beta1_def)
  have dir: "?dnew = axpy ?g (complex_of_real ex_beta1) (if (1::nat) = 0 then ?g else rv_f_old ex_vars1)"
    unfolding sv using ex_axpy [of "4 * ex_r1" ex_beta1 ex_dir0] by (simp only: ex_dir1_def) simp
  have fn: "ex_r1\<^sup>2 = NLCG_calculate_fnorm (rv_self ex_vars1) (self_x (rv_self ex_vars1))"
    by (simp add: sx ss self_x_irrelevant ex_fnorm ex_r1_def)
  have tn: "0 = NLCG_calculate_tnorm (rv_self ex_vars1) (self_x (rv_self ex_vars1))"
    by (simp add: sx ss self_x_irrelevant ex_tnorm)
  have ls: "ex_step1 = NLCG_line_search (rv_self ex_vars1) (self_x (rv_self ex_vars1)) ?dnew
                (ex_r1\<^sup>2 + 0) (rv_step_size ex_vars1) 15 (13 / 10) (8 / 10)"
    using ex_line_search1 by (simp add: sx ss sv self_x_irrelevant_search)
  have nb: "\<not> ex_step1 < 2 / 1000"
    by (simp add: ex_step1_def ex_step0_def power_divide)
  have upd: "axpy ?x (complex_of_real ex_step1) ?dnew = still (complex_of_real ex_x2)"
    using ex_axpy [of ex_x1 ex_step1 ex_dir1] by (simp only: ex_x2_def)
  show ?thesis
    unfolding NLCG_run_body_eq [OF ttv g beta dir fn tn ls refl]
    using nb by (simp add: ex_vars1_def ex_vars2_def upd f2 del: of_real_mult of_real_power of_real_numeral of_real_add)
qed

lemma ex_run:
  "fst (NLCG_run ex_solver)
     = Inr (still (complex_of_real ex_x2), [225, ex_r1\<^sup>2], [0, 0], [225, ex_r1\<^sup>2])"
proof -
  have "[0..<self_max_iter ex_solver] = [0, 1]"
    by (simp add: ex_solver_fields upt_rec)
  moreover have "NLCG_run_body (Suc 0) ex_vars1 = (Next, ex_vars2)"
    using ex_iteration1 by simp
  ultimately show ?thesis
    by (simp add: NLCG_run_def ex_iteration0 ex_vars2_def)
qed

lemma ex_gradient:
  "NLCG_gradient ex_solver (still 4) = Inr (still (- 60))"
  "combined_gradient ex_measurement 1 (still 4) = Inr (still (- 60))"
  by (simp_all add: NLCG_gradient_def combined_gradient_def temporal_still ex_fidelity
      ex_fidelity_update still_axpy)

lemma ex_first_direction:
  "first_direction (still (- 60)) = still (complex_of_real ex_dir0)"
proof -
  have v: "vdot (still (- 60)) (still (- 60)) = 28800"
    by (simp add: still_vdot)
  show ?thesis
    unfolding first_direction_def v by (simp add: still_axpy ex_dir0_def ex_beta0_def)
qed

lemma ex_dir0_differs: "complex_of_real ex_dir0 \<noteq> - 60"
proof
  assume "complex_of_real ex_dir0 = - 60"
  then have "complex_of_real ex_dir0 = complex_of_real (- 60)"
    by simp
  then have "ex_dir0 = - 60"
    by (simp only: of_real_eq_iff)
  then show False
    using ex_dir0_bounds(2) by simp
qed

lemma ex_function_start: "tv_img (TotalVariationRecon_NLCG_start ex_measurement 2) = still 4"
  using scalar_start(1) [of 4 2] by (simp add: ex_measurement_def)

text \<open>The gentle solver: its first line search improves once, then brackets.\<close>

lemma gentle_direction:
  obtains gd where "first_direction (still (3 / 8)) = still (complex_of_real gd)"
    and "749 / 1000 < gd" and "gd < 3 / 4"
proof -
  define gb where "gb = (9 / 8) / (9 / 8 + eps)"
  define gd where "gd = 3 / 8 + gb * (3 / 8)"
  have v: "vdot (still (3 / 8)) (still (3 / 8)) = 9 / 8"
    by (simp add: still_vdot power2_eq_square)
  have "first_direction (still (3 / 8)) = still (complex_of_real gd)"
    unfolding first_direction_def v by (simp add: still_axpy gd_def gb_def)
  moreover have "999 / 1000 < gb" "gb < 1"
    by (simp_all add: gb_def eps_def field_simps)
  then have "749 / 1000 < gd" "gd < 3 / 4"
    by (simp_all add: gd_def)
  ultimately show ?thesis
    by (rule that)
qed

lemma gentle_candidates:
  fixes gd :: real
  assumes "749 / 1000 < gd" and "gd < 3 / 4"
  shows "(1 - 1 / 2 * (1 / 2 + 2 * gd))\<^sup>2 < 9 / 16"
    and "(1 - 1 / 2 * (1 / 2 + 2 * gd))\<^sup>2 < (1 - 1 / 2 * (1 / 2 + 2 * (13 / 10) * gd))\<^sup>2"
proof -
  have a: "(1 - 1 / 2 * (1 / 2 + 2 * gd))\<^sup>2 < (1 / 1000)\<^sup>2"
    using assms by (intro power_strict_mono) simp_all
  have "(1 / 10)\<^sup>2 < (- (1 - 1 / 2 * (1 / 2 + 2 * (13 / 10) * gd)))\<^sup>2"
    using assms by (intro power_strict_mono) simp_all
  then have b: "(1 / 10)\<^sup>2 < (1 - 1 / 2 * (1 / 2 + 2 * (13 / 10) * gd))\<^sup>2"
    by (simp only: power2_minus)
  have n: "(1 / 1000 :: real)\<^sup>2 < 9 / 16" "(1 / 1000 :: real)\<^sup>2 < (1 / 10)\<^sup>2"
    by (simp_all add: power2_eq_square)
  show "(1 - 1 / 2 * (1 / 2 + 2 * gd))\<^sup>2 < 9 / 16"
    using a n by linarith
  show "(1 - 1 / 2 * (1 / 2 + 2 * gd))\<^sup>2 < (1 - 1 / 2 * (1 / 2 + 2 * (13 / 10) * gd))\<^sup>2"
    using a b n by linarith
qed

lemma gentle_axpy:
  "axpy (still (1 / 2)) (complex_of_real s) (still (complex_of_real gd))
     = still (complex_of_real (1 / 2 + s * gd))"
  by (simp add: still_axpy)

lemma ex_gentle_brackets:
  "NLCG_line_search_breaks ex_gentle (still (1 / 2)) (first_direction (still (3 / 8)))
     (9 / 16) 2 15 (13 / 10) (8 / 10)"
proof -
  obtain gd where d: "first_direction (still (3 / 8)) = still (complex_of_real gd)"
    and gd: "749 / 1000 < gd" "gd < 3 / 4"
    by (rule gentle_direction)
  show ?thesis
    unfolding NLCG_line_search_breaks_def d fifteen
    by (rule ls_loop_bracket)
      (simp_all only: gentle_axpy ex_gentle_def scalar_cost_real gentle_candidates [OF gd])
qed

lemma gentle_measurement_brackets:
  "line_search_breaks (still (1 / 2)) (first_direction (still (3 / 8)))
     (scalar_measurement (1 / 2)) 2 (9 / 16) 1"
proof -
  obtain gd where d: "first_direction (still (3 / 8)) = still (complex_of_real gd)"
    and gd: "749 / 1000 < gd" "gd < 3 / 4"
    by (rule gentle_direction)
  show ?thesis
    unfolding line_search_breaks_def Let_def d fifteen
    by (rule ls_loop_bracket)
      (simp_all only: gentle_axpy scalar_cost_real gentle_candidates [OF gd])
qed

lemma gentle_class_run:
  shows "NLCG_run_body 0 (NLCG_run_start ex_gentle) = (Next, ex_gentle_vars1)"
    and "NLCG_run_body 1 ex_gentle_vars1 = (Next, ex_gentle_vars2)"
    and "rv_f_old ex_gentle_vars1 = first_direction (still (3 / 8))"
    and "rv_self (NLCG_run_start ex_gentle) = ex_gentle"
    and "self_x ex_gentle = still (1 / 2)"
    and "NLCG_total_cost ex_gentle (still (1 / 2)) = 9 / 16"
    and "rv_step_size (NLCG_run_start ex_gentle) = 2"
proof -
  let ?S = "NLCG_run_start ex_gentle"
  show self: "rv_self ?S = ex_gentle"
    by (simp add: NLCG_run_start_def)
  show x: "self_x ex_gentle = still (1 / 2)"
    by (simp add: ex_gentle_def scalar_solver_fields)
  show step: "rv_step_size ?S = 2"
    by (simp add: NLCG_run_start_def ex_gentle_def scalar_solver_fields)
  show "NLCG_total_cost ex_gentle (still (1 / 2)) = 9 / 16"
    using scalar_total_cost [of "1 / 2" 2 2 "1 / 2"] by (simp add: ex_gentle_def power2_eq_square)
  have "fst (NLCG_run_body 0 ?S) = Next"
    by (rule NLCG_run_body_continues) (simp_all add: self x step power_divide still_length)
  then show b1: "NLCG_run_body 0 ?S = (Next, ex_gentle_vars1)"
    by (simp add: ex_gentle_vars1_def prod_eq_iff)
  have "NLCG_update_fidelity ex_gentle (still (1 / 2)) = still (3 / 8)"
    using scalar_fidelity [of "1 / 2" 2 2 "1 / 2"] by (simp add: ex_gentle_def)
  then have grad: "NLCG_gradient (rv_self ?S) (self_x (rv_self ?S)) = Inr (still (3 / 8))"
    by (simp add: NLCG_gradient_def self x temporal_still still_axpy)
  show fo: "rv_f_old ex_gentle_vars1 = first_direction (still (3 / 8))"
    unfolding ex_gentle_vars1_def by (rule NLCG_first_direction(1) [OF grad])
  obtain g where s1: "rv_step_size ex_gentle_vars1
                        = NLCG_line_search (rv_self ?S) (self_x (rv_self ?S)) (rv_f_old ex_gentle_vars1)
                            (NLCG_total_cost (rv_self ?S) (self_x (rv_self ?S))) (rv_step_size ?S)
                            15 (13 / 10) (8 / 10)"
    and x1: "rv_self ex_gentle_vars1
               = (rv_self ?S)\<lparr>self_x := axpy (self_x (rv_self ?S))
                                     (complex_of_real (rv_step_size ex_gentle_vars1))
                                     (rv_f_old ex_gentle_vars1)\<rparr>"
    using b1 by (rule NLCG_run_body_cases) simp_all
  have "2 * (8 / 10) ^ 15 \<le> rv_step_size ex_gentle_vars1"
    unfolding s1 step by (rule line_search_lower_bound(1)) simp
  then have big: "2 / 1000 \<le> rv_step_size ex_gentle_vars1 * (8 / 10) ^ 15"
    by (simp add: power_divide)
  have len: "2 \<le> length (self_x (rv_self ex_gentle_vars1))"
    by (simp add: x1 length_axpy fo length_first_direction self x still_length)
  have "fst (NLCG_run_body 1 ex_gentle_vars1) = Next"
    using len big by (rule NLCG_run_body_continues)
  then show "NLCG_run_body 1 ex_gentle_vars1 = (Next, ex_gentle_vars2)"
    by (simp add: ex_gentle_vars2_def prod_eq_iff)
qed

lemma gentle_function_run:
  shows "TotalVariationRecon_NLCG_body (scalar_measurement (1 / 2)) 1 0 ex_gentle_start = (Next, ex_gentle_tv1)"
    and "TotalVariationRecon_NLCG_body (scalar_measurement (1 / 2)) 1 1 ex_gentle_tv1 = (Next, ex_gentle_tv2)"
    and "tv_update_old ex_gentle_tv1 = first_direction (still (3 / 8))"
    and "tv_img ex_gentle_start = still (1 / 2)"
    and "total_cost (scalar_measurement (1 / 2)) 1 (still (1 / 2)) = 9 / 16"
    and "tv_step_size ex_gentle_start = 2"
    and "length (tv_cost ex_gentle_start) = 2"
proof -
  let ?m = "scalar_measurement (1 / 2)"
  show x: "tv_img ex_gentle_start = still (1 / 2)"
    using scalar_start(1) [of "1 / 2" 2] by (simp add: ex_gentle_start_def)
  show step: "tv_step_size ex_gentle_start = 2"
    by (simp add: ex_gentle_start_def scalar_start)
  show "length (tv_cost ex_gentle_start) = 2"
    by (simp add: ex_gentle_start_def scalar_start)
  show "total_cost ?m 1 (still (1 / 2)) = 9 / 16"
    using scalar_total_cost_fn [of "1 / 2" 1 "1 / 2"] by (simp add: power2_eq_square)
  have "fst (TotalVariationRecon_NLCG_body ?m 1 0 ex_gentle_start) = Next"
    by (rule TotalVariationRecon_NLCG_body_continues)
      (simp_all add: x step power_divide still_length)
  then show b1: "TotalVariationRecon_NLCG_body ?m 1 0 ex_gentle_start = (Next, ex_gentle_tv1)"
    by (simp add: ex_gentle_tv1_def prod_eq_iff)
  have "fst (fidelity_update (still (1 / 2)) ?m) = still (3 / 8)"
    using scalar_fidelity_update [of "1 / 2" "1 / 2"] by simp
  then have grad: "combined_gradient ?m 1 (tv_img ex_gentle_start) = Inr (still (3 / 8))"
    by (simp add: combined_gradient_def x temporal_still still_axpy)
  show fo: "tv_update_old ex_gentle_tv1 = first_direction (still (3 / 8))"
    unfolding ex_gentle_tv1_def by (rule TotalVariationRecon_NLCG_first_direction(1) [OF grad])
  obtain g where s1: "tv_step_size ex_gentle_tv1
                        = line_search (tv_img ex_gentle_start) (tv_update_old ex_gentle_tv1) ?m
                            (tv_step_size ex_gentle_start) (total_cost ?m 1 (tv_img ex_gentle_start)) 1"
    and x1: "tv_img ex_gentle_tv1
               = axpy (tv_img ex_gentle_start) (complex_of_real (tv_step_size ex_gentle_tv1))
                   (tv_update_old ex_gentle_tv1)"
    using b1 by (rule TotalVariationRecon_NLCG_body_cases) simp_all
  have "2 * (8 / 10) ^ 15 \<le> tv_step_size ex_gentle_tv1"
    unfolding s1 step by (rule line_search_lower_bound(2)) simp
  then have big: "1 / 10000 \<le> tv_step_size ex_gentle_tv1 * (8 / 10) ^ 15"
    by (simp add: power_divide)
  have len: "2 \<le> length (tv_img ex_gentle_tv1)"
    by (simp add: x1 length_axpy fo length_first_direction x still_length)
  have "fst (TotalVariationRecon_NLCG_body ?m 1 1 ex_gentle_tv1) = Next"
    using len big by (rule TotalVariationRecon_NLCG_body_continues)
  then show "TotalVariationRecon_NLCG_body ?m 1 1 ex_gentle_tv1 = (Next, ex_gentle_tv2)"
    by (simp add: ex_gentle_tv2_def prod_eq_iff)
qed

section \<open>The first search direction\<close>

text \<open>
  Claim C1, as amended. At iteration 0 both variants set the previous direction to the
  combined gradient \<open>g\<close> and then apply the conjugation formula all the same: the
  search direction is \<open>g + \<beta> g\<close> with \<open>\<beta> = \<langle>g, g\<rangle> / (\<langle>g, g\<rangle> + eps)\<close>, and the image
  update of the first iteration is \<open>image + step \<cdot> (g + \<beta> g)\<close>.
\<close>

theorem first_iteration_direction:
  "(NLCG_gradient (rv_self v) (self_x (rv_self v)) = Inr g \<longrightarrow>
      rv_f_old (snd (NLCG_run_body 0 v)) = first_direction g
      \<and> self_x (rv_self (snd (NLCG_run_body 0 v)))
          = axpy (self_x (rv_self v)) (complex_of_real (rv_step_size (snd (NLCG_run_body 0 v))))
              (first_direction g))
   \<and> (combined_gradient m lambda_t (tv_img w) = Inr h \<longrightarrow>
      tv_update_old (snd (TotalVariationRecon_NLCG_body m lambda_t 0 w)) = first_direction h
      \<and> tv_img (snd (TotalVariationRecon_NLCG_body m lambda_t 0 w))
          = axpy (tv_img w)
              (complex_of_real (tv_step_size (snd (TotalVariationRecon_NLCG_body m lambda_t 0 w))))
              (first_direction h))"
  using NLCG_first_direction [of v g] TotalVariationRecon_NLCG_first_direction [of m lambda_t w h]
  by blast

text \<open>
  The theorem at the first pass of the solver with the factor 4 and of the function
  variant on the same data: the combined gradient is \<open>-60\<close> in both pixels.
\<close>

theorem first_iteration_direction_witness:
  "NLCG_gradient (rv_self (NLCG_run_start ex_solver)) (self_x (rv_self (NLCG_run_start ex_solver)))
     = Inr (still (- 60))
   \<and> rv_f_old (snd (NLCG_run_body 0 (NLCG_run_start ex_solver))) = first_direction (still (- 60))
   \<and> self_x (rv_self (snd (NLCG_run_body 0 (NLCG_run_start ex_solver))))
       = axpy (self_x (rv_self (NLCG_run_start ex_solver)))
           (complex_of_real (rv_step_size (snd (NLCG_run_body 0 (NLCG_run_start ex_solver)))))
           (first_direction (still (- 60)))
   \<and> combined_gradient ex_measurement 1 (tv_img (TotalVariationRecon_NLCG_start ex_measurement 2))
       = Inr (still (- 60))
   \<and> tv_update_old (snd (TotalVariationRecon_NLCG_body ex_measurement 1 0
                            (TotalVariationRecon_NLCG_start ex_measurement 2)))
       = first_direction (still (- 60))
   \<and> tv_img (snd (TotalVariationRecon_NLCG_body ex_measurement 1 0
                     (TotalVariationRecon_NLCG_start ex_measurement 2)))
       = axpy (tv_img (TotalVariationRecon_NLCG_start ex_measurement 2))
           (complex_of_real (tv_step_size (snd (TotalVariationRecon_NLCG_body ex_measurement 1 0
                                                  (TotalVariationRecon_NLCG_start ex_measurement 2)))))
           (first_direction (still (- 60)))"
proof -
  have g1: "NLCG_gradient (rv_self (NLCG_run_start ex_solver)) (self_x (rv_self (NLCG_run_start ex_solver)))
              = Inr (still (- 60))"
    by (simp add: NLCG_run_start_def ex_solver_fields ex_gradient)
  have g2: "combined_gradient ex_measurement 1 (tv_img (TotalVariationRecon_NLCG_start ex_measurement 2))
              = Inr (still (- 60))"
    by (simp add: ex_function_start ex_gradient)
  show ?thesis
    using first_iteration_direction [of "NLCG_run_start ex_solver" "still (- 60)" ex_measurement 1
        "TotalVariationRecon_NLCG_start ex_measurement 2" "still (- 60)"] g1 g2
    by blast
qed

text \<open>
  Claim C1 as stated fails there: the direction of iteration 0 is not the combined
  gradient \<open>-60\<close> (it is \<open>-60 - 60 \<beta>\<close>, close to \<open>-120\<close>), and the updated image is not
  \<open>image + step \<cdot> g\<close> for the step the line search returned.
\<close>

theorem first_iteration_counterexample:
  "NLCG_gradient ex_solver (self_x ex_solver) = Inr (still (- 60))
   \<and> rv_f_old (snd (NLCG_run_body 0 (NLCG_run_start ex_solver))) \<noteq> still (- 60)
   \<and> self_x (rv_self (snd (NLCG_run_body 0 (NLCG_run_start ex_solver))))
       \<noteq> axpy (self_x ex_solver)
            (complex_of_real (rv_step_size (snd (NLCG_run_body 0 (NLCG_run_start ex_solver)))))
            (still (- 60))
   \<and> combined_gradient ex_measurement 1 (tv_img (TotalVariationRecon_NLCG_start ex_measurement 2))
       = Inr (still (- 60))
   \<and> tv_update_old (snd (TotalVariationRecon_NLCG_body ex_measurement 1 0
                            (TotalVariationRecon_NLCG_start ex_measurement 2)))
       \<noteq> still (- 60)"
proof -
  have "ex_step0 * ex_dir0 \<noteq> ex_step0 * (- 60)"
  proof
    assume "ex_step0 * ex_dir0 = ex_step0 * (- 60)"
    then have "ex_step0 = 0 \<or> ex_dir0 = - 60"
      by (simp only: mult_cancel_left)
    then show False
      using ex_step0_bounds(1) ex_dir0_bounds(2) by auto
  qed
  then have "complex_of_real (4 + ex_step0 * ex_dir0) \<noteq> complex_of_real (4 + ex_step0 * (- 60))"
    by (simp only: of_real_eq_iff add_left_cancel not_False_eq_True)
  then have x: "still (complex_of_real ex_x1)
                 \<noteq> axpy (still 4) (complex_of_real ex_step0) (still (- 60))"
    by (simp add: still_axpy still_inject ex_x1_def)
  have f: "tv_update_old (snd (TotalVariationRecon_NLCG_body ex_measurement 1 0
                                  (TotalVariationRecon_NLCG_start ex_measurement 2)))
             = still (complex_of_real ex_dir0)"
    using TotalVariationRecon_NLCG_first_direction(1)
      [of ex_measurement 1 "TotalVariationRecon_NLCG_start ex_measurement 2" "still (- 60)"]
    by (simp only: ex_function_start ex_gradient ex_first_direction)
  show ?thesis
    using x ex_dir0_differs
    by (simp add: ex_iteration0 ex_vars1_def ex_solver_fields ex_gradient f ex_function_start
        still_inject)
qed

section \<open>The cost trace\<close>

lemma NLCG_cost_after_bracketing:
  assumes "NLCG_run_body n v = (Next, v')"
    and "NLCG_run_body (Suc n) v' = (Next, v'')"
    and "NLCG_line_search_breaks (rv_self v) (self_x (rv_self v)) (rv_f_old v')
           (NLCG_total_cost (rv_self v) (self_x (rv_self v))) (rv_step_size v) 15 (13 / 10) (8 / 10)"
  shows "last (rv_cost v'') < last (rv_cost v')"
proof -
  let ?c0 = "NLCG_total_cost (rv_self v) (self_x (rv_self v))"
  obtain g where s: "rv_step_size v' = NLCG_line_search (rv_self v) (self_x (rv_self v)) (rv_f_old v')
                        ?c0 (rv_step_size v) 15 (13 / 10) (8 / 10)"
    and x: "rv_self v' = (rv_self v)\<lparr>self_x := axpy (self_x (rv_self v))
                                     (complex_of_real (rv_step_size v')) (rv_f_old v')\<rparr>"
    and c1: "rv_cost v' = rv_cost v @ [?c0]"
    using assms(1) by (rule NLCG_run_body_cases) simp_all
  obtain g' where c2: "rv_cost v'' = rv_cost v' @ [NLCG_total_cost (rv_self v') (self_x (rv_self v'))]"
    using assms(2) by (rule NLCG_run_body_cases) simp_all
  have "NLCG_total_cost (rv_self v)
          (axpy (self_x (rv_self v)) (complex_of_real (rv_step_size v')) (rv_f_old v')) < ?c0"
    unfolding s NLCG_line_search_def
    using assms(3) unfolding NLCG_line_search_breaks_def
    by (intro ls_breaks_improves) simp_all
  then show ?thesis
    by (simp add: c1 c2 x self_x_irrelevant)
qed

lemma TotalVariationRecon_NLCG_cost_after_bracketing:
  assumes "TotalVariationRecon_NLCG_body m lambda_t n w = (Next, w')"
    and "TotalVariationRecon_NLCG_body m lambda_t (Suc n) w' = (sig, w'')"
    and "sig = Next \<or> sig = Break"
    and "Suc n < length (tv_cost w)"
    and "line_search_breaks (tv_img w) (tv_update_old w') m (tv_step_size w)
           (total_cost m lambda_t (tv_img w)) lambda_t"
  shows "tv_cost w'' ! Suc n < tv_cost w'' ! n"
proof -
  let ?c0 = "total_cost m lambda_t (tv_img w)"
  obtain g where s: "tv_step_size w' = line_search (tv_img w) (tv_update_old w') m (tv_step_size w)
                        ?c0 lambda_t"
    and x: "tv_img w' = axpy (tv_img w) (complex_of_real (tv_step_size w')) (tv_update_old w')"
    and c1: "tv_cost w' = (tv_cost w)[n := ?c0]"
    using assms(1) by (rule TotalVariationRecon_NLCG_body_cases) simp_all
  obtain g' where c2: "tv_cost w'' = (tv_cost w')[Suc n := total_cost m lambda_t (tv_img w')]"
    using assms(2,3) by (rule TotalVariationRecon_NLCG_body_cases) simp_all
  have "total_cost m lambda_t
          (axpy (tv_img w) (complex_of_real (tv_step_size w')) (tv_update_old w')) < ?c0"
    unfolding s line_search_def Let_def
    using assms(5) unfolding line_search_breaks_def Let_def
    by (intro ls_breaks_improves) simp_all
  then show ?thesis
    using assms(4) by (simp add: c1 c2 x)
qed

text \<open>
  Claim C3, as amended. Take two consecutive iterations \<open>n\<close> and \<open>n + 1\<close> that both
  record their cost. If the line search of iteration \<open>n\<close> was left by its
  \<^verbatim>\<open>break\<close> (a candidate worse than the best one seen, after an improvement), the
  total cost recorded for iteration \<open>n + 1\<close> is below the one recorded for iteration
  \<open>n\<close>. When the search uses up its 15 sub-iterations the claim gives no bound.
\<close>

theorem cost_decreases_after_bracketing:
  "(NLCG_run_body n v = (Next, v') \<and> NLCG_run_body (Suc n) v' = (Next, v'')
    \<and> NLCG_line_search_breaks (rv_self v) (self_x (rv_self v)) (rv_f_old v')
         (NLCG_total_cost (rv_self v) (self_x (rv_self v))) (rv_step_size v) 15 (13 / 10) (8 / 10)
    \<longrightarrow> last (rv_cost v'') < last (rv_cost v'))
   \<and> (TotalVariationRecon_NLCG_body m lambda_t n w = (Next, w')
      \<and> TotalVariationRecon_NLCG_body m lambda_t (Suc n) w' = (sig, w'')
      \<and> (sig = Next \<or> sig = Break) \<and> Suc n < length (tv_cost w)
      \<and> line_search_breaks (tv_img w) (tv_update_old w') m (tv_step_size w)
           (total_cost m lambda_t (tv_img w)) lambda_t
      \<longrightarrow> tv_cost w'' ! Suc n < tv_cost w'' ! n)"
  using NLCG_cost_after_bracketing [of n v v' v'']
    TotalVariationRecon_NLCG_cost_after_bracketing [of m lambda_t n w w' sig w'']
  by blast

text \<open>
  The theorem at the first two passes of the gentle solver, whose first line search
  improves at the step 2 and brackets at the step 2.6.
\<close>

theorem cost_decreases_after_bracketing_witness:
  "NLCG_run_body 0 (NLCG_run_start ex_gentle) = (Next, ex_gentle_vars1)
   \<and> NLCG_run_body 1 ex_gentle_vars1 = (Next, ex_gentle_vars2)
   \<and> NLCG_line_search_breaks ex_gentle (still (1 / 2)) (rv_f_old ex_gentle_vars1)
        (9 / 16) 2 15 (13 / 10) (8 / 10)
   \<and> last (rv_cost ex_gentle_vars2) < last (rv_cost ex_gentle_vars1)
   \<and> TotalVariationRecon_NLCG_body (scalar_measurement (1 / 2)) 1 0 ex_gentle_start = (Next, ex_gentle_tv1)
   \<and> TotalVariationRecon_NLCG_body (scalar_measurement (1 / 2)) 1 1 ex_gentle_tv1 = (Next, ex_gentle_tv2)
   \<and> line_search_breaks (still (1 / 2)) (tv_update_old ex_gentle_tv1)
        (scalar_measurement (1 / 2)) 2 (9 / 16) 1
   \<and> tv_cost ex_gentle_tv2 ! 1 < tv_cost ex_gentle_tv2 ! 0"
proof -
  note c = gentle_class_run
  note f = gentle_function_run
  have bc: "NLCG_line_search_breaks ex_gentle (still (1 / 2)) (rv_f_old ex_gentle_vars1)
              (9 / 16) 2 15 (13 / 10) (8 / 10)"
    unfolding c(3) by (rule ex_gentle_brackets)
  have bf: "line_search_breaks (still (1 / 2)) (tv_update_old ex_gentle_tv1)
              (scalar_measurement (1 / 2)) 2 (9 / 16) 1"
    unfolding f(3) by (rule gentle_measurement_brackets)
  have "last (rv_cost ex_gentle_vars2) < last (rv_cost ex_gentle_vars1)
        \<and> tv_cost ex_gentle_tv2 ! Suc 0 < tv_cost ex_gentle_tv2 ! 0"
    using cost_decreases_after_bracketing [of 0 "NLCG_run_start ex_gentle" ex_gentle_vars1
        ex_gentle_vars2 "scalar_measurement (1 / 2)" 1 ex_gentle_start ex_gentle_tv1 Next ex_gentle_tv2]
      c(1,2) f(1,2) bc bf
    by (simp add: c(4-7) f(4-7))
  then show ?thesis
    using c(1,2) f(1,2) bc bf by simp
qed

text \<open>
  Claim C3 as stated fails for the solver with the factor 4: in both of its iterations
  all 15 candidates of the line search are worse, the shrunk step is accepted, and the
  recorded total cost goes from 225 to more than 350.
\<close>

theorem cost_trace_increases:
  "length (returned_cost (fst (NLCG_run ex_solver))) = 2
   \<and> returned_cost (fst (NLCG_run ex_solver)) ! 0 = 225
   \<and> 350 < returned_cost (fst (NLCG_run ex_solver)) ! 1"
  using ex_cost1_bound by (simp add: ex_run returned_cost_def)

section \<open>Two runs of the function variant\<close>

text \<open>
  One pass of the function variant on the scalar data, and its line search when the
  direction points uphill, when every candidate overshoots, and when eleven candidates
  in a row improve before the twelfth is worse.
\<close>

lemma scalar_along:
  "total_cost (scalar_measurement c) lambda_t
     (axpy (still (complex_of_real t)) (complex_of_real s) (still (complex_of_real p)))
     = (1 - c * (t + s * p))\<^sup>2"
  by (simp only: ex_axpy scalar_cost_real)

lemma scalar_fnorm_fn:
  "snd (fidelity_update (still (complex_of_real t)) (scalar_measurement c)) = (1 - c * t)\<^sup>2"
  by (simp only: scalar_fidelity_update snd_conv cmod_affine power2_abs)

lemma scalar_function_pass:
  assumes img: "tv_img w = still (complex_of_real t)"
    and old: "0 < iter \<Longrightarrow> tv_update_old w = still (complex_of_real dp)"
    and g: "g = c * (1 - c * t)"
    and dold: "dold = (if iter = 0 then g else dp)"
    and beta: "beta = 8 * g\<^sup>2 / (8 * dold\<^sup>2 + eps)"
    and p: "p = g + beta * dold"
    and s: "s = line_search (still (complex_of_real t)) (still (complex_of_real p))
                  (scalar_measurement c) (tv_step_size w) ((1 - c * t)\<^sup>2) 1"
  shows "fst (TotalVariationRecon_NLCG_body (scalar_measurement c) 1 iter w)
           = (if s < 1 / 10000 then Break else Next)"
    and "tv_img (snd (TotalVariationRecon_NLCG_body (scalar_measurement c) 1 iter w))
           = still (complex_of_real (t + s * p))"
    and "tv_update_old (snd (TotalVariationRecon_NLCG_body (scalar_measurement c) 1 iter w))
           = still (complex_of_real p)"
    and "tv_step_size (snd (TotalVariationRecon_NLCG_body (scalar_measurement c) 1 iter w)) = s"
proof -
  let ?m = "scalar_measurement c"
  let ?g = "still (complex_of_real g)"
  have o: "(if iter = 0 then ?g else tv_update_old w) = still (complex_of_real dold)"
    using old dold by simp
  have ttv: "temporal_tv_update (tv_img w) = Inr (still 0)"
    by (simp add: img temporal_still)
  have gg: "?g = axpy (fst (fidelity_update (tv_img w) ?m)) (complex_of_real 1) (still 0)"
    by (simp add: img scalar_fidelity_real still_axpy g)
  have "complex_of_real beta
          = complex_of_real (8 * g\<^sup>2) / (complex_of_real (8 * dold\<^sup>2) + complex_of_real eps)"
    unfolding beta by (simp only: of_real_divide of_real_add)
  then have bb: "complex_of_real beta
          = vdot ?g ?g / (vdot (if iter = 0 then ?g else tv_update_old w)
                               (if iter = 0 then ?g else tv_update_old w) + complex_of_real eps)"
    by (simp only: o still_vdot_real)
  have dd: "still (complex_of_real p)
              = axpy ?g (complex_of_real beta) (if iter = 0 then ?g else tv_update_old w)"
    unfolding o by (simp add: still_axpy p)
  have fn: "(1 - c * t)\<^sup>2 = snd (fidelity_update (tv_img w) ?m)"
    by (simp only: img scalar_fnorm_fn)
  have tn: "0 = calculate_tnorm (tv_img w) 1"
    by (simp add: img still_tnorm)
  have ls: "s = line_search (tv_img w) (still (complex_of_real p)) ?m (tv_step_size w)
                  ((1 - c * t)\<^sup>2 + 0) 1"
    by (simp add: s img)
  note eq = TotalVariationRecon_NLCG_body_eq [OF ttv gg bb dd fn tn ls refl]
  show "fst (TotalVariationRecon_NLCG_body ?m 1 iter w) = (if s < 1 / 10000 then Break else Next)"
    unfolding eq by simp
  show "tv_img (snd (TotalVariationRecon_NLCG_body ?m 1 iter w)) = still (complex_of_real (t + s * p))"
    unfolding eq by (simp add: img still_axpy)
  show "tv_update_old (snd (TotalVariationRecon_NLCG_body ?m 1 iter w)) = still (complex_of_real p)"
    unfolding eq by simp
  show "tv_step_size (snd (TotalVariationRecon_NLCG_body ?m 1 iter w)) = s"
    unfolding eq by simp
qed

lemma scalar_search_ascent:
  assumes "0 < s" and "c * p * (1 - c * t) < 0"
  shows "line_search (still (complex_of_real t)) (still (complex_of_real p))
           (scalar_measurement c) s ((1 - c * t)\<^sup>2) 1 = s * (8 / 10) ^ 15"
  unfolding line_search_def Let_def
proof (rule ls_loop_all_worse)
  fix i :: nat
  define u where "u = s * (8 / 10) ^ i"
  define v where "v = c * (u * p)"
  have "0 < u"
    using assms(1) by (simp add: u_def)
  then have "u * (c * p * (1 - c * t)) < 0"
    using assms(2) by (simp add: mult_pos_neg)
  then have "v * (1 - c * t) < 0"
    by (simp add: v_def mult.assoc mult.left_commute)
  moreover have "0 \<le> v * v"
    by simp
  moreover have "(1 - c * (t + u * p))\<^sup>2 - (1 - c * t)\<^sup>2 = v * v - 2 * (v * (1 - c * t))"
    by (simp add: v_def power2_eq_square algebra_simps)
  ultimately have "(1 - c * t)\<^sup>2 < (1 - c * (t + u * p))\<^sup>2"
    by linarith
  then show "(1 - c * t)\<^sup>2
          < total_cost (scalar_measurement c) 1
              (axpy (still (complex_of_real t)) (complex_of_real (s * (8 / 10) ^ i))
                 (still (complex_of_real p)))"
    by (simp only: scalar_along u_def)
qed

lemma scalar_search_overshoot:
  assumes "0 < s" and "1 - c * t < 0" and "s * (8 / 10) ^ 14 * (c * p) < 2 * (1 - c * t)"
  shows "line_search (still (complex_of_real t)) (still (complex_of_real p))
           (scalar_measurement c) s ((1 - c * t)\<^sup>2) 1 = s * (8 / 10) ^ 15"
  unfolding line_search_def Let_def
proof (rule ls_loop_all_worse)
  fix i :: nat
  assume "i < 15"
  define u where "u = s * (8 / 10) ^ i"
  define v where "v = u * (c * p)"
  have "(8 / 10 :: real) ^ 14 \<le> (8 / 10) ^ i"
    using \<open>i < 15\<close> by (intro power_decreasing) simp_all
  then have u: "s * (8 / 10) ^ 14 \<le> u"
    using assms(1) by (simp add: u_def)
  have "0 < s * (8 / 10 :: real) ^ 14"
    using assms(1) by simp
  then have neg: "c * p < 0"
    using assms(2,3) by (smt (verit) mult_nonneg_nonneg)
  have "v \<le> s * (8 / 10) ^ 14 * (c * p)"
    unfolding v_def using u neg by (intro mult_right_mono_neg) simp_all
  then have "v < 2 * (1 - c * t)"
    using assms(3) by linarith
  then have "2 * - (1 - c * t) < - v" and "0 < - v"
    using assms(2) by simp_all
  then have "(- (1 - c * t))\<^sup>2 < (- (1 - c * t) - (- v))\<^sup>2"
    by (rule worse_when_overshooting)
  moreover have "- (1 - c * t) - (- v) = - (1 - c * (t + u * p))"
    by (simp add: v_def algebra_simps)
  ultimately have "(1 - c * t)\<^sup>2 < (1 - c * (t + u * p))\<^sup>2"
    by (simp only: power2_minus)
  then show "(1 - c * t)\<^sup>2
          < total_cost (scalar_measurement c) 1
              (axpy (still (complex_of_real t)) (complex_of_real (s * (8 / 10) ^ i))
                 (still (complex_of_real p)))"
    by (simp only: scalar_along u_def)
qed

lemma improving_step:
  fixes r w :: real
  shows "(r - w)\<^sup>2 - (r - 13 / 10 * w)\<^sup>2 = 3 / 10 * w * (2 * r - 23 / 10 * w)"
  by (simp add: power2_eq_square algebra_simps)

lemma scalar_search_improving:
  assumes "0 < s" and "0 < c * p"
    and "s * (13 / 10) ^ 9 * (23 / 10) * (c * p) < 2 * (1 - c * t)"
    and "2 * (1 - c * t) < s * (13 / 10) ^ 10 * (23 / 10) * (c * p)"
  shows "line_search (still (complex_of_real t)) (still (complex_of_real p))
           (scalar_measurement c) s ((1 - c * t)\<^sup>2) 1 = s * (13 / 10) ^ 11 / (13 / 10)"
proof -
  define r where "r = 1 - c * t"
  define m where "m = c * p"
  have cost: "total_cost (scalar_measurement c) 1
                (axpy (still (complex_of_real t)) (complex_of_real u) (still (complex_of_real p)))
              = (r - u * m)\<^sup>2" for u
    unfolding scalar_along r_def m_def by (simp add: algebra_simps)
  have sm: "0 < s * m"
    using assms(1,2) by (simp add: m_def)
  have step: "(r - s * (13 / 10) ^ Suc k * m)\<^sup>2 < (r - s * (13 / 10) ^ k * m)\<^sup>2"
    if "k < 10" for k
  proof -
    define w where "w = s * (13 / 10) ^ k * m"
    have "(13 / 10 :: real) ^ k \<le> (13 / 10) ^ 9"
      using that by (intro power_increasing) simp_all
    then have "s * (13 / 10) ^ k \<le> s * (13 / 10) ^ 9"
      using assms(1) by (intro mult_left_mono) simp_all
    then have "s * (13 / 10) ^ k * m \<le> s * (13 / 10) ^ 9 * m"
      using assms(2) by (intro mult_right_mono) (simp_all add: m_def)
    moreover have "s * (13 / 10) ^ 9 * (23 / 10) * m = 23 / 10 * (s * (13 / 10) ^ 9 * m)"
      by simp
    moreover have "s * (13 / 10) ^ 9 * (23 / 10) * m < 2 * r"
      using assms(3) by (simp only: r_def m_def)
    ultimately have "0 < 2 * r - 23 / 10 * w"
      unfolding w_def by linarith
    moreover have "0 < s * (13 / 10) ^ k * m"
      using assms(1,2) by (intro mult_pos_pos) (simp_all add: m_def)
    then have "0 < w"
      by (simp only: w_def)
    ultimately have "0 < 3 / 10 * w * (2 * r - 23 / 10 * w)"
      by simp
    then have "(r - 13 / 10 * w)\<^sup>2 < (r - w)\<^sup>2"
      using improving_step [of r w] by linarith
    moreover have "s * (13 / 10) ^ Suc k * m = 13 / 10 * w"
      by (simp add: w_def)
    ultimately show ?thesis
      by (simp only: w_def)
  qed
  have first: "(r - s * m)\<^sup>2 < r\<^sup>2"
  proof -
    have "(1 :: real) \<le> (13 / 10) ^ 9 * (23 / 10)"
      by (simp add: power_divide)
    then have "1 * (s * m) \<le> (13 / 10) ^ 9 * (23 / 10) * (s * m)"
      using sm by (intro mult_right_mono) simp_all
    moreover have "(13 / 10) ^ 9 * (23 / 10) * (s * m) = s * (13 / 10) ^ 9 * (23 / 10) * m"
      by simp
    moreover have "s * (13 / 10) ^ 9 * (23 / 10) * m < 2 * r"
      using assms(3) by (simp only: r_def m_def)
    ultimately have "s * m < 2 * r"
      by linarith
    then have "0 < s * m * (2 * r - s * m)"
      using sm by simp
    moreover have "r\<^sup>2 - (r - s * m)\<^sup>2 = s * m * (2 * r - s * m)"
      by (simp add: power2_eq_square algebra_simps)
    ultimately show ?thesis
      by linarith
  qed
  have last: "(r - s * (13 / 10) ^ 10 * m)\<^sup>2 < (r - s * (13 / 10) ^ Suc 10 * m)\<^sup>2"
  proof -
    define w where "w = s * (13 / 10) ^ 10 * m"
    have "0 < s * (13 / 10) ^ 10 * m"
      using assms(1,2) by (intro mult_pos_pos) (simp_all add: m_def)
    then have "0 < w"
      by (simp only: w_def)
    moreover have "s * (13 / 10) ^ 10 * (23 / 10) * m = 23 / 10 * w"
      by (simp add: w_def)
    moreover have "2 * r < s * (13 / 10) ^ 10 * (23 / 10) * m"
      using assms(4) by (simp only: r_def m_def)
    ultimately have "0 < w" and "2 * r - 23 / 10 * w < 0"
      by linarith+
    then have "3 / 10 * w * (2 * r - 23 / 10 * w) < 0"
      by (simp add: mult_pos_neg)
    then have "(r - w)\<^sup>2 < (r - 13 / 10 * w)\<^sup>2"
      using improving_step [of r w] by linarith
    moreover have "s * (13 / 10) ^ Suc 10 * m = 13 / 10 * w"
      by (simp only: w_def power_Suc ac_simps)
    ultimately show ?thesis
      by (simp only: w_def)
  qed
  have "ls_loop (total_cost (scalar_measurement c) 1) (still (complex_of_real t))
          (still (complex_of_real p)) (13 / 10) (8 / 10) 15 (s, r\<^sup>2, False)
        = s * (13 / 10) ^ Suc 10 / (13 / 10)"
  proof (rule ls_loop_improving)
    show "total_cost (scalar_measurement c) 1
            (axpy (still (complex_of_real t)) (complex_of_real s) (still (complex_of_real p)))
          < r\<^sup>2"
      unfolding cost by (rule first)
    show "total_cost (scalar_measurement c) 1
            (axpy (still (complex_of_real t)) (complex_of_real (s * (13 / 10) ^ Suc k))
               (still (complex_of_real p)))
          < total_cost (scalar_measurement c) 1
              (axpy (still (complex_of_real t)) (complex_of_real (s * (13 / 10) ^ k))
                 (still (complex_of_real p)))" if "k < 10" for k
      unfolding cost by (rule step [OF that])
    show "total_cost (scalar_measurement c) 1
            (axpy (still (complex_of_real t)) (complex_of_real (s * (13 / 10) ^ 10))
               (still (complex_of_real p)))
          < total_cost (scalar_measurement c) 1
              (axpy (still (complex_of_real t)) (complex_of_real (s * (13 / 10) ^ Suc 10))
                 (still (complex_of_real p)))"
      unfolding cost by (rule last)
    show "Suc 10 < (15 :: nat)"
      by simp
  qed
  then show ?thesis
    unfolding line_search_def Let_def r_def by simp
qed

text \<open>
  Bounds for the new direction \<open>g + \<beta> d\<close> from bounds for a negative gradient \<open>g\<close> and
  a positive previous direction \<open>d\<close>.
\<close>

lemma eps_bounds: "0 < eps" "eps \<le> 1 / 10 ^ 15"
  by (simp_all add: eps_def)

lemma direction_bounds:
  fixes g dp :: real
  assumes g: "gl < g" "g < gh" "gh \<le> 0" and d: "dl < dp" "dp < dh" "0 < dl"
    and b: "0 \<le> bl" "0 \<le> bh"
    and lo: "bl * (8 * dh\<^sup>2 + 1 / 10 ^ 15) \<le> 8 * gh\<^sup>2"
    and hi: "8 * gl\<^sup>2 \<le> bh * (8 * dl\<^sup>2)"
  shows "gl + bl * dl < g + 8 * g\<^sup>2 / (8 * dp\<^sup>2 + eps) * dp"
    and "g + 8 * g\<^sup>2 / (8 * dp\<^sup>2 + eps) * dp < gh + bh * dh"
proof -
  define beta where "beta = 8 * g\<^sup>2 / (8 * dp\<^sup>2 + eps)"
  have "(- gh)\<^sup>2 < (- g)\<^sup>2" "(- g)\<^sup>2 < (- gl)\<^sup>2"
    using g by (intro power_strict_mono; simp)+
  then have g2: "gh\<^sup>2 < g\<^sup>2" "g\<^sup>2 < gl\<^sup>2"
    by (simp_all only: power2_minus)
  have d2: "dl\<^sup>2 < dp\<^sup>2" "dp\<^sup>2 < dh\<^sup>2"
    using d by (intro power_strict_mono; simp)+
  have pos: "0 < 8 * dp\<^sup>2 + eps"
    using eps_bounds(1) by (simp add: add_nonneg_pos)
  have "bl * (8 * dp\<^sup>2 + eps) \<le> bl * (8 * dh\<^sup>2 + 1 / 10 ^ 15)"
    using b(1) d2(2) eps_bounds(2) by (intro mult_left_mono) simp_all
  then have "bl * (8 * dp\<^sup>2 + eps) < 8 * g\<^sup>2"
    using lo g2(1) by linarith
  then have bl: "bl < beta"
    unfolding beta_def using pos by (simp only: pos_less_divide_eq)
  have "bh * (8 * dl\<^sup>2) \<le> bh * (8 * dp\<^sup>2 + eps)"
    using b(2) d2(1) eps_bounds(1) by (intro mult_left_mono) simp_all
  then have "8 * g\<^sup>2 < bh * (8 * dp\<^sup>2 + eps)"
    using hi g2(2) by linarith
  then have bh: "beta < bh"
    unfolding beta_def using pos by (simp only: pos_divide_less_eq)
  have dpos: "0 < dp"
    using d by linarith
  have "bl * dl \<le> bl * dp"
    using b(1) d(1) by (intro mult_left_mono) simp_all
  moreover have "bl * dp < beta * dp"
    using bl dpos by (simp only: mult_strict_right_mono)
  moreover have "beta * dp < bh * dp"
    using bh dpos by (simp only: mult_strict_right_mono)
  moreover have "bh * dp \<le> bh * dh"
    using b(2) d(2) by (intro mult_left_mono) simp_all
  ultimately have "gl + bl * dl < g + beta * dp" "g + beta * dp < gh + bh * dh"
    using g by linarith+
  then show "gl + bl * dl < g + 8 * g\<^sup>2 / (8 * dp\<^sup>2 + eps) * dp"
    and "g + 8 * g\<^sup>2 / (8 * dp\<^sup>2 + eps) * dp < gh + bh * dh"
    by (simp_all only: beta_def)
qed

text \<open>The run with the factor 4.5325, pass by pass.\<close>

lemma slow_start:
  "tv_img ex_slow_start = still (complex_of_real (45325 / 10000))"
  "tv_step_size ex_slow_start = 2"
  "length (tv_cost ex_slow_start) = 5"
  using scalar_start [of "45325 / 10000" 5] by (simp_all only: ex_slow_start_def ex_slow_def)

lemma slow_pass0:
  obtains t1 p0 where "fst (TotalVariationRecon_NLCG_body ex_slow 1 0 ex_slow_start) = Next"
    and "tv_img ex_slow_tv1 = still (complex_of_real t1)"
    and "tv_update_old ex_slow_tv1 = still (complex_of_real p0)"
    and "tv_step_size ex_slow_tv1 = 2 * (8 / 10) ^ 15"
    and "- 7934192 / 1000000 < t1" and "t1 < - 7934184 / 1000000"
    and "- 17716234 / 100000 < p0" and "p0 < - 17716224 / 100000"
proof -
  define c :: real where "c = 45325 / 10000"
  define g where "g = c * (1 - c * c)"
  define beta where "beta = 8 * g\<^sup>2 / (8 * g\<^sup>2 + eps)"
  define p where "p = g + beta * g"
  define s where "s = line_search (still (complex_of_real c)) (still (complex_of_real p))
                        (scalar_measurement c) (tv_step_size ex_slow_start) ((1 - c * c)\<^sup>2) 1"
  have m: "ex_slow = scalar_measurement c"
    by (simp only: ex_slow_def c_def)
  have img: "tv_img ex_slow_start = still (complex_of_real c)"
    by (simp only: slow_start c_def)
  have gv: "g = - 5669194797 / 64000000"
    by (simp add: g_def c_def)
  have g2: "1 \<le> 8 * g\<^sup>2"
    by (simp add: gv power2_eq_square)
  have pos: "0 < 8 * g\<^sup>2 + eps"
    using g2 eps_bounds(1) by linarith
  have "999999 / 1000000 * (8 * g\<^sup>2 + eps) < 8 * g\<^sup>2"
    using g2 eps_bounds(2) by simp
  then have bl: "999999 / 1000000 < beta"
    unfolding beta_def using pos by (simp only: pos_less_divide_eq)
  have "8 * g\<^sup>2 < 1 * (8 * g\<^sup>2 + eps)"
    using eps_bounds(1) by simp
  then have bh: "beta < 1"
    unfolding beta_def using pos by (simp only: pos_divide_less_eq)
  have "beta * (- g) < 1 * (- g)" "999999 / 1000000 * (- g) < beta * (- g)"
    using bl bh by (intro mult_strict_right_mono; simp add: gv)+
  then have pb: "- 17716234 / 100000 < p" "p < - 17716224 / 100000"
    by (simp_all add: p_def gv)
  have "s = tv_step_size ex_slow_start * (8 / 10) ^ 15"
    unfolding s_def
    by (rule scalar_search_overshoot) (use pb in \<open>simp_all add: slow_start c_def power_divide\<close>)
  then have sv: "s = 2 * (8 / 10) ^ 15"
    by (simp only: slow_start)
  note pass = scalar_function_pass [where w = ex_slow_start and iter = 0 and c = c and t = c
      and g = g and dold = g and beta = beta and p = p and s = s and dp = 0,
      OF img _ _ _ beta_def p_def s_def, folded m]
  have nb: "\<not> s < 1 / 10000"
    by (simp add: sv power_divide)
  show ?thesis
  proof (rule that [of "c + s * p" p])
    show "fst (TotalVariationRecon_NLCG_body ex_slow 1 0 ex_slow_start) = Next"
      using pass(1) nb by (simp add: g_def)
    show "tv_img ex_slow_tv1 = still (complex_of_real (c + s * p))"
      using pass(2) by (simp add: g_def ex_slow_tv1_def)
    show "tv_update_old ex_slow_tv1 = still (complex_of_real p)"
      using pass(3) by (simp add: g_def ex_slow_tv1_def)
    show "tv_step_size ex_slow_tv1 = 2 * (8 / 10) ^ 15"
      using pass(4) by (simp add: g_def sv ex_slow_tv1_def)
    show "- 7934192 / 1000000 < c + s * p" "c + s * p < - 7934184 / 1000000"
      using pb by (simp_all add: sv c_def power_divide)
    show "- 17716234 / 100000 < p" "p < - 17716224 / 100000"
      by (rule pb)+
  qed
qed

lemma slow_pass1:
  obtains t2 p1 where "fst (TotalVariationRecon_NLCG_body ex_slow 1 1 ex_slow_tv1) = Next"
    and "tv_img ex_slow_tv2 = still (complex_of_real t2)"
    and "tv_update_old ex_slow_tv2 = still (complex_of_real p1)"
    and "tv_step_size ex_slow_tv2 = 2 * (8 / 10) ^ 15 * (13 / 10) ^ 11 / (13 / 10)"
    and "90219 / 100000 < t2" and "t2 < 90346 / 100000"
    and "91088 / 10000 < p1" and "p1 < 91101 / 10000"
proof -
  obtain t p0 where img: "tv_img ex_slow_tv1 = still (complex_of_real t)"
    and old: "tv_update_old ex_slow_tv1 = still (complex_of_real p0)"
    and step: "tv_step_size ex_slow_tv1 = 2 * (8 / 10) ^ 15"
    and tb: "- 7934192 / 1000000 < t" "t < - 7934184 / 1000000"
    and ob: "- 17716234 / 100000 < p0" "p0 < - 17716224 / 100000"
    by (rule slow_pass0)
  define c :: real where "c = 45325 / 10000"
  define g where "g = c * (1 - c * t)"
  define beta where "beta = 8 * g\<^sup>2 / (8 * p0\<^sup>2 + eps)"
  define p where "p = g + beta * p0"
  define s where "s = line_search (still (complex_of_real t)) (still (complex_of_real p))
                        (scalar_measurement c) (tv_step_size ex_slow_tv1) ((1 - c * t)\<^sup>2) 1"
  have m: "ex_slow = scalar_measurement c"
    by (simp only: ex_slow_def c_def)
  have gb: "1675288 / 10000 < g" "g < 1675291 / 10000"
    using tb by (simp_all add: g_def c_def)
  note db = direction_bounds [where g = "- g" and dp = "- p0"
      and gl = "- (1675291 / 10000)" and gh = "- (1675288 / 10000)"
      and dl = "17716224 / 100000" and dh = "17716234 / 100000"
      and bl = "894203 / 1000000" and bh = "894208 / 1000000"]
  have "- (1675291 / 10000) + 894203 / 1000000 * (17716224 / 100000)
          < - g + 8 * (- g)\<^sup>2 / (8 * (- p0)\<^sup>2 + eps) * (- p0)"
    by (rule db(1)) (use gb ob in \<open>simp_all add: power2_eq_square\<close>)
  moreover have "- g + 8 * (- g)\<^sup>2 / (8 * (- p0)\<^sup>2 + eps) * (- p0)
          < - (1675288 / 10000) + 894208 / 1000000 * (17716234 / 100000)"
    by (rule db(2)) (use gb ob in \<open>simp_all add: power2_eq_square\<close>)
  ultimately have pb: "91088 / 10000 < p" "p < 91101 / 10000"
    by (simp_all add: p_def beta_def)
  have "s = tv_step_size ex_slow_tv1 * (13 / 10) ^ 11 / (13 / 10)"
    unfolding s_def
    by (rule scalar_search_improving) (use pb tb in \<open>simp_all add: step c_def power_divide\<close>)
  then have sv: "s = 2 * (8 / 10) ^ 15 * (13 / 10) ^ 11 / (13 / 10)"
    by (simp only: step)
  note pass = scalar_function_pass [where w = ex_slow_tv1 and iter = 1 and c = c and t = t
      and g = g and dold = p0 and beta = beta and p = p and s = s and dp = p0,
      OF img old g_def _ beta_def p_def s_def, folded m]
  have nb: "\<not> s < 1 / 10000"
    by (simp add: sv power_divide)
  show ?thesis
  proof (rule that [of "t + s * p" p])
    show "fst (TotalVariationRecon_NLCG_body ex_slow 1 1 ex_slow_tv1) = Next"
      using pass(1) nb by simp
    show "tv_img ex_slow_tv2 = still (complex_of_real (t + s * p))"
      using pass(2) by (simp add: ex_slow_tv2_def)
    show "tv_update_old ex_slow_tv2 = still (complex_of_real p)"
      using pass(3) by (simp add: ex_slow_tv2_def)
    show "tv_step_size ex_slow_tv2 = 2 * (8 / 10) ^ 15 * (13 / 10) ^ 11 / (13 / 10)"
      using pass(4) by (simp add: sv ex_slow_tv2_def)
    show "90219 / 100000 < t + s * p" "t + s * p < 90346 / 100000"
      using pb tb by (simp_all add: sv power_divide)
    show "91088 / 10000 < p" "p < 91101 / 10000"
      by (rule pb)+
  qed
qed

lemma slow_pass2:
  obtains t3 p2 where "fst (TotalVariationRecon_NLCG_body ex_slow 1 2 ex_slow_tv2) = Next"
    and "tv_img ex_slow_tv3 = still (complex_of_real t3)"
    and "tv_update_old ex_slow_tv3 = still (complex_of_real p2)"
    and "tv_step_size ex_slow_tv3 = 2 * (8 / 10) ^ 15 * (13 / 10) ^ 11 / (13 / 10) * (8 / 10) ^ 15"
    and "11577 / 10000 < t3" and "t3 < 11631 / 10000"
    and "7488 / 1000 < p2" and "p2 < 7605 / 1000"
proof -
  obtain t p1 where img: "tv_img ex_slow_tv2 = still (complex_of_real t)"
    and old: "tv_update_old ex_slow_tv2 = still (complex_of_real p1)"
    and step: "tv_step_size ex_slow_tv2 = 2 * (8 / 10) ^ 15 * (13 / 10) ^ 11 / (13 / 10)"
    and tb: "90219 / 100000 < t" "t < 90346 / 100000"
    and ob: "91088 / 10000 < p1" "p1 < 91101 / 10000"
    by (rule slow_pass1)
  define c :: real where "c = 45325 / 10000"
  define g where "g = c * (1 - c * t)"
  define beta where "beta = 8 * g\<^sup>2 / (8 * p1\<^sup>2 + eps)"
  define p where "p = g + beta * p1"
  define s where "s = line_search (still (complex_of_real t)) (still (complex_of_real p))
                        (scalar_measurement c) (tv_step_size ex_slow_tv2) ((1 - c * t)\<^sup>2) 1"
  have m: "ex_slow = scalar_measurement c"
    by (simp only: ex_slow_def c_def)
  have gb: "- (140278 / 10000) < g" "g < - (140016 / 10000)"
    using tb by (simp_all add: g_def c_def)
  note db = direction_bounds [where g = g and dp = p1
      and gl = "- (140278 / 10000)" and gh = "- (140016 / 10000)"
      and dl = "91088 / 10000" and dh = "91101 / 10000"
      and bl = "23621 / 10000" and bh = "23717 / 10000"]
  have "- (140278 / 10000) + 23621 / 10000 * (91088 / 10000) < p"
    unfolding p_def beta_def
    by (rule db(1)) (use gb ob in \<open>simp_all add: power2_eq_square\<close>)
  moreover have "p < - (140016 / 10000) + 23717 / 10000 * (91101 / 10000)"
    unfolding p_def beta_def
    by (rule db(2)) (use gb ob in \<open>simp_all add: power2_eq_square\<close>)
  ultimately have pb: "7488 / 1000 < p" "p < 7605 / 1000"
    by simp_all
  have "0 < c * p" "1 - c * t < 0"
    using pb tb by (simp_all add: c_def)
  then have "c * p * (1 - c * t) < 0"
    by (rule mult_pos_neg)
  moreover have "0 < tv_step_size ex_slow_tv2"
    by (simp add: step)
  ultimately have "s = tv_step_size ex_slow_tv2 * (8 / 10) ^ 15"
    unfolding s_def by (intro scalar_search_ascent)
  then have sv: "s = 2 * (8 / 10) ^ 15 * (13 / 10) ^ 11 / (13 / 10) * (8 / 10) ^ 15"
    by (simp only: step)
  note pass = scalar_function_pass [where w = ex_slow_tv2 and iter = 2 and c = c and t = t
      and g = g and dold = p1 and beta = beta and p = p and s = s and dp = p1,
      OF img old g_def _ beta_def p_def s_def, folded m]
  have nb: "\<not> s < 1 / 10000"
    by (simp add: sv power_divide)
  show ?thesis
  proof (rule that [of "t + s * p" p])
    show "fst (TotalVariationRecon_NLCG_body ex_slow 1 2 ex_slow_tv2) = Next"
      using pass(1) nb by simp
    show "tv_img ex_slow_tv3 = still (complex_of_real (t + s * p))"
      using pass(2) by (simp add: ex_slow_tv3_def)
    show "tv_update_old ex_slow_tv3 = still (complex_of_real p)"
      using pass(3) by (simp add: ex_slow_tv3_def)
    show "tv_step_size ex_slow_tv3 = 2 * (8 / 10) ^ 15 * (13 / 10) ^ 11 / (13 / 10) * (8 / 10) ^ 15"
      using pass(4) by (simp add: sv ex_slow_tv3_def)
    show "11577 / 10000 < t + s * p" "t + s * p < 11631 / 10000"
      using pb tb by (simp_all add: sv power_divide)
    show "7488 / 1000 < p" "p < 7605 / 1000"
      by (rule pb)+
  qed
qed

lemma slow_pass3:
  shows "fst (TotalVariationRecon_NLCG_body ex_slow 1 3 ex_slow_tv3) = Next"
    and "tv_step_size ex_slow_tv4
           = 2 * (8 / 10) ^ 15 * (13 / 10) ^ 11 / (13 / 10) * (8 / 10) ^ 15 * (8 / 10) ^ 15"
    and "length (tv_img ex_slow_tv4) = 2"
proof -
  obtain t p2 where img: "tv_img ex_slow_tv3 = still (complex_of_real t)"
    and old: "tv_update_old ex_slow_tv3 = still (complex_of_real p2)"
    and step: "tv_step_size ex_slow_tv3 = 2 * (8 / 10) ^ 15 * (13 / 10) ^ 11 / (13 / 10) * (8 / 10) ^ 15"
    and tb: "11577 / 10000 < t" "t < 11631 / 10000"
    and ob: "7488 / 1000 < p2" "p2 < 7605 / 1000"
    by (rule slow_pass2)
  define c :: real where "c = 45325 / 10000"
  define g where "g = c * (1 - c * t)"
  define beta where "beta = 8 * g\<^sup>2 / (8 * p2\<^sup>2 + eps)"
  define p where "p = g + beta * p2"
  define s where "s = line_search (still (complex_of_real t)) (still (complex_of_real p))
                        (scalar_measurement c) (tv_step_size ex_slow_tv3) ((1 - c * t)\<^sup>2) 1"
  have m: "ex_slow = scalar_measurement c"
    by (simp only: ex_slow_def c_def)
  have gb: "- (19362 / 1000) < g" "g < - (19250 / 1000)"
    using tb by (simp_all add: g_def c_def)
  note db = direction_bounds [where g = g and dp = p2
      and gl = "- (19362 / 1000)" and gh = "- (19250 / 1000)"
      and dl = "7488 / 1000" and dh = "7605 / 1000"
      and bl = "6407 / 1000" and bh = "7"]
  have "- (19362 / 1000) + 6407 / 1000 * (7488 / 1000) < p"
    unfolding p_def beta_def
    by (rule db(1)) (use gb ob in \<open>simp_all add: power2_eq_square\<close>)
  then have pb: "28 < p"
    by simp
  have "0 < c * p" "1 - c * t < 0"
    using pb tb by (simp_all add: c_def)
  then have "c * p * (1 - c * t) < 0"
    by (rule mult_pos_neg)
  moreover have "0 < tv_step_size ex_slow_tv3"
    by (simp add: step)
  ultimately have "s = tv_step_size ex_slow_tv3 * (8 / 10) ^ 15"
    unfolding s_def by (intro scalar_search_ascent)
  then have sv: "s = 2 * (8 / 10) ^ 15 * (13 / 10) ^ 11 / (13 / 10) * (8 / 10) ^ 15 * (8 / 10) ^ 15"
    by (simp only: step)
  note pass = scalar_function_pass [where w = ex_slow_tv3 and iter = 3 and c = c and t = t
      and g = g and dold = p2 and beta = beta and p = p and s = s and dp = p2,
      OF img old g_def _ beta_def p_def s_def, folded m]
  have nb: "\<not> s < 1 / 10000"
    by (simp add: sv power_divide)
  show "fst (TotalVariationRecon_NLCG_body ex_slow 1 3 ex_slow_tv3) = Next"
    using pass(1) nb by simp
  show "tv_step_size ex_slow_tv4
          = 2 * (8 / 10) ^ 15 * (13 / 10) ^ 11 / (13 / 10) * (8 / 10) ^ 15 * (8 / 10) ^ 15"
    using pass(4) by (simp add: sv ex_slow_tv4_def)
  show "length (tv_img ex_slow_tv4) = 2"
    using pass(2) by (simp add: ex_slow_tv4_def still_length)
qed

lemma slow_run:
  shows "TotalVariationRecon_NLCG_body ex_slow 1 0 ex_slow_start = (Next, ex_slow_tv1)"
    and "TotalVariationRecon_NLCG_body ex_slow 1 1 ex_slow_tv1 = (Next, ex_slow_tv2)"
    and "TotalVariationRecon_NLCG_body ex_slow 1 2 ex_slow_tv2 = (Next, ex_slow_tv3)"
    and "TotalVariationRecon_NLCG_body ex_slow 1 3 ex_slow_tv3 = (Next, ex_slow_tv4)"
proof -
  have "fst (TotalVariationRecon_NLCG_body ex_slow 1 0 ex_slow_start) = Next"
    by (rule slow_pass0)
  then show "TotalVariationRecon_NLCG_body ex_slow 1 0 ex_slow_start = (Next, ex_slow_tv1)"
    by (simp add: ex_slow_tv1_def prod_eq_iff)
  have "fst (TotalVariationRecon_NLCG_body ex_slow 1 1 ex_slow_tv1) = Next"
    by (rule slow_pass1)
  then show "TotalVariationRecon_NLCG_body ex_slow 1 1 ex_slow_tv1 = (Next, ex_slow_tv2)"
    by (simp add: ex_slow_tv2_def prod_eq_iff)
  have "fst (TotalVariationRecon_NLCG_body ex_slow 1 2 ex_slow_tv2) = Next"
    by (rule slow_pass2)
  then show "TotalVariationRecon_NLCG_body ex_slow 1 2 ex_slow_tv2 = (Next, ex_slow_tv3)"
    by (simp add: ex_slow_tv3_def prod_eq_iff)
  show "TotalVariationRecon_NLCG_body ex_slow 1 3 ex_slow_tv3 = (Next, ex_slow_tv4)"
    using slow_pass3(1) by (simp add: ex_slow_tv4_def prod_eq_iff)
qed

text \<open>The run with the factor 5, pass by pass.\<close>

lemma fast_start:
  "tv_img ex_fast_start = still (complex_of_real 5)"
  "tv_step_size ex_fast_start = 2"
  using scalar_start [of 5 3] by (simp_all only: ex_fast_start_def ex_fast_def)

lemma fast_pass0:
  obtains t1 p0 where "fst (TotalVariationRecon_NLCG_body ex_fast 1 0 ex_fast_start) = Next"
    and "tv_img ex_fast_tv1 = still (complex_of_real t1)"
    and "tv_update_old ex_fast_tv1 = still (complex_of_real p0)"
    and "tv_step_size ex_fast_tv1 = 2 * (8 / 10) ^ 15"
    and "- 118885 / 10000 < t1" and "t1 < - 118884 / 10000"
    and "- 240 < p0" and "p0 < - 2399998 / 10000"
proof -
  define c :: real where "c = 5"
  define g where "g = c * (1 - c * c)"
  define beta where "beta = 8 * g\<^sup>2 / (8 * g\<^sup>2 + eps)"
  define p where "p = g + beta * g"
  define s where "s = line_search (still (complex_of_real c)) (still (complex_of_real p))
                        (scalar_measurement c) (tv_step_size ex_fast_start) ((1 - c * c)\<^sup>2) 1"
  have m: "ex_fast = scalar_measurement c"
    by (simp only: ex_fast_def c_def)
  have img: "tv_img ex_fast_start = still (complex_of_real c)"
    by (simp only: fast_start c_def)
  have gv: "g = - 120"
    by (simp add: g_def c_def)
  have g2: "1 \<le> 8 * g\<^sup>2"
    by (simp add: gv)
  have pos: "0 < 8 * g\<^sup>2 + eps"
    using g2 eps_bounds(1) by linarith
  have "999999 / 1000000 * (8 * g\<^sup>2 + eps) < 8 * g\<^sup>2"
    using g2 eps_bounds(2) by simp
  then have bl: "999999 / 1000000 < beta"
    unfolding beta_def using pos by (simp only: pos_less_divide_eq)
  have "8 * g\<^sup>2 < 1 * (8 * g\<^sup>2 + eps)"
    using eps_bounds(1) by simp
  then have bh: "beta < 1"
    unfolding beta_def using pos by (simp only: pos_divide_less_eq)
  have "beta * (- g) < 1 * (- g)" "999999 / 1000000 * (- g) < beta * (- g)"
    using bl bh by (intro mult_strict_right_mono; simp add: gv)+
  then have pb: "- 240 < p" "p < - 2399998 / 10000"
    by (simp_all add: p_def gv)
  have "s = tv_step_size ex_fast_start * (8 / 10) ^ 15"
    unfolding s_def
    by (rule scalar_search_overshoot) (use pb in \<open>simp_all add: fast_start c_def power_divide\<close>)
  then have sv: "s = 2 * (8 / 10) ^ 15"
    by (simp only: fast_start)
  note pass = scalar_function_pass [where w = ex_fast_start and iter = 0 and c = c and t = c
      and g = g and dold = g and beta = beta and p = p and s = s and dp = 0,
      OF img _ _ _ beta_def p_def s_def, folded m]
  have nb: "\<not> s < 1 / 10000"
    by (simp add: sv power_divide)
  show ?thesis
  proof (rule that [of "c + s * p" p])
    show "fst (TotalVariationRecon_NLCG_body ex_fast 1 0 ex_fast_start) = Next"
      using pass(1) nb by (simp add: g_def)
    show "tv_img ex_fast_tv1 = still (complex_of_real (c + s * p))"
      using pass(2) by (simp add: g_def ex_fast_tv1_def)
    show "tv_update_old ex_fast_tv1 = still (complex_of_real p)"
      using pass(3) by (simp add: g_def ex_fast_tv1_def)
    show "tv_step_size ex_fast_tv1 = 2 * (8 / 10) ^ 15"
      using pass(4) by (simp add: g_def sv ex_fast_tv1_def)
    show "- 118885 / 10000 < c + s * p" "c + s * p < - 118884 / 10000"
      using pb by (simp_all add: sv c_def power_divide)
    show "- 240 < p" "p < - 2399998 / 10000"
      by (rule pb)+
  qed
qed

lemma fast_pass1:
  obtains t2 p1 where "fst (TotalVariationRecon_NLCG_body ex_fast 1 1 ex_fast_tv1) = Next"
    and "tv_img ex_fast_tv2 = still (complex_of_real t2)"
    and "tv_update_old ex_fast_tv2 = still (complex_of_real p1)"
    and "tv_step_size ex_fast_tv2 = 2 * (8 / 10) ^ 15 * (8 / 10) ^ 15"
    and "- 12083 / 1000 < t2" and "t2 < - 12081 / 1000"
    and "- 785 / 10 < p1" and "p1 < - 781 / 10"
proof -
  obtain t p0 where img: "tv_img ex_fast_tv1 = still (complex_of_real t)"
    and old: "tv_update_old ex_fast_tv1 = still (complex_of_real p0)"
    and step: "tv_step_size ex_fast_tv1 = 2 * (8 / 10) ^ 15"
    and tb: "- 118885 / 10000 < t" "t < - 118884 / 10000"
    and ob: "- 240 < p0" "p0 < - 2399998 / 10000"
    by (rule fast_pass0)
  define c :: real where "c = 5"
  define g where "g = c * (1 - c * t)"
  define beta where "beta = 8 * g\<^sup>2 / (8 * p0\<^sup>2 + eps)"
  define p where "p = g + beta * p0"
  define s where "s = line_search (still (complex_of_real t)) (still (complex_of_real p))
                        (scalar_measurement c) (tv_step_size ex_fast_tv1) ((1 - c * t)\<^sup>2) 1"
  have m: "ex_fast = scalar_measurement c"
    by (simp only: ex_fast_def c_def)
  have gb: "30221 / 100 < g" "g < 30222 / 100"
    using tb by (simp_all add: g_def c_def)
  note db = direction_bounds [where g = "- g" and dp = "- p0"
      and gl = "- (30222 / 100)" and gh = "- (30221 / 100)"
      and dl = "2399998 / 10000" and dh = "240"
      and bl = "1585 / 1000" and bh = "1586 / 1000"]
  have "- (30222 / 100) + 1585 / 1000 * (2399998 / 10000)
          < - g + 8 * (- g)\<^sup>2 / (8 * (- p0)\<^sup>2 + eps) * (- p0)"
    by (rule db(1)) (use gb ob in \<open>simp_all add: power2_eq_square\<close>)
  moreover have "- g + 8 * (- g)\<^sup>2 / (8 * (- p0)\<^sup>2 + eps) * (- p0)
          < - (30221 / 100) + 1586 / 1000 * 240"
    by (rule db(2)) (use gb ob in \<open>simp_all add: power2_eq_square\<close>)
  ultimately have pb: "- 785 / 10 < p" "p < - 781 / 10"
    by (simp_all add: p_def beta_def)
  have "c * p < 0" "0 < 1 - c * t"
    using pb tb by (simp_all add: c_def)
  then have "c * p * (1 - c * t) < 0"
    by (rule mult_neg_pos)
  moreover have "0 < tv_step_size ex_fast_tv1"
    by (simp add: step)
  ultimately have "s = tv_step_size ex_fast_tv1 * (8 / 10) ^ 15"
    unfolding s_def by (intro scalar_search_ascent)
  then have sv: "s = 2 * (8 / 10) ^ 15 * (8 / 10) ^ 15"
    by (simp only: step)
  note pass = scalar_function_pass [where w = ex_fast_tv1 and iter = 1 and c = c and t = t
      and g = g and dold = p0 and beta = beta and p = p and s = s and dp = p0,
      OF img old g_def _ beta_def p_def s_def, folded m]
  have nb: "\<not> s < 1 / 10000"
    by (simp add: sv power_divide)
  show ?thesis
  proof (rule that [of "t + s * p" p])
    show "fst (TotalVariationRecon_NLCG_body ex_fast 1 1 ex_fast_tv1) = Next"
      using pass(1) nb by simp
    show "tv_img ex_fast_tv2 = still (complex_of_real (t + s * p))"
      using pass(2) by (simp add: ex_fast_tv2_def)
    show "tv_update_old ex_fast_tv2 = still (complex_of_real p)"
      using pass(3) by (simp add: ex_fast_tv2_def)
    show "tv_step_size ex_fast_tv2 = 2 * (8 / 10) ^ 15 * (8 / 10) ^ 15"
      using pass(4) by (simp add: sv ex_fast_tv2_def)
    show "- 12083 / 1000 < t + s * p" "t + s * p < - 12081 / 1000"
      using pb tb by (simp_all add: sv power_divide)
    show "- 785 / 10 < p" "p < - 781 / 10"
      by (rule pb)+
  qed
qed

lemma fast_pass2:
  shows "fst (TotalVariationRecon_NLCG_body ex_fast 1 2 ex_fast_tv2) = Break"
    and "tv_step_size ex_fast_tv3 = 2 * (8 / 10) ^ 15 * (8 / 10) ^ 15 * (8 / 10) ^ 15"
proof -
  obtain t p1 where img: "tv_img ex_fast_tv2 = still (complex_of_real t)"
    and old: "tv_update_old ex_fast_tv2 = still (complex_of_real p1)"
    and step: "tv_step_size ex_fast_tv2 = 2 * (8 / 10) ^ 15 * (8 / 10) ^ 15"
    and tb: "- 12083 / 1000 < t" "t < - 12081 / 1000"
    and ob: "- 785 / 10 < p1" "p1 < - 781 / 10"
    by (rule fast_pass1)
  define c :: real where "c = 5"
  define g where "g = c * (1 - c * t)"
  define beta where "beta = 8 * g\<^sup>2 / (8 * p1\<^sup>2 + eps)"
  define p where "p = g + beta * p1"
  define s where "s = line_search (still (complex_of_real t)) (still (complex_of_real p))
                        (scalar_measurement c) (tv_step_size ex_fast_tv2) ((1 - c * t)\<^sup>2) 1"
  have m: "ex_fast = scalar_measurement c"
    by (simp only: ex_fast_def c_def)
  have gb: "307025 / 1000 < g" "g < 307075 / 1000"
    using tb by (simp_all add: g_def c_def)
  note db = direction_bounds [where g = "- g" and dp = "- p1"
      and gl = "- (307075 / 1000)" and gh = "- (307025 / 1000)"
      and dl = "781 / 10" and dh = "785 / 10"
      and bl = "152 / 10" and bh = "155 / 10"]
  have "- (307075 / 1000) + 152 / 10 * (781 / 10)
          < - g + 8 * (- g)\<^sup>2 / (8 * (- p1)\<^sup>2 + eps) * (- p1)"
    by (rule db(1)) (use gb ob in \<open>simp_all add: power2_eq_square\<close>)
  then have pb: "p < - 880"
    by (simp add: p_def beta_def)
  have "c * p < 0" "0 < 1 - c * t"
    using pb tb by (simp_all add: c_def)
  then have "c * p * (1 - c * t) < 0"
    by (rule mult_neg_pos)
  moreover have "0 < tv_step_size ex_fast_tv2"
    by (simp add: step)
  ultimately have "s = tv_step_size ex_fast_tv2 * (8 / 10) ^ 15"
    unfolding s_def by (intro scalar_search_ascent)
  then have sv: "s = 2 * (8 / 10) ^ 15 * (8 / 10) ^ 15 * (8 / 10) ^ 15"
    by (simp only: step)
  note pass = scalar_function_pass [where w = ex_fast_tv2 and iter = 2 and c = c and t = t
      and g = g and dold = p1 and beta = beta and p = p and s = s and dp = p1,
      OF img old g_def _ beta_def p_def s_def, folded m]
  have br: "s < 1 / 10000"
    by (simp add: sv power_divide)
  show "fst (TotalVariationRecon_NLCG_body ex_fast 1 2 ex_fast_tv2) = Break"
    using pass(1) br by simp
  show "tv_step_size ex_fast_tv3 = 2 * (8 / 10) ^ 15 * (8 / 10) ^ 15 * (8 / 10) ^ 15"
    using pass(4) by (simp add: sv ex_fast_tv3_def)
qed

lemma fast_run:
  shows "TotalVariationRecon_NLCG_loop ex_fast 1 [0..<2] (TotalVariationRecon_NLCG_start ex_fast 3)
           = (Next, ex_fast_tv2)"
    and "TotalVariationRecon_NLCG_body ex_fast 1 2 ex_fast_tv2 = (Break, ex_fast_tv3)"
proof -
  have "fst (TotalVariationRecon_NLCG_body ex_fast 1 0 ex_fast_start) = Next"
    by (rule fast_pass0)
  then have b0: "TotalVariationRecon_NLCG_body ex_fast 1 0 ex_fast_start = (Next, ex_fast_tv1)"
    by (simp add: ex_fast_tv1_def prod_eq_iff)
  have "fst (TotalVariationRecon_NLCG_body ex_fast 1 1 ex_fast_tv1) = Next"
    by (rule fast_pass1)
  then have b1: "TotalVariationRecon_NLCG_body ex_fast 1 1 ex_fast_tv1 = (Next, ex_fast_tv2)"
    by (simp add: ex_fast_tv2_def prod_eq_iff)
  have "[0..<2] = [0, 1 :: nat]"
    by (simp add: upt_rec)
  then show "TotalVariationRecon_NLCG_loop ex_fast 1 [0..<2] (TotalVariationRecon_NLCG_start ex_fast 3)
               = (Next, ex_fast_tv2)"
    using b0 b1 by (simp add: ex_fast_start_def)
  show "TotalVariationRecon_NLCG_body ex_fast 1 2 ex_fast_tv2 = (Break, ex_fast_tv3)"
    using fast_pass2(1) by (simp add: ex_fast_tv3_def prod_eq_iff)
qed

lemma converged_run:
  "NLCG_run_loop [0..<0] (NLCG_run_start ex_converged) = (Next, NLCG_run_start ex_converged)"
  "self_max_iter ex_converged = 3"
  "rv_fnorm (NLCG_run_start ex_converged) = []" "rv_tnorm (NLCG_run_start ex_converged) = []"
  "rv_cost (NLCG_run_start ex_converged) = []"
  by (simp_all add: NLCG_run_start_def ex_converged_def scalar_solver_fields)

section \<open>Stopping on a small step\<close>

text \<open>
  Claim C4, as amended. Take a run of the class variant whose iterations before
  iteration \<open>k\<close> all went on, and whose iteration \<open>k\<close> does not raise: it leaves the loop
  exactly when the accepted step is below 0.002, and then \<^verbatim>\<open>run\<close> returns the traces as
  they were before iteration \<open>k\<close>, with \<open>k\<close> entries each and none for iteration \<open>k\<close>.
  Take such a run of the function variant and its iteration \<open>j\<close>: it leaves the loop
  exactly when the accepted step is below 0.0001, and then the function returns traces
  of \<open>j + 1\<close> entries each, the last of which are the fidelity cost, the temporal cost
  and the total cost of iteration \<open>j\<close>.
\<close>

theorem step_size_termination:
  "(k < self_max_iter self
      \<and> NLCG_run_loop [0..<k] (NLCG_run_start self) = (Next, v)
      \<and> NLCG_run_body k v = (sig, v') \<and> (sig = Next \<or> sig = Break) \<longrightarrow>
      (sig = Break \<longleftrightarrow> rv_step_size v' < 2 / 1000)
      \<and> (sig = Break \<longrightarrow>
            NLCG_run self
              = (Inr (self_x (rv_self v'), rv_fnorm v, rv_tnorm v, rv_cost v), rv_self v')
            \<and> length (rv_fnorm v) = k \<and> length (rv_tnorm v) = k \<and> length (rv_cost v) = k))
   \<and> (j < max_iter
      \<and> TotalVariationRecon_NLCG_loop m lambda_t [0..<j] (TotalVariationRecon_NLCG_start m max_iter)
          = (Next, w)
      \<and> TotalVariationRecon_NLCG_body m lambda_t j w = (sig', w') \<and> (sig' = Next \<or> sig' = Break)
      \<longrightarrow>
      (sig' = Break \<longleftrightarrow> tv_step_size w' < 1 / 10000)
      \<and> (sig' = Break \<longrightarrow>
            TotalVariationRecon_NLCG m lambda_t max_iter
              = Inr (tv_img w', take (j + 1) (tv_fnorm w'), take (j + 1) (tv_tnorm w'),
                     take (j + 1) (tv_cost w'))
            \<and> length (take (j + 1) (tv_fnorm w')) = j + 1
            \<and> length (take (j + 1) (tv_tnorm w')) = j + 1
            \<and> length (take (j + 1) (tv_cost w')) = j + 1
            \<and> take (j + 1) (tv_fnorm w') ! j = snd (fidelity_update (tv_img w) m)
            \<and> take (j + 1) (tv_tnorm w') ! j = calculate_tnorm (tv_img w) lambda_t
            \<and> take (j + 1) (tv_cost w') ! j = total_cost m lambda_t (tv_img w)))"
proof -
  have cls: "(sig = Break \<longleftrightarrow> rv_step_size v' < 2 / 1000)
      \<and> (sig = Break \<longrightarrow>
            NLCG_run self
              = (Inr (self_x (rv_self v'), rv_fnorm v, rv_tnorm v, rv_cost v), rv_self v')
            \<and> length (rv_fnorm v) = k \<and> length (rv_tnorm v) = k \<and> length (rv_cost v) = k)"
    if k: "k < self_max_iter self"
      and pre: "NLCG_run_loop [0..<k] (NLCG_run_start self) = (Next, v)"
      and b: "NLCG_run_body k v = (sig, v')" and s: "sig = Next \<or> sig = Break"
  proof -
    obtain g where "sig = Break \<longleftrightarrow> rv_step_size v' < 2 / 1000"
      using b s by (rule NLCG_run_body_cases) blast
    then show ?thesis
      using NLCG_run_break [OF k pre, of v'] b by auto
  qed
  have fn: "(sig' = Break \<longleftrightarrow> tv_step_size w' < 1 / 10000)
      \<and> (sig' = Break \<longrightarrow>
            TotalVariationRecon_NLCG m lambda_t max_iter
              = Inr (tv_img w', take (j + 1) (tv_fnorm w'), take (j + 1) (tv_tnorm w'),
                     take (j + 1) (tv_cost w'))
            \<and> length (take (j + 1) (tv_fnorm w')) = j + 1
            \<and> length (take (j + 1) (tv_tnorm w')) = j + 1
            \<and> length (take (j + 1) (tv_cost w')) = j + 1
            \<and> take (j + 1) (tv_fnorm w') ! j = snd (fidelity_update (tv_img w) m)
            \<and> take (j + 1) (tv_tnorm w') ! j = calculate_tnorm (tv_img w) lambda_t
            \<and> take (j + 1) (tv_cost w') ! j = total_cost m lambda_t (tv_img w))"
    if j: "j < max_iter"
      and pre: "TotalVariationRecon_NLCG_loop m lambda_t [0..<j] (TotalVariationRecon_NLCG_start m max_iter)
                  = (Next, w)"
      and b: "TotalVariationRecon_NLCG_body m lambda_t j w = (sig', w')"
      and s: "sig' = Next \<or> sig' = Break"
  proof -
    obtain g where "sig' = Break \<longleftrightarrow> tv_step_size w' < 1 / 10000"
      using b s by (rule TotalVariationRecon_NLCG_body_cases) blast
    then show ?thesis
      using TotalVariationRecon_NLCG_break [OF j pre, of w'] b by auto
  qed
  show ?thesis
    using cls fn by blast
qed

text \<open>
  The theorem at a run of each variant that leaves the loop: the class variant started
  at the solution with the initial step 0.001 leaves it in iteration 0 and returns empty
  traces; the function variant with the factor 5 leaves it in iteration 2 and returns
  traces of three entries.
\<close>

theorem step_size_termination_witness:
  "0 < self_max_iter ex_converged
   \<and> NLCG_run_loop [0..<0] (NLCG_run_start ex_converged) = (Next, NLCG_run_start ex_converged)
   \<and> NLCG_run_body 0 (NLCG_run_start ex_converged) = (Break, ex_converged_vars)
   \<and> rv_step_size ex_converged_vars < 2 / 1000
   \<and> NLCG_run ex_converged = (Inr (still 1, [], [], []), rv_self ex_converged_vars)
   \<and> (2 :: nat) < 3
   \<and> TotalVariationRecon_NLCG_loop ex_fast 1 [0..<2] (TotalVariationRecon_NLCG_start ex_fast 3)
       = (Next, ex_fast_tv2)
   \<and> TotalVariationRecon_NLCG_body ex_fast 1 2 ex_fast_tv2 = (Break, ex_fast_tv3)
   \<and> tv_step_size ex_fast_tv3 < 1 / 10000
   \<and> TotalVariationRecon_NLCG ex_fast 1 3
       = Inr (tv_img ex_fast_tv3, take 3 (tv_fnorm ex_fast_tv3), take 3 (tv_tnorm ex_fast_tv3),
              take 3 (tv_cost ex_fast_tv3))
   \<and> length (returned_cost (TotalVariationRecon_NLCG ex_fast 1 3)) = 3
   \<and> returned_cost (TotalVariationRecon_NLCG ex_fast 1 3) ! 2
       = total_cost ex_fast 1 (tv_img ex_fast_tv2)"
  using step_size_termination [of 0 ex_converged "NLCG_run_start ex_converged" Break
      ex_converged_vars 2 3 ex_fast 1 ex_fast_tv2 Break ex_fast_tv3]
    converged_body(1) fast_run
  by (simp add: converged_run converged_body(3) returned_cost_def)

text \<open>
  Claim C4 as stated fails for the function variant: in the run with the factor 4.5325
  and five iterations the step accepted in iteration 3 is about 0.0012, below 0.002, and
  the loop goes on: iteration 4 is executed and the returned traces have five entries.
\<close>

theorem function_variant_continues:
  "TotalVariationRecon_NLCG_loop ex_slow 1 [0..<4] (TotalVariationRecon_NLCG_start ex_slow 5)
     = (Next, ex_slow_tv4)
   \<and> tv_step_size ex_slow_tv4 = 2 * (8 / 10) ^ 45 * (13 / 10) ^ 10
   \<and> tv_step_size ex_slow_tv4 < 2 / 1000
   \<and> TotalVariationRecon_NLCG_loop ex_slow 1 [0..<5] (TotalVariationRecon_NLCG_start ex_slow 5)
       = TotalVariationRecon_NLCG_body ex_slow 1 4 ex_slow_tv4
   \<and> tv_iter (snd (TotalVariationRecon_NLCG_body ex_slow 1 4 ex_slow_tv4)) = Some 4
   \<and> length (returned_cost (TotalVariationRecon_NLCG ex_slow 1 5)) = 5"
proof -
  have "[0..<4] = [0, 1, 2, 3 :: nat]"
    by (simp add: upt_rec)
  then have four: "TotalVariationRecon_NLCG_loop ex_slow 1 [0..<4] ex_slow_start = (Next, ex_slow_tv4)"
    using slow_run by simp
  have step: "tv_step_size ex_slow_tv4 = 2 * (8 / 10) ^ 45 * (13 / 10) ^ 10"
    by (simp add: slow_pass3(2) power_divide)
  have small: "tv_step_size ex_slow_tv4 < 2 / 1000"
    by (simp add: slow_pass3(2) power_divide)
  obtain sig w' where b: "TotalVariationRecon_NLCG_body ex_slow 1 4 ex_slow_tv4 = (sig, w')"
    and sig: "sig = Next \<or> sig = Break" and it: "tv_iter w' = Some 4"
    by (rule TotalVariationRecon_NLCG_body_defined [of ex_slow_tv4 ex_slow 1 4])
      (simp add: slow_pass3(3))
  have "[0..<5] = [0, 1, 2, 3, 4 :: nat]"
    by (simp add: upt_rec)
  then have five: "TotalVariationRecon_NLCG_loop ex_slow 1 [0..<5] ex_slow_start = (sig, w')"
    using sig slow_run b by auto
  have "length (tv_cost w') = length (tv_cost ex_slow_tv4)"
    using TotalVariationRecon_NLCG_body_trace_lengths(3) [of ex_slow 1 4 ex_slow_tv4]
    by (simp add: b)
  then have len: "length (tv_cost w') = 5"
    by (simp add: ex_slow_tv4_def ex_slow_tv3_def ex_slow_tv2_def ex_slow_tv1_def
        TotalVariationRecon_NLCG_body_trace_lengths slow_start)
  have "length (returned_cost (TotalVariationRecon_NLCG ex_slow 1 5)) = 5"
    unfolding TotalVariationRecon_NLCG_def ex_slow_start_def [symmetric] five
    using sig by (auto simp: returned_cost_def it len)
  then show ?thesis
    using four step small five b it by (simp add: ex_slow_start_def)
qed

end
